(* ===== verification/Prelude.thy ===== *)
theory Prelude
  imports Main "HOL-Library.Sublist" "HOL-Library.Multiset"
begin

text \<open>
  What every component shares: Go strings (byte strings, a \<open>char\<close> is a byte), the decoding of a
  byte string into runes that \<open>range\<close> over a string performs, the functions of the Go standard
  packages \<open>strings\<close>, \<open>strconv\<close> and \<open>regexp\<close> that the server calls, and generic lemmas on lists.
\<close>

section \<open>Collections of rewrite rules\<close>

named_theorems go_simps \<open>rewrite rules for the Go library functions\<close>

section \<open>Results of an operation\<close>

text \<open>
  An operation returns, panics (and with it the whole process), or waits forever for a lock that
  is never released.
\<close>

datatype 'a outcome = Ret 'a | Panic | Blocked

primrec and_then :: "'a outcome \<Rightarrow> ('a \<Rightarrow> 'b outcome) \<Rightarrow> 'b outcome" where
  "and_then (Ret x) f = f x"
| "and_then Panic f = Panic"
| "and_then Blocked f = Blocked"

lemma and_then_Ret_iff: "and_then r f = Ret y \<longleftrightarrow> (\<exists>x. r = Ret x \<and> f x = Ret y)"
  by (cases r) auto

text \<open>A loop whose body can fail.\<close>

primrec iterate :: "('a \<Rightarrow> 's \<Rightarrow> 's outcome) \<Rightarrow> 'a list \<Rightarrow> 's \<Rightarrow> 's outcome" where
  "iterate f [] s = Ret s"
| "iterate f (x # xs) s = and_then (f x s) (iterate f xs)"

text \<open>What holds of the result, if there is one.\<close>

primrec on_ret :: "('a \<Rightarrow> bool) \<Rightarrow> 'a outcome \<Rightarrow> bool" where
  "on_ret P (Ret x) = P x"
| "on_ret P Panic = True"
| "on_ret P Blocked = True"

lemma on_ret_iff: "on_ret P r \<longleftrightarrow> (\<forall>x. r = Ret x \<longrightarrow> P x)"
  by (cases r) auto

lemma on_ret_and_then: "on_ret Q r \<Longrightarrow> (\<And>x. Q x \<Longrightarrow> on_ret P (f x)) \<Longrightarrow> on_ret P (and_then r f)"
  by (cases r) auto

lemma on_ret_mono: "on_ret Q r \<Longrightarrow> (\<And>x. Q x \<Longrightarrow> P x) \<Longrightarrow> on_ret P r"
  by (cases r) auto

lemma on_ret_iterate:
  assumes "\<And>x s. x \<in> set xs \<Longrightarrow> P s \<Longrightarrow> on_ret P (f x s)" "P s"
  shows "on_ret P (iterate f xs s)"
  using assms
proof (induction xs arbitrary: s)
  case (Cons x xs)
  then show ?case by (auto intro: on_ret_and_then)
qed simp

text \<open>That there is a result, and what holds of it.\<close>

primrec returns :: "('a \<Rightarrow> bool) \<Rightarrow> 'a outcome \<Rightarrow> bool" where
  "returns P (Ret x) = P x"
| "returns P Panic = False"
| "returns P Blocked = False"

lemma returns_iff: "returns P r \<longleftrightarrow> (\<exists>x. r = Ret x \<and> P x)"
  by (cases r) auto

lemma returns_on_ret: "returns Q r \<Longrightarrow> on_ret P r \<Longrightarrow> returns (\<lambda>x. P x \<and> Q x) r"
  by (cases r) auto

lemma returns_and_then: "returns Q r \<Longrightarrow> (\<And>x. Q x \<Longrightarrow> returns P (f x)) \<Longrightarrow> returns P (and_then r f)"
  by (cases r) auto

lemma returns_mono: "returns Q r \<Longrightarrow> (\<And>x. Q x \<Longrightarrow> P x) \<Longrightarrow> returns P r"
  by (cases r) auto

lemma returns_iterate:
  assumes "\<And>x s. x \<in> set xs \<Longrightarrow> P s \<Longrightarrow> returns P (f x s)" "P s"
  shows "returns P (iterate f xs s)"
  using assms
proof (induction xs arbitrary: s)
  case (Cons x xs)
  then show ?case by (auto intro: returns_and_then)
qed simp

section \<open>Runes\<close>

type_synonym rune = nat

text \<open>\<open>utf8.RuneError\<close>, what a byte that starts no valid encoding decodes to.\<close>

definition RuneError :: rune where
  "RuneError = 65533"

definition is_cont :: "nat \<Rightarrow> bool" where
  "is_cont b \<longleftrightarrow> 128 \<le> b \<and> b \<le> 191"

text \<open>The range allowed for the second byte depends on the first one.\<close>

definition second_ok :: "nat \<Rightarrow> nat \<Rightarrow> bool" where
  "second_ok b0 b1 \<longleftrightarrow>
     (if b0 = 224 then 160 else if b0 = 240 then 144 else 128) \<le> b1 \<and>
     b1 \<le> (if b0 = 237 then 159 else if b0 = 244 then 143 else 191)"

definition two_bytes :: "nat \<Rightarrow> nat \<Rightarrow> rune" where
  "two_bytes b0 b1 = b0 mod 32 * 64 + b1 mod 64"

definition three_bytes :: "nat \<Rightarrow> nat \<Rightarrow> nat \<Rightarrow> rune" where
  "three_bytes b0 b1 b2 = b0 mod 16 * 4096 + b1 mod 64 * 64 + b2 mod 64"

definition four_bytes :: "nat \<Rightarrow> nat \<Rightarrow> nat \<Rightarrow> nat \<Rightarrow> rune" where
  "four_bytes b0 b1 b2 b3 = b0 mod 8 * 262144 + b1 mod 64 * 4096 + b2 mod 64 * 64 + b3 mod 64"

text \<open>
  The rune a multi-byte sequence starting with \<open>b0\<close> encodes and the number of bytes after
  \<open>b0\<close> it takes; None where Go reads \<open>RuneError\<close> with width 1.
\<close>

definition decode_head :: "nat \<Rightarrow> nat list \<Rightarrow> (rune \<times> nat) option" where
  "decode_head b0 bs =
     (if b0 < 128 then Some (b0, 0)
      else if 194 \<le> b0 \<and> b0 \<le> 223 then
        (case bs of
           b1 # _ \<Rightarrow> if is_cont b1 then Some (two_bytes b0 b1, 1) else None
         | _ \<Rightarrow> None)
      else if 224 \<le> b0 \<and> b0 \<le> 239 then
        (case bs of
           b1 # b2 # _ \<Rightarrow>
             if second_ok b0 b1 \<and> is_cont b2
             then Some (three_bytes b0 b1 b2, 2) else None
         | _ \<Rightarrow> None)
      else if 240 \<le> b0 \<and> b0 \<le> 244 then
        (case bs of
           b1 # b2 # b3 # _ \<Rightarrow>
             if second_ok b0 b1 \<and> is_cont b2 \<and> is_cont b3
             then Some (four_bytes b0 b1 b2 b3, 3)
             else None
         | _ \<Rightarrow> None)
      else None)"

fun decode_bytes :: "nat list \<Rightarrow> rune list" where
  "decode_bytes [] = []"
| "decode_bytes (b # bs) =
     (case decode_head b bs of
        None \<Rightarrow> RuneError # decode_bytes bs
      | Some (r, n) \<Rightarrow> r # decode_bytes (drop n bs))"

text \<open>The runes a \<open>for _, r := range s\<close> visits.\<close>

definition runes :: "string \<Rightarrow> rune list" where
  "runes s = decode_bytes (map of_char s)"

text \<open>\<open>utf8.ValidString\<close>: every byte belongs to a valid encoding.\<close>

fun valid_bytes :: "nat list \<Rightarrow> bool" where
  "valid_bytes [] = True"
| "valid_bytes (b # bs) =
     (case decode_head b bs of None \<Rightarrow> False | Some (r, n) \<Rightarrow> valid_bytes (drop n bs))"

definition valid_utf8 :: "string \<Rightarrow> bool" where
  "valid_utf8 s = valid_bytes (map of_char s)"

text \<open>\<open>string(r)\<close> for a rune: its UTF-8 encoding, that of \<open>RuneError\<close> where there is none.\<close>

definition encode_bytes :: "rune \<Rightarrow> nat list" where
  "encode_bytes r0 =
     (let r = (if r0 > 1114111 \<or> (55296 \<le> r0 \<and> r0 \<le> 57343) then RuneError else r0) in
      if r < 128 then [r]
      else if r < 2048 then [192 + r div 64, 128 + r mod 64]
      else if r < 65536 then [224 + r div 4096, 128 + r div 64 mod 64, 128 + r mod 64]
      else [240 + r div 262144, 128 + r div 4096 mod 64, 128 + r div 64 mod 64, 128 + r mod 64])"

definition rune_str :: "rune \<Rightarrow> string" where
  "rune_str r = map char_of (encode_bytes r)"

definition is_scalar :: "rune \<Rightarrow> bool" where
  "is_scalar r \<longleftrightarrow> r \<le> 1114111 \<and> \<not> (55296 \<le> r \<and> r \<le> 57343)"

lemma encode_bytes_range: "b \<in> set (encode_bytes r) \<Longrightarrow> b < 256"
  by (auto simp: encode_bytes_def Let_def RuneError_def split: if_splits)

lemma map_of_char_rune_str [simp]: "map of_char (rune_str r) = encode_bytes r"
proof -
  have "\<forall>b \<in> set (encode_bytes r). of_char (char_of b :: char) = b"
    using encode_bytes_range by auto
  then show ?thesis by (simp add: rune_str_def comp_def map_idI)
qed

text \<open>The leading bits of a byte of an encoding are taken off by a remainder.\<close>

lemma mod_lead:
  assumes "k * m \<le> b" "b < k * m + m"
  shows "b mod m = b - k * (m::nat)"
proof -
  have "b = (b - k * m) + k * m" using assms(1) by simp
  then have "b mod m = (b - k * m) mod m" by (metis mod_mult_self1)
  also have "\<dots> = b - k * m" by (rule mod_less) (use assms in arith)
  finally show ?thesis .
qed

text \<open>Decoding undoes the encoding of one rune, whatever follows it. A rune is split into base-64 digits, as the encoding writes it.\<close>

lemma base64_digits:
  fixes a b :: nat
  assumes "b < 64"
  shows "(64 * a + b) div 64 = a" "(64 * a + b) mod 64 = b"
  using assms by simp_all

lemma cont_digit: "d < 64 \<Longrightarrow> is_cont (128 + d)" "d < 64 \<Longrightarrow> (128 + d) mod 64 = d"
  using mod_lead [of 2 64 "128 + d"] by (simp_all add: is_cont_def)

lemma decode_head_two:
  assumes "2 \<le> a" "a < 32" "b < 64"
  shows "decode_head (192 + a) ((128 + b) # bs) = Some (64 * a + b, 1)"
proof -
  have "(192 + a) mod 32 = a" using assms mod_lead [of 6 32 "192 + a"] by simp
  then show ?thesis using assms by (auto simp: decode_head_def cont_digit two_bytes_def)
qed

lemma decode_head_three:
  assumes "a < 16" "b < 64" "c < 64" "a = 0 \<Longrightarrow> 32 \<le> b" "a = 13 \<Longrightarrow> b < 32"
  shows "decode_head (224 + a) ((128 + b) # (128 + c) # bs) = Some (4096 * a + 64 * b + c, 2)"
proof -
  have "(224 + a) mod 16 = a" using assms mod_lead [of 14 16 "224 + a"] by simp
  then show ?thesis using assms by (auto simp: decode_head_def cont_digit second_ok_def three_bytes_def)
qed

lemma decode_head_four:
  assumes "a < 5" "b < 64" "c < 64" "d < 64" "a = 0 \<Longrightarrow> 16 \<le> b" "a = 4 \<Longrightarrow> b < 16"
  shows "decode_head (240 + a) ((128 + b) # (128 + c) # (128 + d) # bs) =
    Some (262144 * a + 4096 * b + 64 * c + d, 3)"
proof -
  have "(240 + a) mod 8 = a" using assms mod_lead [of 30 8 "240 + a"] by simp
  then show ?thesis using assms by (auto simp: decode_head_def cont_digit second_ok_def four_bytes_def)
qed

lemma decode_head_encode:
  assumes "is_scalar r"
  shows "\<exists>b cs. encode_bytes r = b # cs \<and> (\<forall>bs. decode_head b (cs @ bs) = Some (r, length cs))"
proof -
  define d where "d = r mod 64"
  define q where "q = r div 64"
  define c where "c = q mod 64"
  define p where "p = q div 64"
  define b where "b = p mod 64"
  define a where "a = p div 64"
  have lt: "d < 64" "c < 64" "b < 64" by (simp_all add: d_def c_def b_def)
  have r: "r = 64 * q + d" and q: "q = 64 * p + c" and p: "p = 64 * a + b"
    by (simp_all add: d_def q_def c_def p_def b_def a_def)
  have ok: "r \<le> 1114111" "\<not> (55296 \<le> r \<and> r \<le> 57343)" using assms by (auto simp: is_scalar_def)
  have dv: "r div 64 = q" "r mod 64 = d" "r div 4096 = p" "r div 262144 = a"
    "r div 64 mod 64 = c" "r div 4096 mod 64 = b"
    using div_mult2_eq [of r 64 64] div_mult2_eq [of r 4096 64]
    by (simp_all add: d_def q_def c_def p_def b_def a_def)
  consider (one) "r < 128" | (two) "128 \<le> r" "r < 2048" | (three) "2048 \<le> r" "r < 65536"
    | (four) "65536 \<le> r" by linarith
  then show ?thesis
  proof cases
    case one
    with ok show ?thesis by (auto simp: encode_bytes_def decode_head_def)
  next
    case two
    with r lt have "2 \<le> q" "q < 32" by auto
    from decode_head_two [OF this lt(1)] two ok r dv show ?thesis
      by (auto simp: encode_bytes_def)
  next
    case three
    with r q lt have "p < 16" "p = 0 \<Longrightarrow> 32 \<le> c" "p = 13 \<Longrightarrow> c < 32" using ok by auto
    from decode_head_three [OF this(1) lt(2,1) this(2,3)] three ok r q dv show ?thesis
      by (auto simp: encode_bytes_def)
  next
    case four
    with r q p lt have "a < 5" "a = 0 \<Longrightarrow> 16 \<le> b" "a = 4 \<Longrightarrow> b < 16" using ok by auto
    from decode_head_four [OF this(1) lt(3,2,1) this(2,3)] four ok r q p dv show ?thesis
      by (auto simp: encode_bytes_def)
  qed
qed

lemma decode_encode_bytes:
  assumes "is_scalar r"
  shows "decode_bytes (encode_bytes r @ bs) = r # decode_bytes bs"
proof -
  from decode_head_encode [OF assms] obtain b cs
    where "encode_bytes r = b # cs" "\<And>bs. decode_head b (cs @ bs) = Some (r, length cs)"
    by blast
  then show ?thesis by simp
qed

lemma runes_rune_str: "is_scalar r \<Longrightarrow> runes (rune_str r @ s) = r # runes s"
  by (simp add: runes_def decode_encode_bytes)

text \<open>Comparing a byte written as a number with a byte written as a character.\<close>

lemma char_of_num [go_simps]:
  "char_of (n :: nat) = c \<longleftrightarrow> n mod 256 = of_char c" "c = char_of (n :: nat) \<longleftrightarrow> of_char c = n mod 256"
  by (metis char_of_char of_char_of char_of_mod_256)+

section \<open>Package strings\<close>

text \<open>\<open>strings.Contains\<close>, \<open>strings.HasPrefix\<close>, \<open>strings.HasSuffix\<close>.\<close>

fun Contains :: "string \<Rightarrow> string \<Rightarrow> bool" where
  "Contains [] sub = (sub = [])"
| "Contains (c # cs) sub = (prefix sub (c # cs) \<or> Contains cs sub)"

lemma Contains_iff: "Contains s sub = sublist sub s"
  by (induction s) (auto simp: sublist_Cons_right)

lemma Contains_char [go_simps]: "Contains s [c] = (c \<in> set s)"
  by (auto simp: Contains_iff sublist_def in_set_conv_decomp)

text \<open>\<open>strings.TrimSuffix(s, ".")\<close>.\<close>

definition trim_suffix :: "string \<Rightarrow> string \<Rightarrow> string" where
  "trim_suffix s suf = (if suffix suf s then take (length s - length suf) s else s)"

text \<open>\<open>strings.Split(s, sep)\<close> for a separator of one byte.\<close>

fun split_on :: "char \<Rightarrow> string \<Rightarrow> string list" where
  "split_on c [] = [[]]"
| "split_on c (x # xs) =
     (if x = c then [] # split_on c xs
      else (case split_on c xs of [] \<Rightarrow> [[x]] | p # ps \<Rightarrow> (x # p) # ps))"

text \<open>\<open>strings.Join(xs, sep)\<close>.\<close>

fun join :: "string \<Rightarrow> string list \<Rightarrow> string" where
  "join sep [] = []"
| "join sep [x] = x"
| "join sep (x # y # xs) = x @ sep @ join sep (y # xs)"

lemma split_on_nonempty [simp]: "split_on c s \<noteq> []"
  by (induction s) (auto split: list.splits)

lemma join_Cons: "ps \<noteq> [] \<Longrightarrow> join sep (p # ps) = p @ sep @ join sep ps"
  by (cases ps) auto

lemma join_split_on: "join [c] (split_on c s) = s"
proof (induction s)
  case (Cons x s)
  obtain p ps where ps: "split_on c s = p # ps" by (meson split_on_nonempty neq_Nil_conv)
  with Cons show ?case by (cases ps) auto
qed simp

lemma split_on_parts: "p \<in> set (split_on c s) \<Longrightarrow> c \<notin> set p"
proof (induction s arbitrary: p)
  case (Cons x s)
  obtain q qs where "split_on c s = q # qs" by (meson split_on_nonempty neq_Nil_conv)
  with Cons show ?case by (auto split: if_splits)
qed simp

lemma split_on_subset: "p \<in> set (split_on c s) \<Longrightarrow> set p \<subseteq> set s"
proof (induction s arbitrary: p)
  case (Cons x s)
  obtain q qs where "split_on c s = q # qs" by (meson split_on_nonempty neq_Nil_conv)
  with Cons show ?case by (fastforce split: if_splits)
qed simp

lemma split_on_append: "c \<notin> set p \<Longrightarrow> split_on c (p @ c # s) = p # split_on c s"
  by (induction p) auto

lemma split_on_id: "c \<notin> set p \<Longrightarrow> split_on c p = [p]"
  by (induction p) auto

lemma split_on_join:
  "ps \<noteq> [] \<Longrightarrow> \<forall>p \<in> set ps. c \<notin> set p \<Longrightarrow> split_on c (join [c] ps) = ps"
proof (induction ps)
  case (Cons p ps)
  then show ?case
    by (cases "ps = []") (auto simp: join_Cons split_on_append split_on_id)
qed simp

text \<open>
  The regular expression \<open>spacesExpr\<close> is \<open> +\<close>: \<open>Split(s, 2)\<close> cuts at the first run of spaces,
  \<open>Split(s, -1)\<close> at every run.
\<close>

definition is_space :: "char \<Rightarrow> bool" where
  "is_space c \<longleftrightarrow> c = CHR '' ''"

lemma length_dropWhile_le': "length (dropWhile P xs) \<le> length xs"
  by (induction xs) auto

lemma after_space_shorter:
  assumes "\<exists>c \<in> set s. is_space c"
  shows "length (dropWhile is_space (dropWhile (Not \<circ> is_space) s)) < length s"
  using assms
proof (induction s)
  case (Cons x s)
  then show ?case
    by (cases "is_space x") (auto intro: le_imp_less_Suc length_dropWhile_le' less_SucI)
qed simp

function split_spaces :: "string \<Rightarrow> string list" where
  "split_spaces s =
     (if \<exists>c \<in> set s. is_space c
      then takeWhile (Not \<circ> is_space) s #
             split_spaces (dropWhile is_space (dropWhile (Not \<circ> is_space) s))
      else [s])"
  by pat_completeness auto

termination
  by (relation "measure length") (auto simp: after_space_shorter)

declare split_spaces.simps [simp del]

section \<open>Package strconv\<close>

definition digit_char :: "nat \<Rightarrow> char" where
  "digit_char d = char_of (48 + d)"

text \<open>\<open>strconv.FormatUint(n, 10)\<close> and \<open>%d\<close>.\<close>

fun format_nat :: "nat \<Rightarrow> string" where
  "format_nat n =
     (if n < 10 then [digit_char n] else format_nat (n div 10) @ [digit_char (n mod 10)])"

declare format_nat.simps [simp del]

definition format_int :: "int \<Rightarrow> string" where
  "format_int i = (if i < 0 then CHR ''-'' # format_nat (nat (- i)) else format_nat (nat i))"

text \<open>\<open>%03d\<close>.\<close>

definition pad3 :: "nat \<Rightarrow> string" where
  "pad3 n = replicate (3 - length (format_nat n)) (CHR ''0'') @ format_nat n"

definition is_digit :: "char \<Rightarrow> bool" where
  "is_digit c \<longleftrightarrow> 48 \<le> (of_char c :: nat) \<and> (of_char c :: nat) \<le> 57"

definition digit_val :: "char \<Rightarrow> nat" where
  "digit_val c = of_char c - 48"

definition digits_val :: "string \<Rightarrow> nat" where
  "digits_val s = foldl (\<lambda>n c. 10 * n + digit_val c) 0 s"

text \<open>
  \<open>strconv.ParseUint(s, 10, bits)\<close>: None stands for a non-nil error (no digit, a byte that is no
  digit, or a value that does not fit).
\<close>

definition parse_uint :: "nat \<Rightarrow> string \<Rightarrow> nat option" where
  "parse_uint bits s =
     (if s \<noteq> [] \<and> list_all is_digit s \<and> digits_val s < 2 ^ bits then Some (digits_val s) else None)"

text \<open>
  The value \<open>strconv.ParseInt(s, 10, 64)\<close> returns beside its error: 0 on a syntax error, the
  nearest bound when the value does not fit.
\<close>

definition parse_int64 :: "string \<Rightarrow> int" where
  "parse_int64 s =
     (let neg = (case s of c # _ \<Rightarrow> c = CHR ''-'' | [] \<Rightarrow> False);
          ds = (case s of c # cs \<Rightarrow> if c = CHR ''-'' \<or> c = CHR ''+'' then cs else s | [] \<Rightarrow> [])
      in if ds = [] \<or> \<not> list_all is_digit ds then 0
         else if neg then - int (min (digits_val ds) (2 ^ 63))
         else int (min (digits_val ds) (2 ^ 63 - 1)))"

lemma of_char_digit: "d < 10 \<Longrightarrow> (of_char (digit_char d) :: nat) = 48 + d"
  by (simp add: digit_char_def)

lemma is_digit_digit_char [simp]: "d < 10 \<Longrightarrow> is_digit (digit_char d)"
  by (simp add: is_digit_def of_char_digit)

lemma digits_val_snoc: "digits_val (s @ [c]) = 10 * digits_val s + digit_val c"
  by (simp add: digits_val_def)

lemma format_nat_nonempty [simp]: "format_nat n \<noteq> []"
  by (subst format_nat.simps) simp

lemma format_nat_digits: "list_all is_digit (format_nat n)"
proof (induction n rule: format_nat.induct)
  case (1 n)
  then show ?case by (subst format_nat.simps) auto
qed

lemma digits_val_format_nat: "digits_val (format_nat n) = n"
proof (induction n rule: format_nat.induct)
  case (1 n)
  show ?case
  proof (cases "n < 10")
    case True
    then show ?thesis
      by (subst format_nat.simps) (simp add: digits_val_def digit_val_def of_char_digit)
  next
    case False
    with 1 show ?thesis
      by (subst format_nat.simps) (simp add: digits_val_snoc digit_val_def of_char_digit)
  qed
qed

text \<open>Reading back what was printed.\<close>

lemma parse_format_nat [go_simps]: "n < 2 ^ bits \<Longrightarrow> parse_uint bits (format_nat n) = Some n"
  by (simp add: parse_uint_def digits_val_format_nat format_nat_digits)

lemma parse_uint_bound: "parse_uint bits s = Some n \<Longrightarrow> n < 2 ^ bits"
  by (auto simp: parse_uint_def split: if_splits)

lemma format_nat_chars: "c \<in> set (format_nat n) \<Longrightarrow> is_digit c"
  using format_nat_digits by (auto simp: list_all_iff)

section \<open>ASCII case\<close>

definition ascii_upper :: "rune \<Rightarrow> rune" where
  "ascii_upper r = (if 97 \<le> r \<and> r \<le> 122 then r - 32 else r)"

definition ascii_lower :: "rune \<Rightarrow> rune" where
  "ascii_lower r = (if 65 \<le> r \<and> r \<le> 90 then r + 32 else r)"

definition is_ascii :: "string \<Rightarrow> bool" where
  "is_ascii s = list_all (\<lambda>c. (of_char c :: nat) < 128) s"

lemma runes_ascii: "is_ascii s \<Longrightarrow> runes s = map of_char s"
  unfolding runes_def by (induction s) (auto simp: is_ascii_def decode_head_def)

lemma valid_utf8_ascii: "is_ascii s \<Longrightarrow> valid_utf8 s"
  unfolding valid_utf8_def by (induction s) (auto simp: is_ascii_def decode_head_def)

lemma encode_ascii: "r < 128 \<Longrightarrow> rune_str r = [char_of r]"
  by (simp add: rune_str_def encode_bytes_def)

section \<open>Formats\<close>

text \<open>
  \<open>fmt.Sprintf\<close> for the verbs \<open>%s\<close> and \<open>%d\<close>. Every format of the source has as many verbs as
  arguments, so what \<open>fmt\<close> prints for a missing or an extra argument is left out.
\<close>

fun Sprintf :: "string \<Rightarrow> string list \<Rightarrow> string" where
  "Sprintf [] args = []"
| "Sprintf [c] args = [c]"
| "Sprintf (c # v # rest) args =
     (if c = CHR ''%'' \<and> (v = CHR ''s'' \<or> v = CHR ''d'')
      then (case args of [] \<Rightarrow> Sprintf rest [] | a # as \<Rightarrow> a @ Sprintf rest as)
      else c # Sprintf (v # rest) args)"

end
