(* ===== verification/Config_Types.thy ===== *)
theory Config_Types
  imports Main
begin

text \<open>
  The structs of src/internal/config.go. A map of the configuration is an association list with
  distinct keys; its values are pointers, and a value that the file leaves empty is nil, here
  \<open>None\<close>. A \<open>PassConfig\<close> is its one field.
\<close>

record TLSConfig =
  tls_key :: string
  tls_cert :: string

record I2PConfig =
  i2p_keys :: string
  i2p_sam :: string
  i2p_base32 :: string

record TorConfig =
  tor_keys :: string
  tor_control :: int
  tor_onion :: string

record Config =
  cfg_filename :: string
  cfg_network :: string
  cfg_password :: string
  cfg_listen :: "string list"
  cfg_tls_listen :: "(string \<times> TLSConfig option) list"
  cfg_i2p_listen :: "(string \<times> I2PConfig option) list"
  cfg_tor_listen :: "(string \<times> TorConfig option) list"
  cfg_log :: string
  cfg_motd :: string
  cfg_name :: string
  cfg_description :: string
  cfg_www_listen :: "string list"
  cfg_www_tls_listen :: "(string \<times> TLSConfig option) list"
  cfg_www_i2p_listen :: "(string \<times> I2PConfig option) list"
  cfg_www_tor_listen :: "(string \<times> TorConfig option) list"
  cfg_operators :: "(string \<times> string option) list"
  cfg_accounts :: "(string \<times> string option) list"
  cfg_template_dir :: string

text \<open>The configuration with every field at its zero value.\<close>

definition zero_config :: Config where
  "zero_config =
     \<lparr>cfg_filename = [], cfg_network = [], cfg_password = [], cfg_listen = [], cfg_tls_listen = [],
      cfg_i2p_listen = [], cfg_tor_listen = [], cfg_log = [], cfg_motd = [], cfg_name = [], cfg_description = [],
      cfg_www_listen = [], cfg_www_tls_listen = [], cfg_www_i2p_listen = [], cfg_www_tor_listen = [],
      cfg_operators = [], cfg_accounts = [], cfg_template_dir = []\<rparr>"

end
