(* ===== verification/Go_Env.thy ===== *)
theory Go_Env
  imports Prelude Config_Types
begin

text \<open>
  The environment of the program: what it calls and does not declare. The package uses the types
  \<open>UserModeSet\<close>, \<open>ChannelModeSet\<close>, \<open>ChannelSet\<close>, \<open>ClientSet\<close>, \<open>MemberSet\<close>, the methods of
  \<open>ChannelNameMap\<close> and \<open>Counter\<close>, and \<open>NewIdentity\<close>, and no file under src/internal declares them
  (types.go, where one expects them, is a second copy of strings.go). They are therefore fields
  of a record \<open>go_env\<close>, over an arbitrary type \<open>'t\<close> of representations, and the locales below
  state what their callers rely on. The Unicode tables, the normal forms of
  golang.org/x/text, bcrypt, ircmatch and the clock are fields of the same record.

  A pointer to a client or to a channel is a number, and so is a rune, so that one interface
  \<open>set_ops\<close> serves the four set types.
\<close>

section \<open>Operations\<close>

record text_env =
  u_upper :: "rune \<Rightarrow> rune"
  u_lower :: "rune \<Rightarrow> rune"
  u_letter :: "rune \<Rightarrow> bool"
  u_number :: "rune \<Rightarrow> bool"
  u_punct :: "rune \<Rightarrow> bool"
  u_symbol :: "rune \<Rightarrow> bool"
  nfkc :: "string \<Rightarrow> string"
  nfc :: "string \<Rightarrow> string"
  map_order :: "nat \<Rightarrow> nat list"

text \<open>
  \<open>set_add\<close> stands for \<open>Set\<close> of a mode set and \<open>Add\<close> of a pointer set, \<open>set_remove\<close> for
  \<open>Unset\<close> and \<open>Remove\<close>; \<open>set_range\<close> lists the elements in the order \<open>Range\<close> visits them.
\<close>

record 't set_ops =
  set_new :: "'t"
  set_add :: "'t \<Rightarrow> nat \<Rightarrow> 't"
  set_remove :: "'t \<Rightarrow> nat \<Rightarrow> 't"
  set_has :: "'t \<Rightarrow> nat \<Rightarrow> bool"
  set_count :: "'t \<Rightarrow> nat"
  set_range :: "'t \<Rightarrow> nat list"

text \<open>
  A \<open>MemberSet\<close> maps a client to its channel modes. \<open>Get\<close> returns a pointer to the modes, nil
  (here \<open>None\<close>) for a client that is no member; \<open>mem_put s c m\<close> is \<open>s\<close> after the modes that
  \<open>Get(c)\<close> points to were changed to \<open>m\<close> through the pointer.
\<close>

record 't member_ops =
  mem_new :: "'t"
  mem_add :: "'t \<Rightarrow> nat \<Rightarrow> 't"
  mem_remove :: "'t \<Rightarrow> nat \<Rightarrow> 't"
  mem_get :: "'t \<Rightarrow> nat \<Rightarrow> 't option"
  mem_put :: "'t \<Rightarrow> nat \<Rightarrow> 't \<Rightarrow> 't"
  mem_has :: "'t \<Rightarrow> nat \<Rightarrow> bool"
  mem_has_mode :: "'t \<Rightarrow> nat \<Rightarrow> rune \<Rightarrow> bool"
  mem_count :: "'t \<Rightarrow> nat"
  mem_range :: "'t \<Rightarrow> (nat \<times> 't) list"

text \<open>
  \<open>ChannelNameMap\<close>: \<open>Add\<close> and \<open>Remove\<close> take a channel, that is its name and its pointer. Names
  are identified up to \<open>chan_key\<close> (the case folding its methods apply, if any).
\<close>

record 't chan_map_ops =
  chan_key :: "string \<Rightarrow> string"
  cm_new :: "'t"
  cm_add :: "'t \<Rightarrow> string \<Rightarrow> nat \<Rightarrow> 't"
  cm_remove :: "'t \<Rightarrow> string \<Rightarrow> nat \<Rightarrow> 't"
  cm_get :: "'t \<Rightarrow> string \<Rightarrow> nat option"
  cm_count :: "'t \<Rightarrow> nat"
  cm_range :: "'t \<Rightarrow> (string \<times> nat) list"

text \<open>
  \<open>nil_modes_has\<close> is \<open>Has\<close> of a \<open>ChannelModeSet\<close> called through the nil pointer that \<open>Get\<close> returns for
  a client that is no member. What it does is up to the declaration of the type.
\<close>

record 't go_env = text_env +
  user_modes :: "'t set_ops"
  chan_modes :: "'t set_ops"
  chan_sets :: "'t set_ops"
  client_sets :: "'t set_ops"
  members_ops :: "'t member_ops"
  chan_map :: "'t chan_map_ops"
  user_modes_string :: "'t \<Rightarrow> string"
  counter_inc :: "int \<Rightarrow> int"
  counter_dec :: "int \<Rightarrow> int"
  identity_string :: "string \<Rightarrow> string \<Rightarrow> string"
  bcrypt_ok :: "string \<Rightarrow> string \<Rightarrow> bool"
  irc_match :: "string \<Rightarrow> string \<Rightarrow> bool"
  sha256_sum :: "string \<Rightarrow> string"
  rfc1123 :: "int \<Rightarrow> string"
  yaml_config :: "string \<Rightarrow> Config option option"
  merge_config :: "Config \<Rightarrow> Config \<Rightarrow> Config"
  nil_modes_has :: "rune \<Rightarrow> bool outcome"

text \<open>
  A Go map is visited in an order the language leaves open: \<open>map_order n\<close> is the order of the
  positions of a map of \<open>n\<close> entries.
\<close>

definition go_range :: "('z) text_env_scheme \<Rightarrow> 'a list \<Rightarrow> 'a list" where
  "go_range E xs = map (nth xs) (map_order E (length xs))"

text \<open>A method with a pointer receiver that reads the fields of a struct panics on a nil pointer.\<close>

definition nil_receiver_panics :: "'t go_env \<Rightarrow> bool" where
  "nil_receiver_panics E \<longleftrightarrow> (\<forall>mode. nil_modes_has E mode = Panic)"

section \<open>What the callers rely on\<close>

locale go_set =
  fixes S :: "'t set_ops"
  assumes set_has_new: "\<not> set_has S (set_new S) x"
    and set_has_add: "set_has S (set_add S s x) y \<longleftrightarrow> y = x \<or> set_has S s y"
    and set_has_remove: "set_has S (set_remove S s x) y \<longleftrightarrow> y \<noteq> x \<and> set_has S s y"
    and set_range_has: "x \<in> set (set_range S s) \<longleftrightarrow> set_has S s x"
    and set_range_distinct: "distinct (set_range S s)"
    and set_count_range: "set_count S s = length (set_range S s)"
begin

lemmas set_simps = set_has_new set_has_add set_has_remove set_range_has set_range_distinct

lemma set_range_new: "set_range S (set_new S) = []"
  using set_range_has [of _ "set_new S"] set_has_new by (meson last_in_set)

lemma set_range_eq: "set (set_range S s) = {x. set_has S s x}"
  by (auto simp: set_range_has)

end

locale go_members = cm: go_set CM for CM :: "'t set_ops" +
  fixes M :: "'t member_ops"
  assumes mem_get_new: "mem_get M (mem_new M) c = None"
    and mem_get_add: "mem_get M s c = None \<Longrightarrow>
          mem_get M (mem_add M s c) d = (if d = c then Some (set_new CM) else mem_get M s d)"
    and mem_get_remove: "mem_get M (mem_remove M s c) d = (if d = c then None else mem_get M s d)"
    and mem_get_put: "mem_get M s c \<noteq> None \<Longrightarrow>
          mem_get M (mem_put M s c m) d = (if d = c then Some m else mem_get M s d)"
    and mem_has_get: "mem_has M s c \<longleftrightarrow> mem_get M s c \<noteq> None"
    and mem_has_mode_get: "mem_has_mode M s c r \<longleftrightarrow>
          (case mem_get M s c of None \<Rightarrow> False | Some m \<Rightarrow> set_has CM m r)"
    and mem_range_get: "(c, m) \<in> set (mem_range M s) \<longleftrightarrow> mem_get M s c = Some m"
    and mem_range_distinct: "distinct (map fst (mem_range M s))"
    and mem_count_range: "mem_count M s = length (mem_range M s)"
begin

lemma mem_range_has: "c \<in> set (map fst (mem_range M s)) \<longleftrightarrow> mem_has M s c"
proof -
  have "c \<in> set (map fst (mem_range M s)) \<longleftrightarrow> (\<exists>m. (c, m) \<in> set (mem_range M s))"
    by force
  then show ?thesis by (simp add: mem_has_get mem_range_get)
qed

lemma mem_has_new: "\<not> mem_has M (mem_new M) c"
  by (simp add: mem_has_get mem_get_new)

lemma mem_has_add: "\<not> mem_has M s c \<Longrightarrow> mem_has M (mem_add M s c) d \<longleftrightarrow> d = c \<or> mem_has M s d"
  by (simp add: mem_has_get mem_get_add)

lemma mem_has_remove: "mem_has M (mem_remove M s c) d \<longleftrightarrow> d \<noteq> c \<and> mem_has M s d"
  by (simp add: mem_has_get mem_get_remove)

lemma mem_has_put: "mem_has M s c \<Longrightarrow> mem_has M (mem_put M s c m) d \<longleftrightarrow> mem_has M s d"
  by (auto simp: mem_has_get mem_get_put)

lemma mem_range_fst: "set (map fst (mem_range M s)) = {c. mem_has M s c}"
  using mem_range_has by blast

lemma mem_count_card: "mem_count M s = card {c. mem_has M s c}"
proof -
  have "card (set (map fst (mem_range M s))) = length (mem_range M s)"
    using distinct_card [OF mem_range_distinct, of s] by simp
  then show ?thesis by (simp only: mem_count_range mem_range_fst)
qed

lemma finite_members: "finite {c. mem_has M s c}"
  by (metis List.finite_set mem_range_fst)

lemma mem_count_0: "mem_count M s = 0 \<longleftrightarrow> (\<forall>c. \<not> mem_has M s c)"
  using finite_members [of s] by (auto simp: mem_count_card)

lemma mem_count_add:
  assumes "\<not> mem_has M s c"
  shows "mem_count M (mem_add M s c) = Suc (mem_count M s)"
proof -
  have "{d. mem_has M (mem_add M s c) d} = insert c {d. mem_has M s d}"
    using assms by (auto simp: mem_has_add)
  then show ?thesis using assms finite_members [of s] by (simp add: mem_count_card)
qed

end

locale go_chan_map =
  fixes N :: "'t chan_map_ops"
  assumes cm_get_new: "cm_get N (cm_new N) n = None"
    and cm_get_key: "chan_key N n = chan_key N m \<Longrightarrow> cm_get N s n = cm_get N s m"
    and cm_get_add: "cm_get N s n = None \<Longrightarrow>
          cm_get N (cm_add N s n ch) m = (if chan_key N m = chan_key N n then Some ch else cm_get N s m)"
    and cm_get_remove: "cm_get N (cm_remove N s n ch) m =
          (if cm_get N s n = Some ch \<and> chan_key N m = chan_key N n then None else cm_get N s m)"
    and cm_range_get: "ch \<in> snd ` set (cm_range N s) \<longleftrightarrow> (\<exists>n. cm_get N s n = Some ch)"
    and cm_count_range: "cm_count N s = length (cm_range N s)"

locale go_env_laws =
  fixes E :: "'t go_env"
  assumes order_perm: "mset (map_order E n) = mset [0..<n]"
    and nfkc_ascii: "is_ascii s \<Longrightarrow> nfkc E s = s"
    and nfc_ascii: "is_ascii s \<Longrightarrow> nfc E s = s"
    and um_set: "go_set (user_modes E)"
    and cm_set: "go_set (chan_modes E)"
    and cs_set: "go_set (chan_sets E)"
    and cl_set: "go_set (client_sets E)"
    and mem_laws: "go_members (chan_modes E) (members_ops E)"
    and cn_laws: "go_chan_map (chan_map E)"
    and inc_law: "counter_inc E i = i + 1"
    and dec_law: "counter_dec E i = i - 1"

sublocale go_env_laws \<subseteq> um: go_set "user_modes E"
  by (rule um_set)

sublocale go_env_laws \<subseteq> cs: go_set "chan_sets E"
  by (rule cs_set)

sublocale go_env_laws \<subseteq> cl: go_set "client_sets E"
  by (rule cl_set)

sublocale go_env_laws \<subseteq> mem: go_members "chan_modes E" "members_ops E"
  by (rule mem_laws)

sublocale go_env_laws \<subseteq> cn: go_chan_map "chan_map E"
  by (rule cn_laws)

context go_env_laws begin

lemma go_range_mset: "mset (go_range E xs) = mset xs"
proof -
  have "mset (go_range E xs) = image_mset (nth xs) (mset (map_order E (length xs)))"
    by (simp add: go_range_def)
  also have "\<dots> = mset (map (nth xs) [0..<length xs])"
    by (simp add: order_perm)
  finally show ?thesis by (simp add: map_nth)
qed

lemma go_range_set: "set (go_range E xs) = set xs"
  using go_range_mset by (metis set_mset_mset)

end

section \<open>An instance: lists as representations\<close>

text \<open>
  The laws can hold together: sets and maps kept as lists in the order of insertion satisfy
  them. The instance evaluates, and the concrete inputs of the development run on it.
\<close>

datatype rep = RSet "nat list" | RMem "(nat \<times> rep) list" | RNames "(string \<times> nat) list"

fun rep_set :: "rep \<Rightarrow> nat list" where
  "rep_set (RSet xs) = remdups xs"
| "rep_set _ = []"

fun rep_mem :: "rep \<Rightarrow> (nat \<times> rep) list" where
  "rep_mem (RMem xs) = xs"
| "rep_mem _ = []"

fun rep_names :: "rep \<Rightarrow> (string \<times> nat) list" where
  "rep_names (RNames xs) = xs"
| "rep_names _ = []"

fun al_entries :: "('k \<times> 'v) list \<Rightarrow> ('k \<times> 'v) list" where
  "al_entries [] = []"
| "al_entries ((k, v) # xs) = (k, v) # filter (\<lambda>(k', _). k' \<noteq> k) (al_entries xs)"

definition list_set_ops :: "rep set_ops" where
  "list_set_ops =
     \<lparr>set_new = RSet [],
      set_add = (\<lambda>s x. RSet (rep_set s @ [x])),
      set_remove = (\<lambda>s x. RSet (removeAll x (rep_set s))),
      set_has = (\<lambda>s x. x \<in> set (rep_set s)),
      set_count = (\<lambda>s. length (rep_set s)),
      set_range = rep_set\<rparr>"

definition list_member_ops :: "rep member_ops" where
  "list_member_ops =
     \<lparr>mem_new = RMem [],
      mem_add = (\<lambda>s c. RMem (rep_mem s @ [(c, RSet [])])),
      mem_remove = (\<lambda>s c. RMem (filter (\<lambda>(d, _). d \<noteq> c) (rep_mem s))),
      mem_get = (\<lambda>s c. map_of (rep_mem s) c),
      mem_put = (\<lambda>s c m. RMem (map (\<lambda>(d, n). (d, if d = c then m else n)) (rep_mem s))),
      mem_has = (\<lambda>s c. map_of (rep_mem s) c \<noteq> None),
      mem_has_mode = (\<lambda>s c r. case map_of (rep_mem s) c of None \<Rightarrow> False | Some m \<Rightarrow> r \<in> set (rep_set m)),
      mem_count = (\<lambda>s. length (al_entries (rep_mem s))),
      mem_range = (\<lambda>s. al_entries (rep_mem s))\<rparr>"

definition list_chan_map_ops :: "rep chan_map_ops" where
  "list_chan_map_ops =
     \<lparr>chan_key = id,
      cm_new = RNames [],
      cm_add = (\<lambda>s n ch. RNames (rep_names s @ [(n, ch)])),
      cm_remove = (\<lambda>s n ch. if map_of (rep_names s) n = Some ch
                            then RNames (filter (\<lambda>(m, _). m \<noteq> n) (rep_names s)) else s),
      cm_get = (\<lambda>s n. map_of (rep_names s) n),
      cm_count = (\<lambda>s. length (al_entries (rep_names s))),
      cm_range = (\<lambda>s. al_entries (rep_names s))\<rparr>"

definition list_env :: "rep go_env" where
  "list_env =
     \<lparr>u_upper = id, u_lower = id, u_letter = (\<lambda>_. False), u_number = (\<lambda>_. False),
      u_punct = (\<lambda>_. False), u_symbol = (\<lambda>_. False), nfkc = id, nfc = id,
      map_order = (\<lambda>n. [0..<n]),
      user_modes = list_set_ops, chan_modes = list_set_ops, chan_sets = list_set_ops,
      client_sets = list_set_ops, members_ops = list_member_ops, chan_map = list_chan_map_ops,
      user_modes_string = (\<lambda>s. concat (map rune_str (rep_set s))),
      counter_inc = (\<lambda>i. i + 1), counter_dec = (\<lambda>i. i - 1),
      identity_string = (\<lambda>host nick. nick @ ''@'' @ host),
      bcrypt_ok = (\<lambda>hash pw. hash = pw), irc_match = (\<lambda>mask s. mask = s),
      sha256_sum = id, rfc1123 = (\<lambda>t. format_int t),
      yaml_config = (\<lambda>s. if s = [] then Some None
        else Some (Some (zero_config\<lparr>cfg_network := ''net'', cfg_name := s, cfg_listen := ['':6667'']\<rparr>))),
      merge_config = (\<lambda>_ new. new), nil_modes_has = (\<lambda>_. Panic)\<rparr>"

lemma al_entries_in: "(k, v) \<in> set (al_entries xs) \<longleftrightarrow> map_of xs k = Some v"
  by (induction xs rule: al_entries.induct) auto

lemma al_entries_distinct: "distinct (map fst (al_entries xs))"
proof (induction xs rule: al_entries.induct)
  case (2 k v xs)
  then show ?case by (auto intro: distinct_map_filter)
qed simp

lemma map_of_filter_ne: "map_of (filter (\<lambda>(d, _). d \<noteq> c) xs) k = (if k = c then None else map_of xs k)"
  by (induction xs) auto

lemma map_of_put: "map_of (map (\<lambda>(d, n). (d, if d = c then m else n)) xs) k =
    (if k = c then map_option (\<lambda>_. m) (map_of xs k) else map_of xs k)"
  by (induction xs) auto

lemma rep_set_distinct: "distinct (rep_set s)"
  by (cases s) auto

interpretation list_set: go_set list_set_ops
  by unfold_locales (auto simp: list_set_ops_def rep_set_distinct)

interpretation list_members: go_members list_set_ops list_member_ops
  by unfold_locales
    (auto simp: list_member_ops_def list_set_ops_def map_add_def map_of_filter_ne map_of_put
      al_entries_in al_entries_distinct split: option.splits)

interpretation list_names: go_chan_map list_chan_map_ops
  by unfold_locales
    (auto simp: list_chan_map_ops_def map_add_def map_of_filter_ne al_entries_in image_iff Bex_def
      split: option.splits)

interpretation list_env: go_env_laws list_env
  by (rule go_env_laws.intro)
    (simp_all add: list_env_def list_set.go_set_axioms list_members.go_members_axioms
      list_names.go_chan_map_axioms)

lemma list_env_laws: "go_env_laws list_env"
  by (rule list_env.go_env_laws_axioms)

text \<open>The operations of the instance, for evaluation.\<close>

lemma list_env_simps [simp]:
  "set_new (chan_modes list_env) = RSet []" "set_new (user_modes list_env) = RSet []"
  "set_new (chan_sets list_env) = RSet []" "set_new (client_sets list_env) = RSet []"
  "set_add (chan_modes list_env) s x = RSet (rep_set s @ [x])"
  "set_add (user_modes list_env) s x = RSet (rep_set s @ [x])"
  "set_add (chan_sets list_env) s x = RSet (rep_set s @ [x])"
  "set_add (client_sets list_env) s x = RSet (rep_set s @ [x])"
  "set_remove (chan_modes list_env) s x = RSet (removeAll x (rep_set s))"
  "set_remove (user_modes list_env) s x = RSet (removeAll x (rep_set s))"
  "set_remove (chan_sets list_env) s x = RSet (removeAll x (rep_set s))"
  "set_remove (client_sets list_env) s x = RSet (removeAll x (rep_set s))"
  "set_has (chan_modes list_env) s x \<longleftrightarrow> x \<in> set (rep_set s)"
  "set_has (user_modes list_env) s x \<longleftrightarrow> x \<in> set (rep_set s)"
  "set_has (chan_sets list_env) s x \<longleftrightarrow> x \<in> set (rep_set s)"
  "set_has (client_sets list_env) s x \<longleftrightarrow> x \<in> set (rep_set s)"
  "set_range (chan_modes list_env) = rep_set" "set_range (user_modes list_env) = rep_set"
  "set_range (chan_sets list_env) = rep_set" "set_range (client_sets list_env) = rep_set"
  "set_count (client_sets list_env) s = length (rep_set s)"
  "set_count (chan_sets list_env) s = length (rep_set s)"
  by (simp_all add: list_env_def list_set_ops_def)

lemma list_env_map_simps [simp]:
  "mem_new (members_ops list_env) = RMem []"
  "mem_add (members_ops list_env) s c = RMem (rep_mem s @ [(c, RSet [])])"
  "mem_remove (members_ops list_env) s c = RMem (filter (\<lambda>(d, _). d \<noteq> c) (rep_mem s))"
  "mem_get (members_ops list_env) s c = map_of (rep_mem s) c"
  "mem_put (members_ops list_env) s c m = RMem (map (\<lambda>(d, n). (d, if d = c then m else n)) (rep_mem s))"
  "mem_has (members_ops list_env) s c \<longleftrightarrow> map_of (rep_mem s) c \<noteq> None"
  "mem_has_mode (members_ops list_env) s c r \<longleftrightarrow>
    (case map_of (rep_mem s) c of None \<Rightarrow> False | Some m \<Rightarrow> r \<in> set (rep_set m))"
  "mem_count (members_ops list_env) s = length (al_entries (rep_mem s))"
  "mem_range (members_ops list_env) s = al_entries (rep_mem s)"
  "chan_key (chan_map list_env) n = n" "cm_new (chan_map list_env) = RNames []"
  "cm_add (chan_map list_env) s n ch = RNames (rep_names s @ [(n, ch)])"
  "cm_remove (chan_map list_env) s n ch =
    (if map_of (rep_names s) n = Some ch then RNames (filter (\<lambda>(m, _). m \<noteq> n) (rep_names s)) else s)"
  "cm_get (chan_map list_env) s n = map_of (rep_names s) n"
  "cm_count (chan_map list_env) s = length (al_entries (rep_names s))"
  "cm_range (chan_map list_env) s = al_entries (rep_names s)"
  by (simp_all add: list_env_def list_member_ops_def list_chan_map_ops_def)

lemma list_env_text_simps [simp]:
  "nfkc list_env s = s" "nfc list_env s = s" "map_order list_env n = [0..<n]"
  "u_upper list_env r = r" "u_lower list_env r = r"
  "counter_inc list_env i = i + 1" "counter_dec list_env i = i - 1"
  "bcrypt_ok list_env h pw \<longleftrightarrow> h = pw"
  "irc_match list_env m s \<longleftrightarrow> m = s" "sha256_sum list_env s = s"
  by (simp_all add: list_env_def)

lemma list_env_range [simp]: "go_range list_env xs = xs"
  by (simp add: go_range_def map_nth)

end
