(* ===== verification/Names.thy ===== *)
theory Names
  imports Go_Env
begin

text \<open>
  src/internal/strings.go (of which types.go is a second copy) and the pure part of
  src/internal/net.go: normalised names and texts, and the tests that decide whether a name is a
  channel, a nickname or a host name. \<open>IsNickname\<close> indexes the first byte of its argument, which
  panics on the empty string; its model returns \<open>None\<close> there.
\<close>

section \<open>Names and texts\<close>

definition NewName :: "'z text_env_scheme \<Rightarrow> string \<Rightarrow> string" where
  "NewName E str = nfkc E str"

definition NewNames :: "'z text_env_scheme \<Rightarrow> string list \<Rightarrow> string list" where
  "NewNames E strs = map (NewName E) strs"

definition NewText :: "'z text_env_scheme \<Rightarrow> string \<Rightarrow> string" where
  "NewText E str = nfc E str"

text \<open>\<open>strings.ToLower\<close> and \<open>strings.ToUpper\<close>: rune by rune, the ASCII part written out.\<close>

definition rune_lower :: "'z text_env_scheme \<Rightarrow> rune \<Rightarrow> rune" where
  "rune_lower E r = (if r < 128 then ascii_lower r else u_lower E r)"

definition rune_upper :: "'z text_env_scheme \<Rightarrow> rune \<Rightarrow> rune" where
  "rune_upper E r = (if r < 128 then ascii_upper r else u_upper E r)"

definition to_lower :: "'z text_env_scheme \<Rightarrow> string \<Rightarrow> string" where
  "to_lower E s = concat (map (\<lambda>r. rune_str (rune_lower E r)) (runes s))"

definition to_upper :: "'z text_env_scheme \<Rightarrow> string \<Rightarrow> string" where
  "to_upper E s = concat (map (\<lambda>r. rune_str (rune_upper E r)) (runes s))"

text \<open>The Unicode classes of the regular expressions.\<close>

definition is_letter :: "'z text_env_scheme \<Rightarrow> rune \<Rightarrow> bool" where
  "is_letter E r = (if r < 128 then (65 \<le> r \<and> r \<le> 90) \<or> (97 \<le> r \<and> r \<le> 122) else u_letter E r)"

definition is_number :: "'z text_env_scheme \<Rightarrow> rune \<Rightarrow> bool" where
  "is_number E r = (if r < 128 then 48 \<le> r \<and> r \<le> 57 else u_number E r)"

definition is_punct :: "'z text_env_scheme \<Rightarrow> rune \<Rightarrow> bool" where
  "is_punct E r =
     (if r < 128
      then r \<in> {33, 34, 35, 37, 38, 39, 40, 41, 42, 44, 45, 46, 47, 58, 59, 63, 64, 91, 92, 93,
                95, 123, 125}
      else u_punct E r)"

definition is_symbol :: "'z text_env_scheme \<Rightarrow> rune \<Rightarrow> bool" where
  "is_symbol E r = (if r < 128 then r \<in> {36, 43, 60, 61, 62, 94, 96, 124, 126} else u_symbol E r)"

text \<open>\<open>ChannelNameExpr\<close>: \<open>^[&!#+][\pL\pN]{1,63}$\<close>.\<close>

definition IsChannel :: "'z text_env_scheme \<Rightarrow> string \<Rightarrow> bool" where
  "IsChannel E name =
     (case runes name of
        [] \<Rightarrow> False
      | p # rs \<Rightarrow> p \<in> {38, 33, 35, 43} \<and> 1 \<le> length rs \<and> length rs \<le> 63 \<and>
                  list_all (\<lambda>r. is_letter E r \<or> is_number E r) rs)"

text \<open>\<open>NicknameExpr\<close>: \<open>^[\pL\pN\pP\pS]{1,32}$\<close>.\<close>

definition nickname_expr :: "'z text_env_scheme \<Rightarrow> string \<Rightarrow> bool" where
  "nickname_expr E s =
     (let rs = runes s in 1 \<le> length rs \<and> length rs \<le> 32 \<and>
        list_all (\<lambda>r. is_letter E r \<or> is_number E r \<or> is_punct E r \<or> is_symbol E r) rs)"

definition allowedHostnameChars :: string where
  "allowedHostnameChars = ''abcdefghijklmnopqrstuvwxyz1234567890-.''"

definition hostname_part_ok :: "string \<Rightarrow> bool" where
  "hostname_part_ok part \<longleftrightarrow>
     \<not> (length part < 1 \<or> length part > 63 \<or> prefix ''-'' part \<or> suffix ''-'' part)"

definition IsHostname :: "'z text_env_scheme \<Rightarrow> string \<Rightarrow> bool" where
  "IsHostname E name =
     (if \<not> Contains name ''.'' \<or> length name < 1 \<or> length name > 253 then False
      else if \<not> list_all hostname_part_ok (split_on (CHR ''.'') name) then False
      else list_all (\<lambda>r. Contains allowedHostnameChars (rune_str r)) (runes (to_lower E name)))"

definition nick_first_forbidden :: string where
  "nick_first_forbidden = ''#~&@%+-1234567890''"

definition IsNickname :: "'z text_env_scheme \<Rightarrow> string \<Rightarrow> bool option" where
  "IsNickname E namestr =
     (if Contains namestr ''*'' \<or> Contains namestr ''?'' \<or> Contains namestr ''.'' \<or>
         Contains namestr '','' \<or> Contains namestr ''!'' \<or> Contains namestr ''@''
      then Some False
      else case namestr of
        [] \<Rightarrow> None
      | c # _ \<Rightarrow>
          if Contains nick_first_forbidden (rune_str (of_char c)) then Some False
          else if IsHostname E namestr then Some False
          else Some (nickname_expr E namestr))"

text \<open>\<open>ctcpEscaper\<close>: in Go the literal \<open>"\x200"\<close> is a space followed by the digit 0.\<close>

definition ctcp_escape_char :: "char \<Rightarrow> string" where
  "ctcp_escape_char c =
     (if c = CHR 0x00 then '' 0'' else if c = CHR 0x0A then '' n''
      else if c = CHR 0x0D then '' r'' else [c])"

definition NewCTCPText :: "string \<Rightarrow> string" where
  "NewCTCPText str = concat (map ctcp_escape_char str)"

section \<open>What decoding keeps of ASCII bytes\<close>

lemma mod_16_lead: "224 \<le> b \<Longrightarrow> b \<le> 239 \<Longrightarrow> b mod 16 = b - (224::nat)"
  using mod_lead [of 14 16 b] by simp

lemma mod_8_lead: "240 \<le> b \<Longrightarrow> b \<le> 244 \<Longrightarrow> b mod 8 = b - (240::nat)"
  using mod_lead [of 30 8 b] by simp

lemma mod_32_lead: "194 \<le> b \<Longrightarrow> b \<le> 223 \<Longrightarrow> b mod 32 = b - (192::nat)"
  using mod_lead [of 6 32 b] by simp

lemma mod_64_cont: "128 \<le> b \<Longrightarrow> b \<le> 191 \<Longrightarrow> b mod 64 = b - (128::nat)"
  using mod_lead [of 2 64 b] by simp

lemma second_ok_range: "second_ok b x \<Longrightarrow> 128 \<le> x \<and> x \<le> 191"
  by (auto simp: second_ok_def split: if_splits)

lemma two_bytes_high: "194 \<le> b \<Longrightarrow> b \<le> 223 \<Longrightarrow> 128 \<le> two_bytes b x"
  by (simp add: two_bytes_def mod_32_lead)

lemma three_bytes_high:
  assumes "second_ok b x" "224 \<le> b" "b \<le> 239"
  shows "128 \<le> three_bytes b x y"
proof (cases "b = 224")
  case True
  with assms(1) have "160 \<le> x" by (simp add: second_ok_def)
  with second_ok_range [OF assms(1)] have "32 \<le> x mod 64" by (simp add: mod_64_cont)
  then show ?thesis by (simp add: three_bytes_def)
next
  case False
  with assms have "1 \<le> b mod 16" by (simp add: mod_16_lead)
  then show ?thesis by (simp add: three_bytes_def)
qed

lemma four_bytes_high:
  assumes "second_ok b x" "240 \<le> b" "b \<le> 244"
  shows "128 \<le> four_bytes b x y z"
proof (cases "b = 240")
  case True
  with assms(1) have "144 \<le> x" by (simp add: second_ok_def)
  with second_ok_range [OF assms(1)] have "16 \<le> x mod 64" by (simp add: mod_64_cont)
  then show ?thesis by (simp add: four_bytes_def)
next
  case False
  with assms have "1 \<le> b mod 8" by (simp add: mod_8_lead)
  then show ?thesis by (simp add: four_bytes_def)
qed

text \<open>The ways a sequence decodes, with the shape of the bytes it takes.\<close>

lemma decode_head_cases:
  assumes "decode_head b bs = Some (r, n)"
  obtains (one) "b < 128" "r = b" "n = 0"
  | (two) x xs where "bs = x # xs" "n = 1" "is_cont x" "128 \<le> b" "128 \<le> r"
  | (three) x y xs where "bs = x # y # xs" "n = 2" "second_ok b x" "is_cont y" "128 \<le> b" "128 \<le> r"
  | (four) x y z xs where "bs = x # y # z # xs" "n = 3" "second_ok b x" "is_cont y" "is_cont z"
      "128 \<le> b" "128 \<le> r"
proof -
  have "(b < 128 \<and> r = b \<and> n = 0) \<or>
    (\<exists>x xs. bs = x # xs \<and> n = 1 \<and> is_cont x \<and> 194 \<le> b \<and> b \<le> 223 \<and> r = two_bytes b x) \<or>
    (\<exists>x y xs. bs = x # y # xs \<and> n = 2 \<and> second_ok b x \<and> is_cont y \<and> 224 \<le> b \<and> b \<le> 239 \<and>
       r = three_bytes b x y) \<or>
    (\<exists>x y z xs. bs = x # y # z # xs \<and> n = 3 \<and> second_ok b x \<and> is_cont y \<and> is_cont z \<and>
       240 \<le> b \<and> b \<le> 244 \<and> r = four_bytes b x y z)"
    using assms unfolding decode_head_def by (auto split: list.splits if_splits)
  then show thesis
    using one two three four two_bytes_high three_bytes_high four_bytes_high by fastforce
qed

lemma decode_head_tail:
  assumes "decode_head b bs = Some (r, n)"
  shows "\<forall>x \<in> set (take n bs). 128 \<le> x" "r < 128 \<Longrightarrow> r = b \<and> n = 0"
    "b < 128 \<Longrightarrow> r = b \<and> n = 0"
  using assms by (auto elim!: decode_head_cases dest: second_ok_range simp: is_cont_def)

lemma ascii_byte_decoded: "b \<in> set bs \<Longrightarrow> b < 128 \<Longrightarrow> b \<in> set (decode_bytes bs)"
proof (induction bs rule: decode_bytes.induct)
  case (2 c bs)
  show ?case
  proof (cases "decode_head c bs")
    case None
    with 2 have "b \<noteq> c" by (auto simp: decode_head_def)
    with 2 None show ?thesis by auto
  next
    case (Some p)
    obtain r n where p: "p = (r, n)" by force
    note t = decode_head_tail [OF Some [unfolded p]]
    show ?thesis
    proof (cases "b = c")
      case True
      with t(3) 2 Some p show ?thesis by auto
    next
      case False
      with 2 have "b \<in> set (take n bs) \<union> set (drop n bs)"
        by (metis append_take_drop_id set_ConsD set_append)
      with t(1) 2 have "b \<in> set (drop n bs)" by force
      with 2 Some p show ?thesis by auto
    qed
  qed
qed simp

lemma ascii_char_in_runes: "c \<in> set s \<Longrightarrow> of_char c < (128::nat) \<Longrightarrow> of_char c \<in> set (runes s)"
  unfolding runes_def by (rule ascii_byte_decoded) auto

lemma runes_eq_Nil [simp]: "runes s = [] \<longleftrightarrow> s = []"
  unfolding runes_def by (cases s) (auto split: option.splits)

text \<open>The first rune is ASCII exactly when the first byte is, and then they agree.\<close>

lemma runes_hd_ascii:
  assumes "runes (c # s) = r # rs" "r < 128"
  shows "of_char c = r"
proof (cases "decode_head (of_char c) (map of_char s)")
  case None
  with assms show ?thesis by (simp add: runes_def RuneError_def)
next
  case (Some p)
  obtain r' n where "p = (r', n)" by force
  with Some assms decode_head_tail(2) [of "of_char c" "map of_char s" r n] show ?thesis
    by (simp add: runes_def)
qed

section \<open>What the tests guarantee\<close>

lemma nickname_expr_char:
  assumes "nickname_expr E s" "c \<in> set s" "of_char c < (128::nat)"
  shows "33 \<le> (of_char c :: nat) \<and> of_char c \<le> (126::nat)"
proof -
  have "of_char c \<in> set (runes s)" using assms(2,3) by (rule ascii_char_in_runes)
  with assms(1) have "is_letter E (of_char c) \<or> is_number E (of_char c) \<or> is_punct E (of_char c) \<or>
      is_symbol E (of_char c)"
    by (auto simp: nickname_expr_def Let_def list_all_iff)
  with assms(3) show ?thesis
    by (auto simp: is_letter_def is_number_def is_punct_def is_symbol_def)
qed

lemma IsNickname_True:
  assumes "IsNickname E n = Some True"
  shows "set n \<inter> set ''*?.,!@'' = {}" "n \<noteq> []" "nickname_expr E n"
    "\<not> Contains nick_first_forbidden (rune_str (of_char (hd n)))"
  using assms by (auto simp: IsNickname_def go_simps split: if_splits list.splits)

text \<open>
  The bytes that can be in a nick: none of those that mean something inside a mask, a list or a source
  (the wildcards, the comma, \<open>!\<close> and \<open>@\<close>), no full stop, no space and no control byte. The colon is not
  excluded.
\<close>

definition nick_char_ok :: "char \<Rightarrow> bool" where
  "nick_char_ok c \<longleftrightarrow>
     c \<notin> set ''*?.,!@'' \<and> ((of_char c :: nat) < 128 \<longrightarrow> 33 \<le> (of_char c :: nat) \<and> (of_char c :: nat) \<le> 126)"

text \<open>A nick may even start with a colon, so that no command can name its owner.\<close>

lemma colon_nickname: "IsNickname list_env '':bob'' = Some True"
  by (simp add: IsNickname_def go_simps encode_ascii nick_first_forbidden_def IsHostname_def
      nickname_expr_def runes_ascii is_ascii_def is_letter_def is_number_def is_punct_def)

text \<open>C40: a name accepted as a nickname has none of the wildcards \<open>*\<close> and \<open>?\<close>, no full stop, comma, \<open>!\<close> or
  \<open>@\<close>, no space and no ASCII control byte; it does not start with a channel prefix, a membership
  prefix, a dash or a digit; and it has between 1 and 32 runes. It may have colons.\<close>

theorem nickname_safe:
  assumes "IsNickname E n = Some True"
  shows "list_all nick_char_ok n \<and> hd n \<notin> set nick_first_forbidden \<and>
    1 \<le> length (runes n) \<and> length (runes n) \<le> 32"
proof (intro conjI)
  note N = IsNickname_True [OF assms]
  show "list_all nick_char_ok n"
    using N(1) nickname_expr_char [OF N(3)] by (auto simp: list_all_iff nick_char_ok_def)
  show "hd n \<notin> set nick_first_forbidden"
  proof
    assume hd: "hd n \<in> set nick_first_forbidden"
    then have "(of_char (hd n) :: nat) < 128" by (auto simp: nick_first_forbidden_def)
    then have "rune_str (of_char (hd n)) = [hd n]" by (simp add: encode_ascii)
    with hd N(4) show False by (simp add: Contains_char)
  qed
  show "1 \<le> length (runes n)" "length (runes n) \<le> 32"
    using N(3) by (simp_all add: nickname_expr_def Let_def)
qed

theorem nickname_safe_witness:
  "list_all nick_char_ok ''bob[x]'' \<and> hd ''bob[x]'' \<notin> set nick_first_forbidden \<and>
    1 \<le> length (runes ''bob[x]'') \<and> length (runes ''bob[x]'') \<le> 32"
proof (rule nickname_safe [of list_env])
  show "IsNickname list_env ''bob[x]'' = Some True"
    by (simp add: IsNickname_def go_simps encode_ascii nick_first_forbidden_def IsHostname_def
        nickname_expr_def runes_ascii is_ascii_def is_letter_def is_number_def is_punct_def)
qed

text \<open>No name is both a channel and a nickname, so a PRIVMSG or a NOTICE has one kind of target.\<close>

theorem channel_not_nickname:
  assumes "IsChannel E n"
  shows "IsNickname E n = Some False"
proof -
  from assms obtain p rs where r: "runes n = p # rs" and p: "p \<in> {38, 33, 35, 43}"
    by (auto simp: IsChannel_def split: list.splits)
  then obtain c cs where n: "n = c # cs" by (cases n) (simp_all add: runes_def)
  from p have "p < 128" by auto
  with r n have "of_char c = p" using runes_hd_ascii by blast
  with p have "(of_char c :: nat) = of_char (CHR ''&'') \<or> (of_char c :: nat) = of_char (CHR ''!'') \<or>
      (of_char c :: nat) = of_char (CHR ''#'') \<or> (of_char c :: nat) = of_char (CHR ''+'')"
    by auto
  then have "c = CHR ''&'' \<or> c = CHR ''!'' \<or> c = CHR ''#'' \<or> c = CHR ''+''"
    by (simp only: of_char_eq_iff)
  then show ?thesis
    unfolding n IsNickname_def
    by (elim disjE) (simp_all add: go_simps encode_ascii nick_first_forbidden_def)
qed

theorem channel_not_nickname_witness: "IsNickname list_env ''#irc'' = Some False"
proof (rule channel_not_nickname)
  show "IsChannel list_env ''#irc''"
    by (simp add: IsChannel_def runes_ascii is_ascii_def is_letter_def)
qed

text \<open>The nickname test panics on the empty name, and on no other.\<close>

theorem nickname_panics_iff_empty: "IsNickname E n = None \<longleftrightarrow> n = []"
  by (auto simp: IsNickname_def split: list.splits)

text \<open>The CTCP quoting is not injective (its quote character is a space), so a receiver cannot
  undo it: a quoted line feed and the text \<open> n\<close> are the same.\<close>

theorem ctcp_quote_ambiguous: "NewCTCPText [CHR 0x0A] = NewCTCPText '' n''"
  by (simp add: NewCTCPText_def ctcp_escape_char_def)

text \<open>Some of the host names of net_test.go.\<close>

lemmas hostname_eval = IsHostname_def go_simps hostname_part_ok_def to_lower_def runes_ascii is_ascii_def
  rune_lower_def ascii_lower_def encode_ascii allowedHostnameChars_def suffix_def list_all_iff

lemma hostname_good: "IsHostname E ''irc.example.com''" "IsHostname E ''iRC.CooLguY.NeT''"
  by (simp_all add: hostname_eval)

lemma hostname_bad: "\<not> IsHostname E ''-lol.net.uk''" "\<not> IsHostname E ''irc''" "\<not> IsHostname E []"
  by (simp_all add: hostname_eval)

end
