(* ===== verification/Modes.thy ===== *)
theory Modes
  imports Names
begin

text \<open>
  The mode letters of src/internal/modes.go, and the changes of modes a MODE command carries:
  their parsers and printers in src/internal/command.go. A mode is a rune. \<open>ModeOp\<close> only ever
  holds its three constants (the parsers compare a byte with them first), so it is a datatype.
\<close>

section \<open>Mode letters\<close>

datatype ModeOp = AddOp | ListOp | RemoveOp

primrec op_string :: "ModeOp \<Rightarrow> string" where
  "op_string AddOp = ''+''"
| "op_string ListOp = ''=''"
| "op_string RemoveOp = ''-''"

definition Away :: rune where "Away = of_char (CHR ''a'')"

definition Invisible :: rune where "Invisible = of_char (CHR ''i'')"

definition Operator :: rune where "Operator = of_char (CHR ''o'')"

definition WallOps :: rune where "WallOps = of_char (CHR ''w'')"

definition Registered :: rune where "Registered = of_char (CHR ''r'')"

definition SecureConn :: rune where "SecureConn = of_char (CHR ''z'')"

definition SecureOnly :: rune where "SecureOnly = of_char (CHR ''Z'')"

definition HostMask :: rune where "HostMask = of_char (CHR ''x'')"

definition BanMask :: rune where "BanMask = of_char (CHR ''b'')"

definition ChannelCreator :: rune where "ChannelCreator = of_char (CHR ''O'')"

definition ChannelOperator :: rune where "ChannelOperator = of_char (CHR ''o'')"

definition ExceptMask :: rune where "ExceptMask = of_char (CHR ''e'')"

definition InviteMask :: rune where "InviteMask = of_char (CHR ''I'')"

definition InviteOnly :: rune where "InviteOnly = of_char (CHR ''i'')"

definition Key :: rune where "Key = of_char (CHR ''k'')"

definition Moderated :: rune where "Moderated = of_char (CHR ''m'')"

definition NoOutside :: rune where "NoOutside = of_char (CHR ''n'')"

definition OpOnlyTopic :: rune where "OpOnlyTopic = of_char (CHR ''t'')"

definition Private :: rune where "Private = of_char (CHR ''p'')"

definition Secret :: rune where "Secret = of_char (CHR ''s'')"

definition UserLimit :: rune where "UserLimit = of_char (CHR ''l'')"

definition Voice :: rune where "Voice = of_char (CHR ''v'')"

definition SecureChan :: rune where "SecureChan = of_char (CHR ''Z'')"

lemmas user_mode_defs = Away_def Invisible_def Operator_def WallOps_def Registered_def SecureConn_def
  SecureOnly_def HostMask_def

lemmas chan_mode_defs = BanMask_def ChannelCreator_def ChannelOperator_def ExceptMask_def
  InviteMask_def InviteOnly_def Key_def Moderated_def NoOutside_def OpOnlyTopic_def Private_def
  Secret_def UserLimit_def Voice_def SecureChan_def

definition modes_string :: "rune list \<Rightarrow> string" where
  "modes_string modes = concat (map rune_str modes)"

definition SupportedUserModes :: "rune list" where
  "SupportedUserModes = [Invisible, Operator, HostMask]"

definition SupportedChannelModes :: "rune list" where
  "SupportedChannelModes =
     [BanMask, ExceptMask, InviteMask, InviteOnly, Key, NoOutside, OpOnlyTopic, Private, UserLimit,
      Secret, SecureChan]"

definition DefaultChannelModes :: "rune list" where
  "DefaultChannelModes = [NoOutside, OpOnlyTopic]"

section \<open>Changes of modes and their printers\<close>

record ModeChange =
  mc_mode :: rune
  mc_op :: ModeOp

record ChannelModeChange =
  cmc_mode :: rune
  cmc_op :: ModeOp
  cmc_arg :: string

text \<open>\<open>ModeChanges.String\<close>: the loop carries the current operation and the text so far.\<close>

fun mode_changes_loop :: "ModeOp \<Rightarrow> string \<Rightarrow> ModeChange list \<Rightarrow> string" where
  "mode_changes_loop op str [] = str"
| "mode_changes_loop op str (ch # chs) =
     (if mc_op ch = op then mode_changes_loop op (str @ rune_str (mc_mode ch)) chs
      else mode_changes_loop (mc_op ch) (str @ '' '' @ op_string (mc_op ch)) chs)"

definition mode_changes_string :: "ModeChange list \<Rightarrow> string" where
  "mode_changes_string chs =
     (case chs of [] \<Rightarrow> [] | ch # _ \<Rightarrow> mode_changes_loop (mc_op ch) (op_string (mc_op ch)) chs)"

definition chan_mode_changes_string :: "ChannelModeChange list \<Rightarrow> string" where
  "chan_mode_changes_string chs =
     (case chs of
        [] \<Rightarrow> []
      | ch # _ \<Rightarrow>
          (if cmc_op ch = RemoveOp then ''-'' else ''+'') @
          concat (map (\<lambda>c. rune_str (cmc_mode c)) chs) @
          concat (map (\<lambda>c. if cmc_arg c = '''' then '''' else '' '' @ cmc_arg c) chs))"

section \<open>Parsers\<close>

datatype parse_error = NotEnoughArgsError | ErrParseCommand

text \<open>The loop of \<open>ParseUserModeCommand\<close>.\<close>

fun user_mode_changes :: "string list \<Rightarrow> parse_error + ModeChange list" where
  "user_mode_changes [] = Inr []"
| "user_mode_changes ([] # args) = user_mode_changes args"
| "user_mode_changes ((c # modes) # args) =
     (if c \<noteq> CHR ''+'' \<and> c \<noteq> CHR ''-'' then Inl ErrParseCommand
      else case user_mode_changes args of
        Inl e \<Rightarrow> Inl e
      | Inr chs \<Rightarrow>
          Inr (map (\<lambda>r. \<lparr>mc_mode = r, mc_op = (if c = CHR ''+'' then AddOp else RemoveOp)\<rparr>) (runes modes)
               @ chs))"

definition takes_arg :: "rune \<Rightarrow> bool" where
  "takes_arg m \<longleftrightarrow>
     m \<in> {Key, BanMask, ExceptMask, InviteMask, UserLimit, ChannelOperator, ChannelCreator, Voice}"

text \<open>
  The inner loop of \<open>ParseChannelModeCommand\<close>: \<open>skip\<close> is \<open>skipArgs\<close>, the index of the next
  argument of \<open>args\<close> a mode may take.
\<close>

fun chan_mode_letters ::
  "string list \<Rightarrow> ModeOp \<Rightarrow> nat \<Rightarrow> rune list \<Rightarrow> ChannelModeChange list \<times> nat" where
  "chan_mode_letters args op skip [] = ([], skip)"
| "chan_mode_letters args op skip (m # ms) =
     (if takes_arg m \<and> skip < length args
      then case chan_mode_letters args op (skip + 1) ms of (chs, skip') \<Rightarrow>
             (\<lparr>cmc_mode = m, cmc_op = op, cmc_arg = args ! skip\<rparr> # chs, skip')
      else case chan_mode_letters args op skip ms of (chs, skip') \<Rightarrow>
             (\<lparr>cmc_mode = m, cmc_op = op, cmc_arg = ''''\<rparr> # chs, skip'))"

lemma chan_mode_letters_skip: "skip \<le> snd (chan_mode_letters args op skip ms)"
  by (induction args op skip ms rule: chan_mode_letters.induct) (auto split: prod.splits)

text \<open>No argument is read, and no slice taken, beyond the end of the arguments.\<close>

lemma chan_mode_letters_bound:
  "skip \<le> length args \<Longrightarrow> snd (chan_mode_letters args op skip ms) \<le> length args"
  by (induction args op skip ms rule: chan_mode_letters.induct) (auto split: prod.splits)
text \<open>The operation a mode argument starts with, and the letters after it.\<close>

definition chan_mode_op :: "string \<Rightarrow> ModeOp \<times> string" where
  "chan_mode_op modeArg =
     (case modeArg of
        [] \<Rightarrow> (ListOp, [])
      | c # rest \<Rightarrow> if c = CHR ''+'' then (AddOp, rest) else if c = CHR ''-'' then (RemoveOp, rest)
                    else (ListOp, modeArg))"

function chan_mode_changes :: "string list \<Rightarrow> ChannelModeChange list" where
  "chan_mode_changes [] = []"
| "chan_mode_changes (a # rest) =
     (if a = [] then chan_mode_changes rest
      else let (op, letters) = chan_mode_op a;
               (chs, skip) = chan_mode_letters (a # rest) op 1 (runes letters)
           in chs @ chan_mode_changes (drop skip (a # rest)))"
  by pat_completeness auto

termination
proof (relation "measure length")
  fix a :: string and rest x op letters y chs skip
  assume "y = chan_mode_letters (a # rest) op 1 (runes letters)" "(chs, skip) = y"
  then have "1 \<le> skip" using chan_mode_letters_skip by (metis snd_conv)
  then show "(drop skip (a # rest), a # rest) \<in> measure length" by simp
qed auto

section \<open>What the server announces and what was applied\<close>

text \<open>A change that carries an argument exactly when its mode takes one.\<close>

definition change_ok :: "ModeOp \<Rightarrow> ChannelModeChange \<Rightarrow> bool" where
  "change_ok op ch \<longleftrightarrow>
     cmc_op ch = op \<and> is_scalar (cmc_mode ch) \<and> cmc_mode ch \<noteq> of_char (CHR '' '') \<and>
     (cmc_arg ch \<noteq> [] \<longleftrightarrow> takes_arg (cmc_mode ch)) \<and> CHR '' '' \<notin> set (cmc_arg ch)"

lemma runes_concat_rune_str:
  "list_all is_scalar ms \<Longrightarrow> runes (concat (map rune_str ms) @ s) = ms @ runes s"
  by (induction ms) (auto simp: runes_rune_str)

lemma space_notin_rune_str:
  assumes "is_scalar r" "r \<noteq> of_char (CHR '' '')"
  shows "CHR '' '' \<notin> set (rune_str r)"
proof
  assume "CHR '' '' \<in> set (rune_str r)"
  moreover have "(of_char (CHR '' '') :: nat) < 128" by simp
  ultimately have "of_char (CHR '' '') \<in> set (runes (rune_str r))" by (rule ascii_char_in_runes)
  with assms show False using runes_rune_str [of r "[]"] by (simp add: runes_def)
qed

text \<open>The arguments of a list of changes, in order.\<close>

definition change_args :: "ChannelModeChange list \<Rightarrow> string list" where
  "change_args chs = filter (\<lambda>a. a \<noteq> []) (map cmc_arg chs)"

lemma chan_mode_letters_args:
  assumes "list_all (change_ok op) chs"
    and "drop skip args = change_args chs @ rest" "skip \<le> length args"
  shows "chan_mode_letters args op skip (map cmc_mode chs) = (chs, skip + length (change_args chs))"
  using assms
proof (induction chs arbitrary: skip)
  case Nil
  then show ?case by (simp add: change_args_def)
next
  case (Cons ch chs)
  then have ok: "change_ok op ch" by simp
  show ?case
  proof (cases "takes_arg (cmc_mode ch)")
    case True
    with ok have arg: "change_args (ch # chs) = cmc_arg ch # change_args chs"
      by (simp add: change_args_def change_ok_def)
    with Cons.prems have d: "drop skip args = cmc_arg ch # change_args chs @ rest" by simp
    then have lt: "skip < length args" and nth: "args ! skip = cmc_arg ch"
      by (metis drop_eq_Nil linorder_not_less list.distinct(1),
          metis hd_drop_conv_nth drop_eq_Nil linorder_not_less list.distinct(1) list.sel(1))
    have "drop (skip + 1) args = change_args chs @ rest"
      using d by (metis Suc_eq_plus1 drop_Suc list.sel(3) tl_drop)
    with Cons lt have "chan_mode_letters args op (skip + 1) (map cmc_mode chs) =
        (chs, skip + 1 + length (change_args chs))" by auto
    with True lt nth ok arg show ?thesis by (simp add: change_ok_def)
  next
    case False
    with ok have arg: "change_args (ch # chs) = change_args chs" "cmc_arg ch = []"
      by (simp_all add: change_args_def change_ok_def)
    with Cons False ok show ?thesis by (auto simp: change_ok_def)
  qed
qed

lemma change_args_text:
  "concat (map (\<lambda>c. if cmc_arg c = '''' then '''' else '' '' @ cmc_arg c) chs) =
   concat (map (\<lambda>a. '' '' @ a) (change_args chs))"
  by (induction chs) (auto simp: change_args_def)

lemma split_on_args:
  "CHR '' '' \<notin> set h \<Longrightarrow> \<forall>a \<in> set as. CHR '' '' \<notin> set a \<Longrightarrow>
   split_on (CHR '' '') (h @ concat (map (\<lambda>a. '' '' @ a) as)) = h # as"
proof (induction as arbitrary: h)
  case Nil
  then show ?case by (simp add: split_on_id)
next
  case (Cons a as)
  then show ?case by (simp add: split_on_append)
qed

text \<open>What the server prints for a list of channel mode changes of one direction is parsed back,
  word by word, to the same list.\<close>

theorem chan_mode_roundtrip:
  assumes "chs \<noteq> []" "op \<noteq> ListOp" "list_all (change_ok op) chs"
  shows "chan_mode_changes (split_on (CHR '' '') (chan_mode_changes_string chs)) = chs"
proof -
  define sign where "sign = (if op = RemoveOp then CHR ''-'' else CHR ''+'')"
  define letters where "letters = concat (map rune_str (map cmc_mode chs))"
  have scalars: "list_all is_scalar (map cmc_mode chs)"
    using assms(3) by (auto simp: list_all_iff change_ok_def)
  have rl: "runes letters = map cmc_mode chs"
    using runes_concat_rune_str [OF scalars, of "[]"] by (simp add: letters_def runes_def)
  have nosp: "CHR '' '' \<notin> set (sign # letters)" "\<forall>a \<in> set (change_args chs). CHR '' '' \<notin> set a"
    using assms(3) space_notin_rune_str
    by (auto simp: sign_def letters_def list_all_iff change_ok_def change_args_def)
  have hd: "cmc_op (hd chs) = op" using assms(1,3) by (cases chs) (auto simp: change_ok_def)
  have "chan_mode_changes_string chs = (sign # letters) @
      concat (map (\<lambda>c. if cmc_arg c = '''' then '''' else '' '' @ cmc_arg c) chs)"
    using assms(1) hd
    by (cases chs) (auto simp: chan_mode_changes_string_def sign_def letters_def comp_def)
  then have printed: "chan_mode_changes_string chs =
      (sign # letters) @ concat (map (\<lambda>a. '' '' @ a) (change_args chs))"
    by (simp only: change_args_text)
  have op: "chan_mode_op (sign # letters) = (op, letters)"
    using assms(2) by (cases op) (auto simp: chan_mode_op_def sign_def)
  have "chan_mode_letters ((sign # letters) # change_args chs) op 1 (map cmc_mode chs) =
      (chs, 1 + length (change_args chs))"
    by (rule chan_mode_letters_args [OF assms(3), of _ _ "[]"]) auto
  then show ?thesis
    unfolding printed split_on_args [OF nosp] by (simp add: op rl)
qed

theorem chan_mode_roundtrip_witness:
  "chan_mode_changes (split_on (CHR '' '') (chan_mode_changes_string
     [\<lparr>cmc_mode = ChannelOperator, cmc_op = AddOp, cmc_arg = ''bob''\<rparr>,
      \<lparr>cmc_mode = InviteOnly, cmc_op = AddOp, cmc_arg = ''''\<rparr>])) =
   [\<lparr>cmc_mode = ChannelOperator, cmc_op = AddOp, cmc_arg = ''bob''\<rparr>,
      \<lparr>cmc_mode = InviteOnly, cmc_op = AddOp, cmc_arg = ''''\<rparr>]"
  by (rule chan_mode_roundtrip [of _ AddOp])
    (simp_all add: change_ok_def takes_arg_def chan_mode_defs is_scalar_def)

text \<open>For changes of both directions the announcement is wrong: \<open>+o a\<close> and \<open>-v b\<close> are printed
  as \<open>+ov a b\<close>, which grants the voice the server has just taken.\<close>

theorem mixed_changes_misprinted:
  "chan_mode_changes_string
     [\<lparr>cmc_mode = ChannelOperator, cmc_op = AddOp, cmc_arg = ''a''\<rparr>,
      \<lparr>cmc_mode = Voice, cmc_op = RemoveOp, cmc_arg = ''b''\<rparr>] = ''+ov a b''"
  by (simp add: chan_mode_changes_string_def chan_mode_defs encode_ascii go_simps)

text \<open>The printer of user mode changes drops the letter of every change that turns the direction:
  \<open>+i\<close> then \<open>-w\<close> is printed as \<open>+i -\<close>.\<close>

theorem user_mode_letter_dropped:
  assumes "op1 \<noteq> op2"
  shows "mode_changes_string [\<lparr>mc_mode = m1, mc_op = op1\<rparr>, \<lparr>mc_mode = m2, mc_op = op2\<rparr>] =
    op_string op1 @ rune_str m1 @ '' '' @ op_string op2"
  using assms by (simp add: mode_changes_string_def)

theorem user_mode_letter_dropped_witness:
  "mode_changes_string [\<lparr>mc_mode = Invisible, mc_op = AddOp\<rparr>, \<lparr>mc_mode = WallOps, mc_op = RemoveOp\<rparr>] = ''+i -''"
  by (simp add: user_mode_letter_dropped user_mode_defs encode_ascii go_simps)

end
