(* ===== verification/Command.thy ===== *)
theory Command
  imports Modes "HOL-Library.Word" "HOL-Library.AList"
begin

unbundle bit_operations_syntax

text \<open>
  src/internal/command.go: a line is cut into a command code and its arguments (\<open>ParseLine\<close>), and
  one parser per command turns the arguments into a value of the datatype \<open>Command\<close>, one
  constructor per command type of the source. A Go map that a parser builds is an association
  list with distinct keys; \<open>AList.update\<close> is the assignment to an entry.
\<close>

section \<open>Command values\<close>

text \<open>
  \<open>PassCommand\<close> and \<open>OperCommand\<close> carry \<open>hash\<close> (None is nil), \<open>password\<close> and whether \<open>err\<close> is not
  nil; \<open>OperCommand\<close> embeds \<open>PassCommand\<close> and adds the name. The two USER forms embed
  \<open>UserCommand\<close>.
\<close>

datatype Command =
    UnknownCommand "string list"
  | PingCommand string string
  | PongCommand string string
  | AuthenticateCommand string
  | PassCommand "string option" string bool
  | NickCommand string
  | RFC1459UserCommand string string string string
  | RFC2812UserCommand string string "8 word" string
  | QuitCommand string
  | JoinCommand "(string \<times> string) list" bool
  | PartCommand "string list" string
  | PrivMsgCommand string string
  | TopicCommand string bool string
  | ModeCommand string "ModeChange list"
  | ChannelModeCommand string "ChannelModeChange list"
  | WhoisCommand string "string list"
  | WhoCommand string bool
  | OperCommand string "string option" string bool
  | RehashCommand
  | CapCommand string "string list"
  | AwayCommand string
  | IsOnCommand "string list"
  | MOTDCommand string
  | NoticeCommand string string
  | KickCommand "(string \<times> string) list" string
  | ListCommand "string list" string
  | NamesCommand "string list" string
  | VersionCommand string
  | InviteCommand string string
  | TimeCommand string
  | LUsersCommand
  | KillCommand string string
  | WallopsCommand string
  | WhoWasCommand "string list" int string
  | OperNickCommand string string

type_synonym parsed = "parse_error + Command"

section \<open>Lines\<close>

definition splitArg :: "string \<Rightarrow> string \<times> string" where
  "splitArg line =
     (takeWhile (Not \<circ> is_space) line,
      dropWhile is_space (dropWhile (Not \<circ> is_space) line))"

lemma splitArg_shorter: "line \<noteq> [] \<Longrightarrow> length (snd (splitArg line)) < length line"
proof (cases "\<exists>c \<in> set line. is_space c")
  case True
  then show ?thesis by (simp add: splitArg_def after_space_shorter)
next
  case False
  then have none: "dropWhile (Not \<circ> is_space) line = []" by simp
  show "line \<noteq> [] \<Longrightarrow> ?thesis" unfolding splitArg_def snd_conv none by simp
qed

function parse_args :: "string \<Rightarrow> string list" where
  "parse_args line =
     (case line of
        [] \<Rightarrow> []
      | c # cs \<Rightarrow>
          if c = CHR '':'' then [cs]
          else let (arg, rest) = splitArg line in arg # parse_args rest)"
  by pat_completeness auto

termination
proof (relation "measure length")
  fix line c cs x arg rest
  assume "line = c # cs" "x = splitArg line" "(arg, rest) = x"
  then show "(rest, line) \<in> measure length"
    using splitArg_shorter [of line] by (metis in_measure list.distinct(1) snd_conv)
qed simp

declare parse_args.simps [simp del]

definition ParseLine :: "'z text_env_scheme \<Rightarrow> string \<Rightarrow> string \<times> string list" where
  "ParseLine E line0 =
     (let line = (if prefix '':'' line0 then snd (splitArg line0) else line0);
          (arg, rest) = splitArg line
      in (NewName E (to_upper E arg), parse_args rest))"

section \<open>Parsers\<close>

definition ParsePingCommand :: "'z text_env_scheme \<Rightarrow> string list \<Rightarrow> parsed" where
  "ParsePingCommand E args =
     (case args of
        [] \<Rightarrow> Inl NotEnoughArgsError
      | a # rest \<Rightarrow> Inr (PingCommand (NewName E a) (case rest of [] \<Rightarrow> [] | b # _ \<Rightarrow> NewName E b)))"

definition ParsePongCommand :: "'z text_env_scheme \<Rightarrow> string list \<Rightarrow> parsed" where
  "ParsePongCommand E args =
     (case args of
        [] \<Rightarrow> Inl NotEnoughArgsError
      | a # rest \<Rightarrow> Inr (PongCommand (NewName E a) (case rest of [] \<Rightarrow> [] | b # _ \<Rightarrow> NewName E b)))"

definition ParseAuthenticateCommand :: "string list \<Rightarrow> parsed" where
  "ParseAuthenticateCommand args =
     (case args of [] \<Rightarrow> Inl NotEnoughArgsError | a # _ \<Rightarrow> Inr (AuthenticateCommand a))"

definition ParsePassCommand :: "string list \<Rightarrow> parsed" where
  "ParsePassCommand args =
     (case args of [] \<Rightarrow> Inl NotEnoughArgsError | a # _ \<Rightarrow> Inr (PassCommand None a False))"

definition ParseNickCommand :: "'z text_env_scheme \<Rightarrow> string list \<Rightarrow> parsed" where
  "ParseNickCommand E args =
     (case args of [a] \<Rightarrow> Inr (NickCommand (NewName E a)) | _ \<Rightarrow> Inl NotEnoughArgsError)"

definition Flags :: "8 word \<Rightarrow> rune list" where
  "Flags mode = (if mode AND 4 = 4 then [WallOps] else []) @ (if mode AND 8 = 8 then [Invisible] else [])"

definition ParseUserCommand :: "'z text_env_scheme \<Rightarrow> string list \<Rightarrow> parsed" where
  "ParseUserCommand E args =
     (case args of
        [a0, a1, a2, a3] \<Rightarrow>
          (case parse_uint 8 a1 of
             Some mode \<Rightarrow> Inr (RFC2812UserCommand (NewName E a0) (NewText E a3) (of_nat mode) a2)
           | None \<Rightarrow> Inr (RFC1459UserCommand (NewName E a0) (NewText E a3) (NewName E a1) (NewName E a2)))
      | _ \<Rightarrow> Inl NotEnoughArgsError)"

definition ParseQuitCommand :: "'z text_env_scheme \<Rightarrow> string list \<Rightarrow> parsed" where
  "ParseQuitCommand E args = Inr (QuitCommand (case args of [] \<Rightarrow> [] | a # _ \<Rightarrow> NewText E a))"

text \<open>Key \<open>i\<close> goes with channel \<open>i\<close>; channels without a key get the empty one.\<close>

definition join_keys :: "nat \<Rightarrow> string list \<Rightarrow> string list" where
  "join_keys n keys = take n keys @ replicate (n - length keys) []"

definition ParseJoinCommand :: "'z text_env_scheme \<Rightarrow> string list \<Rightarrow> parsed" where
  "ParseJoinCommand E args =
     (case args of
        [] \<Rightarrow> Inl NotEnoughArgsError
      | a # rest \<Rightarrow>
          if a = ''0'' then Inr (JoinCommand [] True)
          else let channels = split_on (CHR '','') a;
                   keys = (case rest of
                             [] \<Rightarrow> replicate (length channels) []
                           | b # _ \<Rightarrow> join_keys (length channels) (split_on (CHR '','') b))
               in Inr (JoinCommand
                    (fold (\<lambda>(ch, k) m. AList.update (NewName E ch) (NewText E k) m) (zip channels keys) [])
                    False))"

definition ParsePartCommand :: "'z text_env_scheme \<Rightarrow> string list \<Rightarrow> parsed" where
  "ParsePartCommand E args =
     (case args of
        [] \<Rightarrow> Inl NotEnoughArgsError
      | a # rest \<Rightarrow> Inr (PartCommand (NewNames E (split_on (CHR '','') a))
                                    (case rest of [] \<Rightarrow> [] | b # _ \<Rightarrow> NewText E b)))"

definition ParsePrivMsgCommand :: "'z text_env_scheme \<Rightarrow> string list \<Rightarrow> parsed" where
  "ParsePrivMsgCommand E args =
     (case args of a # b # _ \<Rightarrow> Inr (PrivMsgCommand (NewName E a) (NewText E b)) | _ \<Rightarrow> Inl NotEnoughArgsError)"

definition ParseTopicCommand :: "'z text_env_scheme \<Rightarrow> string list \<Rightarrow> parsed" where
  "ParseTopicCommand E args =
     (case args of
        [] \<Rightarrow> Inl NotEnoughArgsError
      | [a] \<Rightarrow> Inr (TopicCommand (NewName E a) False [])
      | a # b # _ \<Rightarrow> Inr (TopicCommand (NewName E a) True (NewText E b)))"

definition ParseUserModeCommand :: "string \<Rightarrow> string list \<Rightarrow> parsed" where
  "ParseUserModeCommand nickname args =
     (case user_mode_changes args of Inl e \<Rightarrow> Inl e | Inr chs \<Rightarrow> Inr (ModeCommand nickname chs))"

definition ParseChannelModeCommand :: "string \<Rightarrow> string list \<Rightarrow> parsed" where
  "ParseChannelModeCommand channel args = Inr (ChannelModeCommand channel (chan_mode_changes args))"

definition ParseModeCommand :: "'z text_env_scheme \<Rightarrow> string list \<Rightarrow> parsed" where
  "ParseModeCommand E args =
     (case args of
        [] \<Rightarrow> Inl NotEnoughArgsError
      | a # rest \<Rightarrow>
          let name = NewName E a in
          if IsChannel E name then ParseChannelModeCommand name rest else ParseUserModeCommand name rest)"

definition ParseWhoisCommand :: "'z text_env_scheme \<Rightarrow> string list \<Rightarrow> parsed" where
  "ParseWhoisCommand E args =
     (case args of
        [] \<Rightarrow> Inl NotEnoughArgsError
      | [a] \<Rightarrow> Inr (WhoisCommand (NewName E []) (NewNames E (split_on (CHR '','') a)))
      | a # b # _ \<Rightarrow> Inr (WhoisCommand (NewName E a) (NewNames E (split_on (CHR '','') b))))"

definition ParseWhoCommand :: "'z text_env_scheme \<Rightarrow> string list \<Rightarrow> parsed" where
  "ParseWhoCommand E args =
     Inr (WhoCommand (case args of [] \<Rightarrow> [] | a # _ \<Rightarrow> NewName E a)
                     (case args of _ # b # _ \<Rightarrow> b = ''o'' | _ \<Rightarrow> False))"

definition ParseOperCommand :: "'z text_env_scheme \<Rightarrow> string list \<Rightarrow> parsed" where
  "ParseOperCommand E args =
     (case args of a # b # _ \<Rightarrow> Inr (OperCommand (NewName E a) None b False) | _ \<Rightarrow> Inl NotEnoughArgsError)"

definition ParseRehashCommand :: "string list \<Rightarrow> parsed" where
  "ParseRehashCommand args = Inr RehashCommand"

definition ParseCapCommand :: "'z text_env_scheme \<Rightarrow> string list \<Rightarrow> parsed" where
  "ParseCapCommand E args =
     (case args of
        [] \<Rightarrow> Inl NotEnoughArgsError
      | a # rest \<Rightarrow>
          Inr (CapCommand (to_upper E a)
                 (case rest of [] \<Rightarrow> [] | b # _ \<Rightarrow> fold (\<lambda>c m. if c \<in> set m then m else m @ [c]) (split_spaces b) [])))"

definition ParseAwayCommand :: "'z text_env_scheme \<Rightarrow> string list \<Rightarrow> parsed" where
  "ParseAwayCommand E args = Inr (AwayCommand (case args of [] \<Rightarrow> [] | a # _ \<Rightarrow> NewText E a))"

definition ParseIsOnCommand :: "'z text_env_scheme \<Rightarrow> string list \<Rightarrow> parsed" where
  "ParseIsOnCommand E args = (if args = [] then Inl NotEnoughArgsError else Inr (IsOnCommand (NewNames E args)))"

definition ParseMOTDCommand :: "'z text_env_scheme \<Rightarrow> string list \<Rightarrow> parsed" where
  "ParseMOTDCommand E args = Inr (MOTDCommand (case args of [] \<Rightarrow> [] | a # _ \<Rightarrow> NewName E a))"

definition ParseNoticeCommand :: "'z text_env_scheme \<Rightarrow> string list \<Rightarrow> parsed" where
  "ParseNoticeCommand E args =
     (case args of a # b # _ \<Rightarrow> Inr (NoticeCommand (NewName E a) (NewText E b)) | _ \<Rightarrow> Inl NotEnoughArgsError)"

text \<open>With one user every channel is mapped to it, otherwise channel \<open>i\<close> to user \<open>i\<close>.\<close>

definition ParseKickCommand :: "'z text_env_scheme \<Rightarrow> string list \<Rightarrow> parsed" where
  "ParseKickCommand E args =
     (case args of
        a # b # rest \<Rightarrow>
          let channels = NewNames E (split_on (CHR '','') a);
              users = NewNames E (split_on (CHR '','') b)
          in if length channels \<noteq> length users \<and> length users \<noteq> 1 then Inl NotEnoughArgsError
             else Inr (KickCommand
                    (fold (\<lambda>(i, ch) m. AList.update ch (if length users = 1 then users ! 0 else users ! i) m)
                      (enumerate 0 channels) [])
                    (case rest of [] \<Rightarrow> [] | c # _ \<Rightarrow> NewText E c))
      | _ \<Rightarrow> Inl NotEnoughArgsError)"

definition ParseListCommand :: "'z text_env_scheme \<Rightarrow> string list \<Rightarrow> parsed" where
  "ParseListCommand E args =
     Inr (ListCommand (case args of [] \<Rightarrow> [] | a # _ \<Rightarrow> NewNames E (split_on (CHR '','') a))
                      (case args of _ # b # _ \<Rightarrow> NewName E b | _ \<Rightarrow> []))"

definition ParseNamesCommand :: "'z text_env_scheme \<Rightarrow> string list \<Rightarrow> parsed" where
  "ParseNamesCommand E args =
     Inr (NamesCommand (case args of [] \<Rightarrow> [] | a # _ \<Rightarrow> NewNames E (split_on (CHR '','') a))
                       (case args of _ # b # _ \<Rightarrow> NewName E b | _ \<Rightarrow> []))"

definition ParseVersionCommand :: "'z text_env_scheme \<Rightarrow> string list \<Rightarrow> parsed" where
  "ParseVersionCommand E args = Inr (VersionCommand (case args of [] \<Rightarrow> [] | a # _ \<Rightarrow> NewName E a))"

definition ParseInviteCommand :: "'z text_env_scheme \<Rightarrow> string list \<Rightarrow> parsed" where
  "ParseInviteCommand E args =
     (case args of a # b # _ \<Rightarrow> Inr (InviteCommand (NewName E a) (NewName E b)) | _ \<Rightarrow> Inl NotEnoughArgsError)"

definition ParseTimeCommand :: "'z text_env_scheme \<Rightarrow> string list \<Rightarrow> parsed" where
  "ParseTimeCommand E args = Inr (TimeCommand (case args of [] \<Rightarrow> [] | a # _ \<Rightarrow> NewName E a))"

definition ParseLUsersCommand :: "string list \<Rightarrow> parsed" where
  "ParseLUsersCommand args = Inr LUsersCommand"

definition ParseKillCommand :: "'z text_env_scheme \<Rightarrow> string list \<Rightarrow> parsed" where
  "ParseKillCommand E args =
     (case args of a # b # _ \<Rightarrow> Inr (KillCommand (NewName E a) (NewText E b)) | _ \<Rightarrow> Inl NotEnoughArgsError)"

definition ParseWallopsCommand :: "'z text_env_scheme \<Rightarrow> string list \<Rightarrow> parsed" where
  "ParseWallopsCommand E args =
     (case args of [] \<Rightarrow> Inl NotEnoughArgsError | a # _ \<Rightarrow> Inr (WallopsCommand (NewText E a)))"

definition ParseWhoWasCommand :: "'z text_env_scheme \<Rightarrow> string list \<Rightarrow> parsed" where
  "ParseWhoWasCommand E args =
     (case args of
        [] \<Rightarrow> Inl NotEnoughArgsError
      | a # rest \<Rightarrow>
          Inr (WhoWasCommand (NewNames E (split_on (CHR '','') a))
                 (case rest of [] \<Rightarrow> 0 | b # _ \<Rightarrow> parse_int64 b)
                 (case rest of _ # c # _ \<Rightarrow> NewName E c | _ \<Rightarrow> [])))"

definition ParseOperNickCommand :: "'z text_env_scheme \<Rightarrow> string list \<Rightarrow> parsed" where
  "ParseOperNickCommand E args =
     (case args of a # b # _ \<Rightarrow> Inr (OperNickCommand (NewName E a) (NewName E b)) | _ \<Rightarrow> Inl NotEnoughArgsError)"

definition parseCommandFuncs :: "'z text_env_scheme \<Rightarrow> (string \<times> (string list \<Rightarrow> parsed)) list" where
  "parseCommandFuncs E =
     [(''AUTHENTICATE'', ParseAuthenticateCommand), (''AWAY'', ParseAwayCommand E),
      (''CAP'', ParseCapCommand E), (''INVITE'', ParseInviteCommand E),
      (''ISON'', ParseIsOnCommand E), (''JOIN'', ParseJoinCommand E),
      (''KICK'', ParseKickCommand E), (''KILL'', ParseKillCommand E),
      (''LIST'', ParseListCommand E), (''MODE'', ParseModeCommand E),
      (''MOTD'', ParseMOTDCommand E), (''NAMES'', ParseNamesCommand E),
      (''NICK'', ParseNickCommand E), (''NOTICE'', ParseNoticeCommand E),
      (''ONICK'', ParseOperNickCommand E), (''OPER'', ParseOperCommand E),
      (''REHASH'', ParseRehashCommand), (''PART'', ParsePartCommand E),
      (''PASS'', ParsePassCommand), (''PING'', ParsePingCommand E),
      (''PONG'', ParsePongCommand E), (''PRIVMSG'', ParsePrivMsgCommand E),
      (''QUIT'', ParseQuitCommand E), (''TIME'', ParseTimeCommand E),
      (''LUSERS'', ParseLUsersCommand), (''TOPIC'', ParseTopicCommand E),
      (''USER'', ParseUserCommand E), (''VERSION'', ParseVersionCommand E),
      (''WALLOPS'', ParseWallopsCommand E), (''WHO'', ParseWhoCommand E),
      (''WHOIS'', ParseWhoisCommand E), (''WHOWAS'', ParseWhoWasCommand E)]"

text \<open>The command's code comes beside the command, where the source sets it in \<open>BaseCommand\<close>.\<close>

definition ParseCommand :: "'z text_env_scheme \<Rightarrow> string \<Rightarrow> string \<times> parsed" where
  "ParseCommand E line =
     (let (code, args) = ParseLine E line
      in (code, case map_of (parseCommandFuncs E) code of
                  None \<Rightarrow> Inr (UnknownCommand args)
                | Some constructor \<Rightarrow> constructor args))"

section \<open>Lines: printing and reading back\<close>

lemma splitArg_word:
  assumes "CHR '' '' \<notin> set w" "rest = [] \<or> hd rest \<noteq> CHR '' ''"
  shows "splitArg (w @ CHR '' '' # rest) = (w, rest)"
proof -
  have "takeWhile (Not \<circ> is_space) (w @ CHR '' '' # rest) = w"
    "dropWhile (Not \<circ> is_space) (w @ CHR '' '' # rest) = CHR '' '' # rest"
    using assms(1) by (induction w) (auto simp: is_space_def)
  moreover have "dropWhile is_space rest = rest"
    using assms(2) by (cases rest) (auto simp: is_space_def)
  ultimately show ?thesis by (simp add: splitArg_def is_space_def)
qed

lemma splitArg_last: "CHR '' '' \<notin> set w \<Longrightarrow> splitArg w = (w, [])"
  by (induction w) (auto simp: splitArg_def is_space_def)

text \<open>An argument that a line can carry before the last one.\<close>

definition middle_ok :: "string \<Rightarrow> bool" where
  "middle_ok a \<longleftrightarrow> a \<noteq> [] \<and> CHR '' '' \<notin> set a \<and> hd a \<noteq> CHR '':''"

lemma parse_args_middle:
  assumes "middle_ok a" "rest = [] \<or> hd rest \<noteq> CHR '' ''"
  shows "parse_args (a @ CHR '' '' # rest) = a # parse_args rest"
proof -
  obtain c cs where a: "a = c # cs" and c: "c \<noteq> CHR '':''"
    using assms(1) by (cases a) (auto simp: middle_ok_def)
  have "splitArg (a @ CHR '' '' # rest) = (a, rest)"
    using assms by (intro splitArg_word) (auto simp: middle_ok_def)
  with a c show ?thesis by (subst parse_args.simps) simp
qed

lemma parse_args_trailing: "parse_args (CHR '':'' # t) = [t]"
  by (subst parse_args.simps) simp

lemma line_tail_hd:
  assumes "list_all middle_ok as"
  shows "hd (concat (map (\<lambda>a. a @ '' '') as) @ CHR '':'' # t) \<noteq> CHR '' ''"
proof (cases as)
  case (Cons a as')
  with assms show ?thesis by (cases a) (auto simp: middle_ok_def)
qed simp

lemma parse_args_join:
  assumes "list_all middle_ok as"
  shows "parse_args (concat (map (\<lambda>a. a @ '' '') as) @ CHR '':'' # t) = as @ [t]"
  using assms
proof (induction as)
  case Nil
  then show ?case by (simp add: parse_args_trailing)
next
  case (Cons a as)
  let ?rest = "concat (map (\<lambda>a. a @ '' '') as) @ CHR '':'' # t"
  have "hd ?rest \<noteq> CHR '' ''" using Cons.prems line_tail_hd by simp
  with Cons show ?case using parse_args_middle [of a ?rest] by simp
qed

lemma parse_line_law:
  assumes "CHR '' '' \<notin> set src" "middle_ok code" "list_all middle_ok args"
  shows "ParseLine E ('':'' @ src @ '' '' @ code @ '' '' @ concat (map (\<lambda>a. a @ '' '') args) @ '':'' @ t) =
    (NewName E (to_upper E code), args @ [t])"
proof -
  let ?tail = "concat (map (\<lambda>a. a @ '' '') args) @ CHR '':'' # t"
  let ?line = "code @ CHR '' '' # ?tail"
  have tail: "?tail = [] \<or> hd ?tail \<noteq> CHR '' ''"
    using line_tail_hd [OF assms(3)] by blast
  have "hd ?line \<noteq> CHR '' ''" using assms(2) by (cases code) (auto simp: middle_ok_def)
  then have "splitArg ((CHR '':'' # src) @ CHR '' '' # ?line) = (CHR '':'' # src, ?line)"
    using assms(1) by (intro splitArg_word) auto
  moreover have "splitArg ?line = (code, ?tail)"
    using assms(2) tail by (intro splitArg_word) (auto simp: middle_ok_def)
  moreover have "parse_args ?tail = args @ [t]" by (rule parse_args_join [OF assms(3)])
  ultimately show ?thesis by (simp add: ParseLine_def)
qed

text \<open>C32: a line with a source prefix, a code, arguments and a trailing text is cut into exactly
  these parts, whatever bytes the trailing text holds.\<close>

theorem parse_line_roundtrip:
  assumes "CHR '' '' \<notin> set src" "middle_ok code" "list_all middle_ok args"
  shows "ParseLine E ('':'' @ src @ '' '' @ code @ '' '' @ concat (map (\<lambda>a. a @ '' '') args) @ '':'' @ t) =
    (NewName E (to_upper E code), args @ [t])"
  by (rule parse_line_law [OF assms])

theorem parse_line_roundtrip_witness:
  "ParseLine list_env '':bob!b@h PRIVMSG #irc :hello there: you'' = (''PRIVMSG'', [''#irc'', ''hello there: you''])"
proof -
  have "ParseLine list_env ('':'' @ ''bob!b@h'' @ '' '' @ ''PRIVMSG'' @ '' '' @
      concat (map (\<lambda>a. a @ '' '') [''#irc'']) @ '':'' @ ''hello there: you'') =
    (NewName list_env (to_upper list_env ''PRIVMSG''), [''#irc''] @ [''hello there: you''])"
    by (rule parse_line_roundtrip) (simp_all add: middle_ok_def)
  then show ?thesis
    by (simp add: NewName_def list_env_def to_upper_def runes_ascii is_ascii_def rune_upper_def
        ascii_upper_def encode_ascii go_simps)
qed

text \<open>Every argument but the last is free of spaces, so it can be sent on as a middle argument.\<close>

lemma splitArg_no_space: "CHR '' '' \<notin> set (fst (splitArg line))"
  by (auto simp: splitArg_def is_space_def dest: set_takeWhileD)

text \<open>Only the last argument of a line can hold a space.\<close>

theorem parse_args_no_space: "\<forall>a \<in> set (butlast (parse_args line)). CHR '' '' \<notin> set a"
proof (induction line rule: parse_args.induct)
  case (1 line)
  show ?case
  proof (cases line)
    case Nil
    then show ?thesis by (subst parse_args.simps) simp
  next
    case (Cons c cs)
    obtain arg rest where sp: "splitArg line = (arg, rest)" by force
    show ?thesis
    proof (cases "c = CHR '':''")
      case True
      with Cons show ?thesis by (subst parse_args.simps) simp
    next
      case False
      with Cons sp have "parse_args line = arg # parse_args rest" by (subst parse_args.simps) simp
      moreover have "\<forall>a \<in> set (butlast (parse_args rest)). CHR '' '' \<notin> set a"
        using 1 [OF Cons False sp [symmetric] refl] .
      moreover have "CHR '' '' \<notin> set arg" using splitArg_no_space [of line] sp by simp
      ultimately show ?thesis by auto
    qed
  qed
qed

end
