(* ===== verification/Masks.thy ===== *)
theory Masks
  imports Names
begin

text \<open>
  \<open>UserMaskSet\<close> of src/internal/client_lookup.go: the ban, exception and invitation lists of a
  channel. A set of masks is compiled into one regular expression. The expression is built here
  as the source builds it, from its pieces, as a list of tokens: a literal rune (what
  \<open>regexp.QuoteMeta\<close> produces and \<open>Compile\<close> reads back), \<open>.\<close>, \<open>.*\<close>, \<open>|\<close>, \<open>^\<close> and \<open>$\<close>; in the syntax
  of package regexp the bar binds weaker than the anchors.
\<close>

section \<open>Regular expressions of this shape\<close>

datatype re_tok = Lit rune | Dot | DotStar | Bar | Caret | Dollar

text \<open>\<open>at_start\<close>: nothing of the text has been consumed. \<open>.\<close> does not match a line feed.\<close>

fun re_here :: "bool \<Rightarrow> re_tok list \<Rightarrow> rune list \<Rightarrow> bool" where
  "re_here at_start [] s = True"
| "re_here at_start (Lit r # p) [] = False"
| "re_here at_start (Lit r # p) (x # xs) = (x = r \<and> re_here False p xs)"
| "re_here at_start (Dot # p) [] = False"
| "re_here at_start (Dot # p) (x # xs) = (x \<noteq> 10 \<and> re_here False p xs)"
| "re_here at_start (DotStar # p) [] = re_here at_start p []"
| "re_here at_start (DotStar # p) (x # xs) =
     (re_here at_start p (x # xs) \<or> x \<noteq> 10 \<and> re_here False (DotStar # p) xs)"
| "re_here at_start (Caret # p) s = (at_start \<and> re_here at_start p s)"
| "re_here at_start (Dollar # p) s = (s = [] \<and> re_here at_start p s)"
| "re_here at_start (Bar # p) s = False"
fun re_search :: "bool \<Rightarrow> re_tok list \<Rightarrow> rune list \<Rightarrow> bool" where
  "re_search at_start p [] = re_here at_start p []"
| "re_search at_start p (x # xs) = (re_here at_start p (x # xs) \<or> re_search False p xs)"

fun re_alternatives :: "re_tok list \<Rightarrow> re_tok list list" where
  "re_alternatives [] = [[]]"
| "re_alternatives (t # ts) =
     (if t = Bar then [] # re_alternatives ts
      else case re_alternatives ts of [] \<Rightarrow> [[t]] | p # ps \<Rightarrow> (t # p) # ps)"

text \<open>\<open>MatchString\<close>: some alternative matches somewhere.\<close>

definition re_match :: "re_tok list \<Rightarrow> rune list \<Rightarrow> bool" where
  "re_match e s = list_ex (\<lambda>p. re_search True p s) (re_alternatives e)"

section \<open>The set of masks\<close>

text \<open>\<open>masks\<close> holds the keys of the Go map, \<open>regexp\<close> is None for nil.\<close>

record UserMaskSet =
  masks :: "string list"
  regexp :: "re_tok list option"

definition NewUserMaskSet :: UserMaskSet where
  "NewUserMaskSet = \<lparr>masks = [], regexp = None\<rparr>"

fun join_toks :: "re_tok list \<Rightarrow> re_tok list list \<Rightarrow> re_tok list" where
  "join_toks sep [] = []"
| "join_toks sep [x] = x"
| "join_toks sep (x # y # xs) = x @ sep @ join_toks sep (y # xs)"

definition many_expr :: "string \<Rightarrow> re_tok list" where
  "many_expr manyPart = join_toks [Dot] (map (\<lambda>onePart. map Lit (runes onePart)) (split_on (CHR ''?'') manyPart))"

definition mask_expr :: "string \<Rightarrow> re_tok list" where
  "mask_expr msk = join_toks [DotStar] (map many_expr (split_on (CHR ''*'') msk))"

text \<open>
  \<open>setRegexp\<close>. \<open>Compile\<close> rejects an expression that is not valid UTF-8, that is, one built from a
  mask that is not; the error is dropped and the expression is nil.
\<close>

definition setRegexp :: "'z text_env_scheme \<Rightarrow> UserMaskSet \<Rightarrow> UserMaskSet" where
  "setRegexp E st =
     (if masks st = [] then st\<lparr>regexp := None\<rparr>
      else let maskExprs = map mask_expr (go_range E (masks st));
               expr = [Caret] @ join_toks [Bar] maskExprs @ [Dollar]
           in st\<lparr>regexp := (if list_all valid_utf8 (masks st) then Some expr else None)\<rparr>)"

definition mask_add :: "'z text_env_scheme \<Rightarrow> UserMaskSet \<Rightarrow> string \<Rightarrow> UserMaskSet \<times> bool" where
  "mask_add E st msk =
     (if msk \<in> set (masks st) then (st, False)
      else (setRegexp E (st\<lparr>masks := masks st @ [msk]\<rparr>), True))"

fun mask_add_each :: "UserMaskSet \<Rightarrow> bool \<Rightarrow> string list \<Rightarrow> UserMaskSet \<times> bool" where
  "mask_add_each st added [] = (st, added)"
| "mask_add_each st added (m # ms) =
     mask_add_each (st\<lparr>masks := (if m \<in> set (masks st) then masks st else masks st @ [m])\<rparr>)
       (added \<or> m \<notin> set (masks st)) ms"

definition mask_add_all :: "'z text_env_scheme \<Rightarrow> UserMaskSet \<Rightarrow> string list \<Rightarrow> UserMaskSet \<times> bool" where
  "mask_add_all E st ms = (case mask_add_each st False ms of (st', added) \<Rightarrow> (setRegexp E st', added))"

definition mask_remove :: "'z text_env_scheme \<Rightarrow> UserMaskSet \<Rightarrow> string \<Rightarrow> UserMaskSet \<times> bool" where
  "mask_remove E st msk =
     (if msk \<notin> set (masks st) then (st, False)
      else (setRegexp E (st\<lparr>masks := removeAll msk (masks st)\<rparr>), True))"

definition mask_match :: "UserMaskSet \<Rightarrow> string \<Rightarrow> bool" where
  "mask_match st userhost = (case regexp st of None \<Rightarrow> False | Some e \<Rightarrow> re_match e (runes userhost))"

definition mask_set_string :: "'z text_env_scheme \<Rightarrow> UserMaskSet \<Rightarrow> string" where
  "mask_set_string E st = join '' '' (go_range E (masks st))"

definition ExpandUserHost :: "string \<Rightarrow> string" where
  "ExpandUserHost userhost =
     (let e1 = (if \<not> Contains userhost ''!'' then userhost @ ''!*'' else userhost)
      in if \<not> Contains e1 ''@'' then e1 @ ''@*'' else e1)"

section \<open>What a mask means\<close>

text \<open>Reference: \<open>*\<close> stands for any runes, \<open>?\<close> for one rune, everything else for itself.\<close>

fun glob :: "rune list \<Rightarrow> rune list \<Rightarrow> bool" where
  "glob [] s = (s = [])"
| "glob (r # p) [] = (r = of_char (CHR ''*'') \<and> glob p [])"
| "glob (r # p) (x # xs) =
     (if r = of_char (CHR ''*'') then glob p (x # xs) \<or> glob (r # p) xs
      else (r = of_char (CHR ''?'') \<or> x = r) \<and> glob p xs)"
definition mask_glob :: "string \<Rightarrow> string \<Rightarrow> bool" where
  "mask_glob msk userhost = glob (runes msk) (runes userhost)"

text \<open>The tokens of a mask, read off its runes.\<close>

definition rune_tok :: "rune \<Rightarrow> re_tok" where
  "rune_tok r = (if r = of_char (CHR ''*'') then DotStar else if r = of_char (CHR ''?'') then Dot else Lit r)"

lemma decode_head_append_ascii:
  "x < 128 \<Longrightarrow> decode_head b (bs @ x # cs) = decode_head b bs"
proof -
  assume x: "x < 128"
  have "\<not> is_cont x" "\<not> second_ok b x" using x by (auto simp: is_cont_def second_ok_def)
  then show ?thesis
    by (auto simp: decode_head_def split: list.split if_split)
qed

lemma decode_head_length: "decode_head b bs = Some (r, n) \<Longrightarrow> n \<le> length bs"
  by (auto elim!: decode_head_cases)

lemma decode_bytes_ascii_split:
  "x < 128 \<Longrightarrow> decode_bytes (bs @ x # cs) = decode_bytes bs @ x # decode_bytes cs"
proof (induction bs rule: decode_bytes.induct)
  case 1
  then show ?case by (simp add: decode_head_def)
next
  case (2 b bs)
  show ?case
  proof (cases "decode_head b bs")
    case None
    with 2 show ?thesis by (simp add: decode_head_append_ascii)
  next
    case (Some p)
    obtain r n where p: "p = (r, n)" by force
    with Some have "drop n (bs @ x # cs) = drop n bs @ x # cs"
      by (simp add: decode_head_length)
    with 2 Some p show ?thesis by (simp add: decode_head_append_ascii)
  qed
qed

lemma runes_ascii_split:
  "of_char c < (128::nat) \<Longrightarrow> runes (s @ c # t) = runes s @ of_char c # runes t"
  by (simp add: runes_def decode_bytes_ascii_split)

lemma runes_join:
  assumes "of_char c < (128::nat)" "ps \<noteq> []"
  shows "runes (join [c] ps) = concat (map (\<lambda>p. runes p @ [of_char c]) (butlast ps)) @ runes (last ps)"
  using assms(2)
proof (induction ps)
  case (Cons p ps)
  with assms(1) show ?case by (cases "ps = []") (auto simp: join_Cons runes_ascii_split)
qed simp

lemma join_toks_eq:
  "ps \<noteq> [] \<Longrightarrow> join_toks sep ps = concat (map (\<lambda>p. p @ sep) (butlast ps)) @ last ps"
  by (induction sep ps rule: join_toks.induct) auto

text \<open>Splitting at a byte and joining the pieces' tokens maps every rune to its token.\<close>

lemma join_toks_split:
  assumes c: "of_char c < (128::nat)"
    and f: "\<And>p. p \<in> set (split_on c s) \<Longrightarrow> f p = map g (runes p)"
    and sep: "g (of_char c) = t"
  shows "join_toks [t] (map f (split_on c s)) = map g (runes s)"
proof -
  let ?ps = "split_on c s"
  have ne: "?ps \<noteq> []" by simp
  have "join_toks [t] (map f ?ps) =
      concat (map (\<lambda>p. map g (runes p @ [of_char c])) (butlast ?ps)) @ map g (runes (last ?ps))"
    using f sep ne by (simp add: join_toks_eq map_butlast [symmetric] comp_def last_map in_set_butlastD
        cong: map_cong)
  also have "\<dots> = map g (concat (map (\<lambda>p. runes p @ [of_char c]) (butlast ?ps)) @ runes (last ?ps))"
    by (simp add: map_concat comp_def)
  also have "\<dots> = map g (runes (join [c] ?ps))"
    using runes_join [OF c ne] by simp
  finally show ?thesis by (simp add: join_split_on)
qed

lemma ascii_rune_is_byte: "r \<in> set (decode_bytes bs) \<Longrightarrow> r < 128 \<Longrightarrow> r \<in> set bs"
proof (induction bs rule: decode_bytes.induct)
  case (2 b bs)
  show ?case
  proof (cases "decode_head b bs")
    case None
    with 2 show ?thesis by (auto simp: RuneError_def)
  next
    case (Some p)
    obtain r' n where p: "p = (r', n)" by force
    with Some "2.prems" have "r = r' \<or> r \<in> set (decode_bytes (drop n bs))" by simp
    then show ?thesis
    proof
      assume "r = r'"
      with Some p "2.prems" show ?thesis using decode_head_tail(2) [of b bs r' n] by simp
    next
      assume "r \<in> set (decode_bytes (drop n bs))"
      with "2.IH"(2) [OF Some p [symmetric]] "2.prems" show ?thesis
        by (auto dest: in_set_dropD)
    qed
  qed
qed simp

lemma ascii_not_in_runes: "c \<notin> set s \<Longrightarrow> of_char c < (128::nat) \<Longrightarrow> of_char c \<notin> set (runes s)"
  using ascii_rune_is_byte [of "of_char c" "map of_char s"] by (auto simp: runes_def)

lemma many_expr_toks:
  assumes "CHR ''*'' \<notin> set m"
  shows "many_expr m = map rune_tok (runes m)"
  unfolding many_expr_def
proof (rule join_toks_split)
  fix p assume p: "p \<in> set (split_on (CHR ''?'') m)"
  have "set p \<subseteq> set m"
    using p split_on_subset by blast
  with assms have "CHR ''*'' \<notin> set p" "CHR ''?'' \<notin> set p"
    using split_on_parts [OF p] by auto
  then have "of_char (CHR ''*'') \<notin> set (runes p)" "of_char (CHR ''?'') \<notin> set (runes p)"
    by (auto dest: ascii_not_in_runes)
  then show "map Lit (runes p) = map rune_tok (runes p)"
    by (auto simp: rune_tok_def)
qed (simp_all add: rune_tok_def)

lemma mask_expr_toks: "mask_expr m = map rune_tok (runes m)"
  unfolding mask_expr_def
  by (rule join_toks_split) (simp_all add: many_expr_toks split_on_parts rune_tok_def)

text \<open>Matching the tokens of a mask up to the end of the text is globbing.\<close>

lemma re_here_glob:
  "10 \<notin> set s \<Longrightarrow> re_here b (map rune_tok p @ [Dollar]) s = glob p s"
proof (induction p s arbitrary: b rule: glob.induct)
  case (3 r p x xs)
  then show ?case by (auto simp: rune_tok_def)
qed (auto simp: rune_tok_def)
lemma re_search_caret: "re_search b (Caret # p) s \<longleftrightarrow> b \<and> re_here b p s"
proof -
  have "\<not> re_search False (Caret # p) s" for s by (induction s) auto
  then show ?thesis by (cases s) auto
qed

lemma no_bar_rune_tok: "Bar \<notin> set (map rune_tok p)"
  by (auto simp: rune_tok_def split: if_splits)

lemma re_alternatives_no_bar: "Bar \<notin> set ts \<Longrightarrow> re_alternatives ts = [ts]"
  by (induction ts) auto

lemma re_alternatives_bar:
  "Bar \<notin> set ts \<Longrightarrow> re_alternatives (ts @ Bar # us) = ts # re_alternatives us"
  by (induction ts) auto

section \<open>What the compiled list matches\<close>

text \<open>The alternatives of the expression: only the first is anchored at the start, only the last at
  the end.\<close>

lemma alternatives_masks:
  assumes "ms \<noteq> []"
  shows "re_alternatives (join_toks [Bar] (map mask_expr ms) @ [Dollar]) =
    map mask_expr (butlast ms) @ [mask_expr (last ms) @ [Dollar]]"
  using assms
proof (induction ms)
  case step: (Cons m ms)
  have nb: "Bar \<notin> set (mask_expr m)" unfolding mask_expr_toks by (rule no_bar_rune_tok)
  show ?case
  proof (cases ms)
    case Nil
    have "Bar \<notin> set (mask_expr m @ [Dollar])" using nb by simp
    from re_alternatives_no_bar [OF this] Nil show ?thesis by simp
  next
    case (Cons m' ms')
    with step.IH re_alternatives_bar [OF nb] show ?thesis by simp
  qed
qed simp

lemma alternatives_expr:
  assumes "ms \<noteq> []"
  shows "re_alternatives ([Caret] @ join_toks [Bar] (map mask_expr ms) @ [Dollar]) =
    (case map mask_expr (butlast ms) @ [mask_expr (last ms) @ [Dollar]] of p # ps \<Rightarrow> (Caret # p) # ps)"
  using alternatives_masks [OF assms] by (simp split: list.splits)

lemma re_here_weaken: "re_here b (p @ q) s \<Longrightarrow> re_here b p s"
  by (induction b p s rule: re_here.induct) auto

lemma re_search_here: "re_here b p s \<Longrightarrow> re_search b p s"
  by (cases s) auto

lemma re_search_suffix: "10 \<notin> set (a @ x) \<Longrightarrow> glob m x \<Longrightarrow> re_search b (map rune_tok m @ [Dollar]) (a @ x)"
proof (induction a arbitrary: b)
  case Nil
  then show ?case by (simp add: re_search_here re_here_glob)
qed simp

definition mask_wf :: "'z text_env_scheme \<Rightarrow> UserMaskSet \<Rightarrow> bool" where
  "mask_wf E st \<longleftrightarrow> distinct (masks st) \<and> regexp st = regexp (setRegexp E st)"

lemma masks_setRegexp [simp]: "masks (setRegexp E st) = masks st"
  by (simp add: setRegexp_def Let_def)

lemma setRegexp_idem [simp]: "regexp (setRegexp E (setRegexp E st)) = regexp (setRegexp E st)"
  by (simp add: setRegexp_def Let_def)

lemma mask_add_each_masks:
  "mask_add_each st added ms = (st', added') \<Longrightarrow> distinct (masks st) \<Longrightarrow>
   distinct (masks st') \<and> set (masks st') = set (masks st) \<union> set ms \<and>
   (added' \<longleftrightarrow> added \<or> \<not> set ms \<subseteq> set (masks st))"
  by (induction st added ms rule: mask_add_each.induct) (auto split: if_splits)

text \<open>Every operation of a mask list keeps its entries distinct and its compiled expression that
  of its entries, changes the entries as asked, and says whether it changed them.\<close>

theorem mask_operations:
  assumes "mask_wf E st"
  shows "(mask_wf E (fst (mask_add E st m)) \<and>
      set (masks (fst (mask_add E st m))) = insert m (set (masks st)) \<and>
      snd (mask_add E st m) = (m \<notin> set (masks st))) \<and>
    (mask_wf E (fst (mask_add_all E st ms)) \<and>
      set (masks (fst (mask_add_all E st ms))) = set (masks st) \<union> set ms \<and>
      snd (mask_add_all E st ms) = (\<not> set ms \<subseteq> set (masks st))) \<and>
    (mask_wf E (fst (mask_remove E st m)) \<and>
      set (masks (fst (mask_remove E st m))) = set (masks st) - {m} \<and>
      snd (mask_remove E st m) = (m \<in> set (masks st)))"
proof (intro conjI)
  obtain st' added where each: "mask_add_each st False ms = (st', added)" by force
  with mask_add_each_masks [OF each] assms
  show "mask_wf E (fst (mask_add_all E st ms))"
    "set (masks (fst (mask_add_all E st ms))) = set (masks st) \<union> set ms"
    "snd (mask_add_all E st ms) = (\<not> set ms \<subseteq> set (masks st))"
    by (auto simp: mask_add_all_def mask_wf_def)
qed (use assms in \<open>auto simp: mask_add_def mask_remove_def mask_wf_def distinct_removeAll\<close>)

theorem mask_operations_witness:
  "mask_wf list_env (fst (mask_add list_env NewUserMaskSet ''bob!*@*'')) \<and>
   snd (mask_add list_env NewUserMaskSet ''bob!*@*'')"
proof -
  have "mask_wf list_env NewUserMaskSet" by (simp add: mask_wf_def NewUserMaskSet_def setRegexp_def)
  from mask_operations [OF this, of "''bob!*@*''"] show ?thesis by (simp add: NewUserMaskSet_def)
qed

section \<open>Matching\<close>

lemma regexp_some:
  assumes "mask_wf E st" "masks st \<noteq> []" "list_all valid_utf8 (masks st)"
  shows "mask_match st u =
    re_match ([Caret] @ join_toks [Bar] (map mask_expr (go_range E (masks st))) @ [Dollar]) (runes u)"
  using assms by (simp add: mask_wf_def mask_match_def setRegexp_def Let_def)

lemma search_map_glob:
  assumes "10 \<notin> set s" "glob (runes m) s"
  shows "re_search True (mask_expr m) s" "re_search True (mask_expr m @ [Dollar]) s"
    "re_search True (Caret # mask_expr m) s" "re_search True (Caret # mask_expr m @ [Dollar]) s"
proof -
  have here: "re_here True (mask_expr m @ [Dollar]) s" "re_here True (mask_expr m) s"
    using assms re_here_glob re_here_weaken by (simp_all add: mask_expr_toks) blast
  then show "re_search True (mask_expr m) s" "re_search True (mask_expr m @ [Dollar]) s"
    "re_search True (Caret # mask_expr m) s" "re_search True (Caret # mask_expr m @ [Dollar]) s"
    by (auto simp: re_search_caret intro: re_search_here)
qed

text \<open>C38: a list with one entry matches exactly what the mask means.\<close>

theorem single_mask_exact:
  assumes E: "go_env_laws E" and wf: "mask_wf E st" and m: "masks st = [m]"
    and "valid_utf8 m" "10 \<notin> set (runes u)"
  shows "mask_match st u = mask_glob m u"
proof -
  have "go_range E [m] = [m]"
    using go_env_laws.go_range_mset [OF E, of "[m]"] by simp
  then have "mask_match st u = re_match (Caret # mask_expr m @ [Dollar]) (runes u)"
    using regexp_some [OF wf] assms by simp
  also have "\<dots> = re_search True (Caret # mask_expr m @ [Dollar]) (runes u)"
    using alternatives_expr [of "[m]"] by (simp add: re_match_def)
  also have "\<dots> = glob (runes m) (runes u)"
    using assms by (simp add: re_search_caret mask_expr_toks re_here_glob)
  finally show ?thesis by (simp add: mask_glob_def)
qed

text \<open>Every entry is the body of one alternative.\<close>

lemma alternative_of_mask:
  assumes "m \<in> set ms"
  shows "\<exists>p \<in> set (re_alternatives ([Caret] @ join_toks [Bar] (map mask_expr ms) @ [Dollar])).
    p \<in> {mask_expr m, mask_expr m @ [Dollar], Caret # mask_expr m, Caret # mask_expr m @ [Dollar]}"
proof -
  have ne: "ms \<noteq> []" using assms by auto
  let ?alts = "map mask_expr (butlast ms) @ [mask_expr (last ms) @ [Dollar]]"
  obtain p ps where ps: "?alts = p # ps" by (cases ?alts) auto
  have "mask_expr m \<in> set ?alts \<or> mask_expr m @ [Dollar] \<in> set ?alts"
    using assms ne by (metis (no_types, lifting) append_butlast_last_id image_eqI in_set_conv_decomp
        list.set_map set_ConsD set_append Un_iff empty_iff empty_set)
  then show ?thesis unfolding alternatives_expr [OF ne] ps by auto
qed

text \<open>No entry is missed: whatever an entry means, the list matches, in whatever order the
  entries were visited when the expression was compiled.\<close>

theorem mask_match_complete:
  assumes E: "go_env_laws E" and wf: "mask_wf E st" and m: "m \<in> set (masks st)"
    and valid: "list_all valid_utf8 (masks st)" and nl: "10 \<notin> set (runes u)" and g: "mask_glob m u"
  shows "mask_match st u"
proof -
  have "m \<in> set (go_range E (masks st))" using m go_env_laws.go_range_set [OF E] by metis
  from alternative_of_mask [OF this] obtain p
    where p: "p \<in> set (re_alternatives ([Caret] @ join_toks [Bar] (map mask_expr (go_range E (masks st))) @ [Dollar]))"
      and "p \<in> {mask_expr m, mask_expr m @ [Dollar], Caret # mask_expr m, Caret # mask_expr m @ [Dollar]}"
    by blast
  then have "re_search True p (runes u)"
    using search_map_glob [OF nl g [unfolded mask_glob_def]] by auto
  moreover have "masks st \<noteq> []" using m by auto
  ultimately show ?thesis using p by (auto simp: regexp_some [OF wf _ valid] re_match_def list_ex_iff)
qed

theorem single_mask_exact_witness:
  "mask_match (fst (mask_add list_env NewUserMaskSet ''b?b!*@*'')) ''bob!x@y'' = mask_glob ''b?b!*@*'' ''bob!x@y''"
  by (rule single_mask_exact [OF list_env_laws])
    (simp_all add: mask_wf_def mask_add_def NewUserMaskSet_def valid_utf8_ascii is_ascii_def runes_ascii)

definition two_masks :: UserMaskSet where
  "two_masks = fst (mask_add list_env (fst (mask_add list_env NewUserMaskSet ''bob!*@*'')) ''ob!*@*'')"

lemma two_masks_facts: "mask_wf list_env two_masks" "masks two_masks = [''bob!*@*'', ''ob!*@*'']"
  by (simp_all add: two_masks_def mask_wf_def mask_add_def NewUserMaskSet_def)

theorem mask_match_complete_witness: "mask_match two_masks ''ob!x@y''"
  by (rule mask_match_complete [OF list_env_laws two_masks_facts(1), of "''ob!*@*''"])
    (simp_all add: two_masks_facts valid_utf8_ascii is_ascii_def runes_ascii mask_glob_def)

text \<open>C39: with two entries the anchors bind too tightly: whatever the order of the entries, a user is
  matched when each entry means only a suffix of the user's mask.\<close>

theorem mask_match_overmatch:
  assumes E: "go_env_laws E" and wf: "mask_wf E st" and m: "masks st = [m1, m2]"
    and valid: "list_all valid_utf8 (masks st)" and nl: "10 \<notin> set (runes u)"
    and g1: "runes u = a @ x" "glob (runes m1) x" and g2: "runes u = b @ y" "glob (runes m2) y"
  shows "mask_match st u"
proof -
  let ?ms = "go_range E (masks st)"
  have mset: "mset ?ms = mset [m1, m2]" using go_env_laws.go_range_mset [OF E] m by metis
  then have ne: "?ms \<noteq> []" by auto
  have "last ?ms \<in> {m1, m2}" using mset ne
    by (metis last_in_set mset_eq_setD set_simps(1) list.set(2))
  then have last: "re_search True (mask_expr (last ?ms) @ [Dollar]) (runes u)"
  proof -
    have "re_search True (mask_expr m1 @ [Dollar]) (runes u)"
      unfolding g1(1) mask_expr_toks by (rule re_search_suffix) (use nl g1 in simp_all)
    moreover have "re_search True (mask_expr m2 @ [Dollar]) (runes u)"
      unfolding g2(1) mask_expr_toks by (rule re_search_suffix) (use nl g2 in simp_all)
    ultimately show ?thesis using \<open>last ?ms \<in> {m1, m2}\<close> by auto
  qed
  have "length ?ms = 2" using mset_eq_length [OF mset] by simp
  then have "butlast ?ms \<noteq> []" by (cases ?ms rule: rev_cases) auto
  then have "mask_expr (last ?ms) @ [Dollar] \<in>
      set (re_alternatives ([Caret] @ join_toks [Bar] (map mask_expr ?ms) @ [Dollar]))"
    unfolding alternatives_expr [OF ne] by (cases "map mask_expr (butlast ?ms)") auto
  with last m show ?thesis
    by (auto simp: regexp_some [OF wf _ valid] re_match_def list_ex_iff)
qed

theorem mask_match_overmatch_witness:
  "mask_match two_masks ''jimbob!x@y'' \<and> \<not> mask_glob ''bob!*@*'' ''jimbob!x@y'' \<and>
   \<not> mask_glob ''ob!*@*'' ''jimbob!x@y''"
proof (intro conjI)
  show "mask_match two_masks ''jimbob!x@y''"
    by (rule mask_match_overmatch [OF list_env_laws two_masks_facts, of _ "runes ''jim''" "runes ''bob!x@y''"
          "runes ''jimb''" "runes ''ob!x@y''"])
      (simp_all add: two_masks_facts valid_utf8_ascii is_ascii_def runes_ascii)
qed (simp_all add: mask_glob_def runes_ascii is_ascii_def)

end
