(* ===== verification/Whowas.thy ===== *)
theory Whowas
  imports Prelude
begin

text \<open>
  src/internal/whowas.go: the ring buffer of the clients that left or changed their nick. The
  read lock is part of the state: \<open>Each\<close> hands the entries over from a goroutine that holds it
  until the last one is taken, and a reader that stops early leaves that goroutine, and the lock,
  behind. \<open>leaked\<close> counts such goroutines; a writer then waits forever.
\<close>

section \<open>The list and its operations\<close>

record WhoWas =
  ww_nickname :: string
  ww_username :: string
  ww_hostname :: string
  ww_hostmask :: string
  ww_realname :: string

text \<open>A slot of the buffer is a pointer, None is nil.\<close>

record WhoWasList =
  ww_buffer :: "WhoWas option list"
  ww_start :: nat
  ww_end :: nat
  leaked :: nat

definition NewWhoWasList :: "nat \<Rightarrow> WhoWasList" where
  "NewWhoWasList n = \<lparr>ww_buffer = replicate n None, ww_start = 0, ww_end = 0, leaked = 0\<rparr>"

definition whowas_append :: "WhoWasList \<Rightarrow> WhoWas \<Rightarrow> WhoWasList outcome" where
  "whowas_append l w =
     (if leaked l > 0 then Blocked
      else if length (ww_buffer l) \<le> ww_end l then Panic
      else let n = length (ww_buffer l);
               e = (ww_end l + 1) mod n;
               s = (if e = ww_start l then (e + 1) mod n else ww_start l)
           in Ret (l\<lparr>ww_buffer := (ww_buffer l)[ww_end l := Some w], ww_end := e, ww_start := s\<rparr>))"

definition whowas_prev :: "nat \<Rightarrow> nat \<Rightarrow> nat" where
  "whowas_prev n index = (if index = 0 then n - 1 else index - 1)"

text \<open>
  The goroutine of \<open>Each\<close>: the slots it sends, in order. The loop runs until it meets the slot
  before \<open>start\<close>; None when it does not within \<open>fuel\<close> steps.
\<close>

fun each_from :: "WhoWas option list \<Rightarrow> nat \<Rightarrow> nat \<Rightarrow> nat \<Rightarrow> WhoWas option list option" where
  "each_from buf 0 i stop = None"
| "each_from buf (Suc fuel) i stop =
     (if i = stop then Some []
      else map_option (\<lambda>rest. buf ! i # rest) (each_from buf fuel (whowas_prev (length buf) i) stop))"

definition whowas_each :: "WhoWasList \<Rightarrow> WhoWas option list option" where
  "whowas_each l =
     (let n = length (ww_buffer l) in
      if ww_start l = ww_end l then Some []
      else each_from (ww_buffer l) (Suc n) (whowas_prev n (ww_end l)) (whowas_prev n (ww_start l)))"

text \<open>
  The loop of \<open>Find\<close> over what it receives: the results, and what it did not receive because it
  stopped at the limit. A nil pointer is dereferenced, which panics.
\<close>

fun find_loop ::
  "string \<Rightarrow> int \<Rightarrow> WhoWas list \<Rightarrow> WhoWas option list \<Rightarrow> (WhoWas list \<times> WhoWas option list) outcome" where
  "find_loop nickname limit results [] = Ret (results, [])"
| "find_loop nickname limit results (None # es) = Panic"
| "find_loop nickname limit results (Some w # es) =
     (if nickname \<noteq> ww_nickname w then find_loop nickname limit results es
      else if int (length (results @ [w])) \<ge> limit then Ret (results @ [w], es)
      else find_loop nickname limit (results @ [w]) es)"

text \<open>
  The goroutine is left waiting when an entry it has still to send exists. An iteration that does
  not end is reported as \<open>Blocked\<close>.
\<close>

definition whowas_find :: "WhoWasList \<Rightarrow> string \<Rightarrow> int \<Rightarrow> (WhoWas list \<times> WhoWasList) outcome" where
  "whowas_find l nickname limit =
     (case whowas_each l of
        None \<Rightarrow> Blocked
      | Some es \<Rightarrow>
          and_then (find_loop nickname limit [] es)
            (\<lambda>(results, rest). Ret (results, if rest = [] then l else l\<lparr>leaked := leaked l + 1\<rparr>)))"

section \<open>The ring as a bounded list\<close>

text \<open>The slot of the entry of age \<open>j\<close> (0 is the newest), and the number of entries.\<close>

definition slot :: "nat \<Rightarrow> nat \<Rightarrow> nat \<Rightarrow> nat" where
  "slot n e j = (if j < e then e - 1 - j else e + n - 1 - j)"

definition ring_count :: "nat \<Rightarrow> nat \<Rightarrow> nat \<Rightarrow> nat" where
  "ring_count n s e = (if s \<le> e then e - s else e + n - s)"

definition ring_list :: "WhoWasList \<Rightarrow> WhoWas option list" where
  "ring_list l =
     (let n = length (ww_buffer l)
      in map (\<lambda>j. ww_buffer l ! slot n (ww_end l) j) [0..<ring_count n (ww_start l) (ww_end l)])"

definition whowas_wf :: "WhoWasList \<Rightarrow> bool" where
  "whowas_wf l \<longleftrightarrow>
     ww_start l < length (ww_buffer l) \<and> ww_end l < length (ww_buffer l) \<and> None \<notin> set (ring_list l)"

lemma each_from_slots:
  assumes "e < length buf" "s < length buf" "j + m = ring_count (length buf) s e"
  shows "each_from buf (Suc (m + k)) (slot (length buf) e j) (whowas_prev (length buf) s) =
    Some (map (\<lambda>i. buf ! slot (length buf) e i) [j..<j + m])"
  using assms(3)
proof (induction m arbitrary: j)
  case 0
  with assms(1,2) have "slot (length buf) e j = whowas_prev (length buf) s"
    by (auto simp: slot_def whowas_prev_def ring_count_def split: if_splits)
  then show ?case by simp
next
  case (Suc m)
  let ?n = "length buf"
  have ne: "slot ?n e j \<noteq> whowas_prev ?n s"
    and nxt: "whowas_prev ?n (slot ?n e j) = slot ?n e (Suc j)"
    using Suc.prems assms(1,2) by (auto simp: slot_def whowas_prev_def ring_count_def split: if_splits)
  have "Suc j + m = ring_count ?n s e" using Suc.prems by simp
  note IH = Suc.IH [OF this]
  have "[j..<j + Suc m] = j # [Suc j..<Suc j + m]" by (simp add: upt_rec)
  with ne nxt IH show ?case by simp
qed

declare each_from.simps [simp del]

text \<open>The iteration always ends, and visits the entries from the newest to the oldest.\<close>

lemma whowas_each_ring:
  assumes "whowas_wf l"
  shows "whowas_each l = Some (ring_list l)"
proof (cases "ww_start l = ww_end l")
  case True
  then show ?thesis by (simp add: whowas_each_def ring_list_def ring_count_def Let_def)
next
  case False
  let ?n = "length (ww_buffer l)" and ?c = "ring_count (length (ww_buffer l)) (ww_start l) (ww_end l)"
  from assms have lt: "ww_end l < ?n" "ww_start l < ?n" by (auto simp: whowas_wf_def)
  then have "?c \<le> ?n" by (auto simp: ring_count_def)
  then have "each_from (ww_buffer l) (Suc ?n) (slot ?n (ww_end l) 0) (whowas_prev ?n (ww_start l)) =
      Some (ring_list l)"
    using each_from_slots [OF lt, of 0 ?c "?n - ?c"] by (simp add: ring_list_def Let_def)
  moreover have "whowas_prev ?n (ww_end l) = slot ?n (ww_end l) 0"
    by (simp add: whowas_prev_def slot_def)
  ultimately show ?thesis using False by (simp add: whowas_each_def Let_def)
qed
section \<open>The contract of the list\<close>

text \<open>
  What a log of the last entries promises its clients: new entries come first, at most \<open>cap\<close> of
  them are kept, and reading changes nothing. The laws are stated through the list of entries.
\<close>

locale recent_log =
  fixes entries :: "'l \<Rightarrow> 'e list"
    and append :: "'l \<Rightarrow> 'e \<Rightarrow> 'l outcome"
    and wf :: "'l \<Rightarrow> bool"
    and free :: "'l \<Rightarrow> bool"
    and cap :: "'l \<Rightarrow> nat"
  assumes append_returns: "wf l \<Longrightarrow> free l \<Longrightarrow> \<exists>l'. append l x = Ret l'"
    and append_keeps: "wf l \<Longrightarrow> append l x = Ret l' \<Longrightarrow> wf l' \<and> free l' \<and> cap l' = cap l"
    and append_entries: "wf l \<Longrightarrow> append l x = Ret l' \<Longrightarrow> entries l' = take (cap l) (x # entries l)"
    and entries_bound: "wf l \<Longrightarrow> length (entries l) \<le> cap l"
begin

primrec append_all :: "'l \<Rightarrow> 'e list \<Rightarrow> 'l outcome" where
  "append_all l [] = Ret l"
| "append_all l (x # xs) = and_then (append l x) (\<lambda>l'. append_all l' xs)"

lemma append_all_entries:
  "wf l \<Longrightarrow> free l \<Longrightarrow> \<exists>l'. append_all l xs = Ret l' \<and> wf l' \<and> free l' \<and> cap l' = cap l \<and>
     entries l' = take (cap l) (rev xs @ entries l)"
proof (induction xs arbitrary: l)
  case Nil
  then show ?case using entries_bound by simp
next
  case (Cons x xs)
  then obtain m where m: "append l x = Ret m" using append_returns by blast
  with Cons.prems have km: "wf m" "free m" "cap m = cap l" "entries m = take (cap l) (x # entries l)"
    using append_keeps append_entries by blast+
  have "take (cap l) (rev xs @ take (cap l) (x # entries l)) = take (cap l) (rev xs @ x # entries l)"
    by (simp add: take_Cons' min_def)
  with Cons.IH [OF km(1,2)] km m show ?case by auto
qed

lemma append_all_last:
  assumes "wf l" "free l" "cap l \<le> length xs" "append_all l xs = Ret l'"
  shows "entries l' = rev (drop (length xs - cap l) xs)"
  using append_all_entries [OF assms(1,2), of xs] assms(3,4) by (auto simp: take_rev)

end

section \<open>The ring buffer keeps the contract\<close>

definition whowas_entries :: "WhoWasList \<Rightarrow> WhoWas list" where
  "whowas_entries l = map the (ring_list l)"

definition whowas_free :: "WhoWasList \<Rightarrow> bool" where
  "whowas_free l \<longleftrightarrow> leaked l = 0"

definition whowas_cap :: "WhoWasList \<Rightarrow> nat" where
  "whowas_cap l = length (ww_buffer l) - 1"

lemma mod_Suc_eq: "(e :: nat) < n \<Longrightarrow> (e + 1) mod n = (if e + 1 = n then 0 else e + 1)"
  by (cases "e + 1 = n") auto

lemma append_ring:
  assumes wf: "whowas_wf l" and app: "whowas_append l w = Ret l'"
  shows "ring_list l' = take (length (ww_buffer l) - 1) (Some w # ring_list l)"
    and "ww_start l' < length (ww_buffer l')" "ww_end l' < length (ww_buffer l')"
    and "length (ww_buffer l') = length (ww_buffer l)" "leaked l' = 0" "leaked l = 0"
proof -
  let ?n = "length (ww_buffer l)" and ?s = "ww_start l" and ?e = "ww_end l"
  have lt: "?s < ?n" "?e < ?n" "0 < ?n" using wf by (auto simp: whowas_wf_def)
  define e' where "e' = (?e + 1) mod ?n"
  define s' where "s' = (if e' = ?s then (e' + 1) mod ?n else ?s)"
  have l': "l' = l\<lparr>ww_buffer := (ww_buffer l)[?e := Some w], ww_end := e', ww_start := s'\<rparr>"
    and free: "leaked l = 0"
    using app lt by (auto simp: whowas_append_def Let_def e'_def s'_def split: if_splits)
  show "ww_start l' < length (ww_buffer l')" "ww_end l' < length (ww_buffer l')"
    "length (ww_buffer l') = ?n" "leaked l' = 0" "leaked l = 0"
    using lt free by (auto simp: l' e'_def s'_def)
  have e': "e' = (if ?e + 1 = ?n then 0 else ?e + 1)" using lt by (simp only: e'_def mod_Suc_eq)
  have "e' < ?n" using lt by (simp add: e'_def)
  then have s': "s' = (if e' = ?s then (if e' + 1 = ?n then 0 else e' + 1) else ?s)"
    by (simp only: s'_def mod_Suc_eq)
  have count: "ring_count ?n s' e' = min (?n - 1) (Suc (ring_count ?n ?s ?e))"
    using lt by (auto simp: ring_count_def e' s')
  show "ring_list l' = take (?n - 1) (Some w # ring_list l)"
  proof (rule nth_equalityI)
    show len: "length (ring_list l') = length (take (?n - 1) (Some w # ring_list l))"
      by (simp add: ring_list_def l' Let_def count)
    fix j assume "j < length (ring_list l')"
    then have j: "j < ?n - 1" "j < Suc (ring_count ?n ?s ?e)" "j < ring_count ?n s' e'"
      by (simp_all add: ring_list_def l' Let_def count)
    then have "ring_list l' ! j = (ww_buffer l)[?e := Some w] ! slot ?n e' j"
      by (simp add: ring_list_def l' Let_def)
    also have "\<dots> = (Some w # ring_list l) ! j"
    proof (cases j)
      case 0
      have "slot ?n e' 0 = ?e" using lt by (auto simp: slot_def e')
      with 0 lt show ?thesis by simp
    next
      case (Suc i)
      have "slot ?n e' (Suc i) = slot ?n ?e i" "slot ?n ?e i \<noteq> ?e"
        using lt j Suc by (auto simp: slot_def e')
      with Suc j show ?thesis by (simp add: ring_list_def Let_def)
    qed
    also have "\<dots> = take (?n - 1) (Some w # ring_list l) ! j" using j by simp
    finally show "ring_list l' ! j = take (?n - 1) (Some w # ring_list l) ! j" .
  qed
qed

lemma append_wf: "whowas_wf l \<Longrightarrow> whowas_append l w = Ret l' \<Longrightarrow> whowas_wf l'"
  using append_ring [of l w l'] by (auto simp: whowas_wf_def dest: in_set_takeD)

lemma ring_list_length: "whowas_wf l \<Longrightarrow> length (ring_list l) \<le> whowas_cap l"
  by (auto simp: whowas_wf_def ring_list_def whowas_cap_def ring_count_def Let_def)

interpretation whowas_log: recent_log whowas_entries whowas_append whowas_wf whowas_free whowas_cap
proof
  show "\<exists>l'. whowas_append l w = Ret l'" if "whowas_wf l" "whowas_free l" for l w
    using that by (auto simp: whowas_append_def whowas_wf_def whowas_free_def Let_def)
  show "whowas_wf l' \<and> whowas_free l' \<and> whowas_cap l' = whowas_cap l"
    if "whowas_wf l" "whowas_append l w = Ret l'" for l w l'
    using that append_wf [OF that] append_ring [OF that] by (simp add: whowas_free_def whowas_cap_def)
  show "whowas_entries l' = take (whowas_cap l) (w # whowas_entries l)"
    if "whowas_wf l" "whowas_append l w = Ret l'" for l w l'
  proof -
    have "w # map the (ring_list l) = map the (Some w # ring_list l)" by simp
    then show ?thesis
      using append_ring(1) [OF that] by (simp only: whowas_entries_def whowas_cap_def take_map)
  qed
  show "length (whowas_entries l) \<le> whowas_cap l" if "whowas_wf l" for l
    using ring_list_length [OF that] by (simp add: whowas_entries_def)
qed

lemma new_wf: "0 < n \<Longrightarrow> whowas_wf (NewWhoWasList n) \<and> whowas_free (NewWhoWasList n) \<and>
    whowas_cap (NewWhoWasList n) = n - 1 \<and> whowas_entries (NewWhoWasList n) = []"
  by (auto simp: whowas_wf_def whowas_free_def whowas_cap_def whowas_entries_def NewWhoWasList_def
      ring_list_def ring_count_def)

section \<open>What WHOWAS reads\<close>

primrec whowas_append_all :: "WhoWasList \<Rightarrow> WhoWas list \<Rightarrow> WhoWasList outcome" where
  "whowas_append_all l [] = Ret l"
| "whowas_append_all l (w # ws) = and_then (whowas_append l w) (\<lambda>l'. whowas_append_all l' ws)"

lemma whowas_append_all_log: "whowas_append_all l ws = whowas_log.append_all l ws"
proof (induction ws arbitrary: l)
  case (Cons w ws)
  then show ?case by (cases "whowas_append l w") auto
qed simp

text \<open>C36: a list of size \<open>n > 0\<close> that nobody has locked accepts any entries in turn, and what
  \<open>Each\<close> then hands over are the last \<open>n - 1\<close> of them, the newest first.\<close>

theorem whowas_keeps_recent:
  assumes "0 < n"
  shows "\<exists>l. whowas_append_all (NewWhoWasList n) ws = Ret l \<and>
    whowas_each l = Some (map Some (take (n - 1) (rev ws)))"
proof -
  from new_wf [OF assms(1)] whowas_log.append_all_entries [of "NewWhoWasList n" ws] obtain l
    where l: "whowas_log.append_all (NewWhoWasList n) ws = Ret l" "whowas_wf l"
      "whowas_entries l = take (n - 1) (rev ws)"
    by auto
  have "map Some (whowas_entries l) = ring_list l"
    using l(2) by (auto simp: whowas_entries_def whowas_wf_def intro!: map_idI) (metis option.collapse)
  with l show ?thesis using whowas_each_ring by (simp add: whowas_append_all_log)
qed

definition some_entry :: "string \<Rightarrow> WhoWas" where
  "some_entry nick = \<lparr>ww_nickname = nick, ww_username = nick, ww_hostname = ''h'', ww_hostmask = ''m'',
     ww_realname = ''r''\<rparr>"

theorem whowas_keeps_recent_witness:
  "\<exists>l. whowas_append_all (NewWhoWasList 3) (map some_entry [''a'', ''b'', ''c'']) = Ret l \<and>
     whowas_each l = Some (map Some [some_entry ''c'', some_entry ''b''])"
  using whowas_keeps_recent [of 3 "map some_entry [''a'', ''b'', ''c'']"] by simp

text \<open>With a limit below 1 the loop still stops after its first result.\<close>

lemma find_loop_results:
  assumes "length acc < nat (max 1 limit)" "find_loop nick limit acc (map Some ws) = Ret (results, rest)"
  shows "results = acc @ take (nat (max 1 limit) - length acc) (filter (\<lambda>w. ww_nickname w = nick) ws)"
  using assms
proof (induction ws arbitrary: acc)
  case (Cons w ws)
  show ?case
  proof (cases "nick = ww_nickname w")
    case True
    show ?thesis
    proof (cases "int (length (acc @ [w])) \<ge> limit")
      case stop: True
      then have "nat (max 1 limit) - length acc = 1" using Cons.prems(1) by auto
      with True stop Cons.prems show ?thesis by auto
    next
      case False
      then have lt: "length (acc @ [w]) < nat (max 1 limit)" by auto
      have "find_loop nick limit (acc @ [w]) (map Some ws) = Ret (results, rest)"
        using Cons.prems(2) True False by simp
      from Cons.IH [OF lt this] True lt show ?thesis by (simp add: take_Cons')
    qed
  next
    case False
    then have "find_loop nick limit acc (map Some ws) = Ret (results, rest)"
      using Cons.prems(2) by simp
    from Cons.IH [OF Cons.prems(1) this] False show ?thesis by simp
  qed
qed simp

lemma find_loop_returns: "\<exists>results rest. find_loop nick limit acc (map Some ws) = Ret (results, rest)"
  by (induction ws arbitrary: acc) auto

text \<open>What is left unread when the loop has stopped: the entries after the last result.\<close>

lemma find_loop_rest:
  assumes "find_loop nick limit acc (map Some ws) = Ret (results, rest)" "rest \<noteq> []"
  shows "\<exists>us v vs. ws = us @ v # vs \<and> rest = map Some vs \<and> ww_nickname v = nick \<and> last results = v"
  using assms
proof (induction ws arbitrary: acc)
  case (Cons w ws)
  show ?case
  proof (cases "nick = ww_nickname w \<and> int (length (acc @ [w])) \<ge> limit")
    case True
    with Cons.prems show ?thesis by (intro exI [of _ "[]"]) auto
  next
    case False
    with Cons.prems obtain acc' where "find_loop nick limit acc' (map Some ws) = Ret (results, rest)"
      by (auto split: if_splits)
    from Cons.IH [OF this Cons.prems(2)] show ?thesis by (metis append_Cons)
  qed
qed simp

lemma ring_list_entries: "whowas_wf l \<Longrightarrow> ring_list l = map Some (whowas_entries l)"
  unfolding whowas_entries_def whowas_wf_def map_map
  by (rule map_idI [symmetric]) (metis comp_apply option.collapse)

text \<open>A query always returns, with the newest matching entries: as many as the limit allows, and
  one when the limit is zero or negative; it never changes what the list holds.\<close>

theorem whowas_find_results:
  assumes "whowas_wf l"
  shows "\<exists>l'. whowas_find l nick limit =
    Ret (take (nat (max 1 limit)) (filter (\<lambda>w. ww_nickname w = nick) (whowas_entries l)), l') \<and>
    whowas_entries l' = whowas_entries l"
proof -
  have each: "whowas_each l = Some (map Some (whowas_entries l))"
    using whowas_each_ring [OF assms] ring_list_entries [OF assms] by simp
  obtain results rest where f: "find_loop nick limit [] (map Some (whowas_entries l)) = Ret (results, rest)"
    using find_loop_returns by blast
  have "results = take (nat (max 1 limit)) (filter (\<lambda>w. ww_nickname w = nick) (whowas_entries l))"
    using find_loop_results [OF _ f] by simp
  moreover have "whowas_entries (l\<lparr>leaked := k\<rparr>) = whowas_entries l" for k
    by (simp add: whowas_entries_def ring_list_def)
  ultimately show ?thesis using each f by (simp add: whowas_find_def)
qed

lemma whowas_find_returns: "whowas_wf l \<Longrightarrow> \<exists>results l'. whowas_find l nick limit = Ret (results, l')"
  using whowas_each_ring [of l] ring_list_entries [of l] find_loop_returns [of nick limit "[]" "whowas_entries l"]
  by (auto simp: whowas_find_def)

definition three_entries :: WhoWasList where
  "three_entries =
     \<lparr>ww_buffer = [Some (some_entry ''a''), Some (some_entry ''b''), Some (some_entry ''a''), None],
      ww_start = 0, ww_end = 3, leaked = 0\<rparr>"

lemma three_entries_ring:
  "ring_list three_entries = [Some (some_entry ''a''), Some (some_entry ''b''), Some (some_entry ''a'')]"
  by (simp add: ring_list_def three_entries_def ring_count_def slot_def upt_rec numeral_2_eq_2)

lemma three_entries_wf: "whowas_wf three_entries"
  unfolding whowas_wf_def three_entries_ring by (simp add: three_entries_def)

theorem whowas_find_results_witness:
  "\<exists>l'. whowas_find three_entries ''a'' 0 = Ret ([some_entry ''a''], l')"
  using whowas_find_results [OF three_entries_wf, of "''a''" 0]
  by (auto simp: whowas_entries_def three_entries_ring some_entry_def)

text \<open>C37: a query that stops at its limit before the oldest entry leaves the read lock taken, and
  from then on every append, that is every departure and every change of nick, waits forever.\<close>

theorem whowas_find_blocks_append:
  assumes wf: "whowas_wf l"
    and entries: "whowas_entries l = us @ v # vs" and vs: "vs \<noteq> []"
    and v: "ww_nickname v = nick" and us: "filter (\<lambda>w. ww_nickname w = nick) us = []"
    and limit: "limit \<le> 1"
  shows "\<exists>l'. whowas_find l nick limit = Ret ([v], l') \<and> (\<forall>w. whowas_append l' w = Blocked)"
proof -
  have each: "whowas_each l = Some (map Some (whowas_entries l))"
    using whowas_each_ring [OF wf] ring_list_entries [OF wf] by simp
  have "find_loop nick limit [] (map Some (us @ v # vs)) = Ret ([v], map Some vs)"
    using us v limit by (induction us) (auto split: if_splits)
  with each entries vs show ?thesis by (simp add: whowas_find_def whowas_append_def)
qed

theorem whowas_find_blocks_append_witness:
  "\<exists>l'. whowas_find three_entries ''a'' 1 = Ret ([some_entry ''a''], l') \<and>
     (\<forall>w. whowas_append l' w = Blocked)"
  by (rule whowas_find_blocks_append [OF three_entries_wf, of "[]" _ "[some_entry ''b'', some_entry ''a'']"])
    (simp_all add: whowas_entries_def three_entries_ring some_entry_def)

end
