(* ===== verification/Password.thy ===== *)
theory Password
  imports Go_Env "HOL-Library.AList"
begin

text \<open>
  src/internal/password.go, and the part of config.go that turns configured passwords into the
  bytes the server compares. Passwords are stored as the base64 text of a bcrypt hash;
  \<open>encoding/base64\<close> is modelled, the comparison of bcrypt is a parameter (\<open>bcrypt_ok\<close>).
\<close>

section \<open>Base64\<close>

definition b64_alphabet :: string where
  "b64_alphabet = ''ABCDEFGHIJKLMNOPQRSTUVWXYZabcdefghijklmnopqrstuvwxyz0123456789+/''"

fun position :: "'a \<Rightarrow> 'a list \<Rightarrow> nat option" where
  "position x [] = None"
| "position x (y # ys) = (if x = y then Some 0 else map_option Suc (position x ys))"

definition b64_value :: "char \<Rightarrow> nat option" where
  "b64_value c = position c b64_alphabet"

text \<open>The bytes of one quantum, from its four values.\<close>

definition b64_byte1 :: "nat \<Rightarrow> nat \<Rightarrow> char" where
  "b64_byte1 a b = char_of (a * 4 + b div 16)"

definition b64_byte2 :: "nat \<Rightarrow> nat \<Rightarrow> char" where
  "b64_byte2 b c = char_of ((b mod 16) * 16 + c div 4)"

definition b64_byte3 :: "nat \<Rightarrow> nat \<Rightarrow> char" where
  "b64_byte3 c d = char_of ((c mod 4) * 64 + d)"

fun b64_quanta :: "string \<Rightarrow> string option" where
  "b64_quanta [] = Some []"
| "b64_quanta (a # b # c # d # rest) =
     (case (b64_value a, b64_value b) of
        (Some va, Some vb) \<Rightarrow>
          if c = CHR ''='' then (if d = CHR ''='' \<and> rest = [] then Some [b64_byte1 va vb] else None)
          else (case b64_value c of
             None \<Rightarrow> None
           | Some vc \<Rightarrow>
               if d = CHR ''='' then (if rest = [] then Some [b64_byte1 va vb, b64_byte2 vb vc] else None)
               else (case b64_value d of
                  None \<Rightarrow> None
                | Some vd \<Rightarrow>
                    map_option (\<lambda>out. b64_byte1 va vb # b64_byte2 vb vc # b64_byte3 vc vd # out)
                      (b64_quanta rest)))
      | _ \<Rightarrow> None)"
| "b64_quanta _ = None"

text \<open>\<open>StdEncoding.DecodeString\<close>: line ends are skipped wherever they stand.\<close>

definition b64_decode :: "string \<Rightarrow> string option" where
  "b64_decode s = b64_quanta (filter (\<lambda>c. c \<noteq> CHR 0x0A \<and> c \<noteq> CHR 0x0D) s)"

section \<open>The hasher and the store\<close>

text \<open>
  \<open>Base64BCryptPasswordHasher.Decode\<close>: the buffer has \<open>DecodedLen\<close> bytes, those beyond the decoded
  data stay zero.
\<close>

definition hasher_Decode :: "string option \<Rightarrow> string option" where
  "hasher_Decode encoded =
     (case encoded of
        None \<Rightarrow> None
      | Some enc \<Rightarrow>
          map_option (\<lambda>out. out @ replicate (length enc div 4 * 3 - length out) (CHR 0x00)) (b64_decode enc))"

text \<open>
  \<open>Encode\<close>: the result \<open>encoded\<close> is nil when \<open>StdEncoding.Encode\<close> writes to it, which panics unless
  there is nothing to write. \<open>generated\<close> is what \<open>GenerateFromPassword\<close> returns, None its error.
\<close>

definition hasher_Encode :: "string option \<Rightarrow> string option \<Rightarrow> (string option) option outcome" where
  "hasher_Encode password generated =
     (case password of
        None \<Rightarrow> Ret None
      | Some _ \<Rightarrow> (case generated of
          None \<Rightarrow> Ret None
        | Some hash \<Rightarrow> if hash \<noteq> [] then Panic else Ret (Some None)))"

definition hasher_Compare :: "'t go_env \<Rightarrow> string option \<Rightarrow> string \<Rightarrow> bool" where
  "hasher_Compare E encoded password =
     (case hasher_Decode encoded of None \<Rightarrow> False | Some decoded \<Rightarrow> bcrypt_ok E decoded password)"

definition store_Get :: "(string \<times> string) list \<Rightarrow> string \<Rightarrow> string option" where
  "store_Get passwords username = map_of passwords username"

text \<open>\<open>Verify\<close>, True when it returns no error.\<close>

definition store_Verify :: "'t go_env \<Rightarrow> (string \<times> string) list \<Rightarrow> string \<Rightarrow> string \<Rightarrow> bool" where
  "store_Verify E passwords username password =
     (case store_Get passwords username of
        None \<Rightarrow> False
      | Some hash \<Rightarrow> hasher_Compare E (Some hash) password)"

definition DecodePassword :: "string \<Rightarrow> string option" where
  "DecodePassword encoded = (if encoded = [] then None else b64_decode encoded)"

text \<open>\<open>ComparePassword\<close>, True when it returns no error.\<close>

definition ComparePassword :: "'t go_env \<Rightarrow> string \<Rightarrow> string \<Rightarrow> bool" where
  "ComparePassword E hash password = bcrypt_ok E hash password"

section \<open>Base64 reads back what an encoder writes\<close>

definition b64_char :: "nat \<Rightarrow> char" where
  "b64_char v = b64_alphabet ! v"

text \<open>Reference encoder.\<close>

fun b64_encode :: "string \<Rightarrow> string" where
  "b64_encode [] = []"
| "b64_encode [x] =
     (let a = of_char x in [b64_char (a div 4), b64_char (a mod 4 * 16), CHR ''='', CHR ''=''])"
| "b64_encode [x, y] =
     (let a = of_char x; b = of_char y
      in [b64_char (a div 4), b64_char (a mod 4 * 16 + b div 16), b64_char (b mod 16 * 4), CHR ''=''])"
| "b64_encode (x # y # z # rest) =
     (let a = of_char x; b = of_char y; c = of_char z
      in b64_char (a div 4) # b64_char (a mod 4 * 16 + b div 16) # b64_char (b mod 16 * 4 + c div 64)
         # b64_char (c mod 64) # b64_encode rest)"

lemma position_nth: "distinct xs \<Longrightarrow> i < length xs \<Longrightarrow> position (xs ! i) xs = Some i"
proof (induction xs arbitrary: i)
  case (Cons x xs)
  then show ?case by (cases i) (auto simp: nth_Cons')
qed simp

lemma alphabet_distinct: "distinct b64_alphabet"
  by (simp add: b64_alphabet_def)

lemma alphabet_length: "length b64_alphabet = 64"
  by (simp add: b64_alphabet_def)

lemma alphabet_chars: "set b64_alphabet \<inter> {CHR ''='', CHR 0x0A, CHR 0x0D} = {}"
  by (simp add: b64_alphabet_def)

lemma b64_char_in: "v < 64 \<Longrightarrow> b64_char v \<in> set b64_alphabet"
  by (simp add: b64_char_def alphabet_length)

lemma b64_char_ne: "v < 64 \<Longrightarrow> b64_char v \<noteq> CHR ''='' \<and> b64_char v \<noteq> CHR 0x0A \<and> b64_char v \<noteq> CHR 0x0D"
  using b64_char_in [of v] alphabet_chars by auto

lemma b64_value_char: "v < 64 \<Longrightarrow> b64_value (b64_char v) = Some v"
  by (simp add: b64_value_def b64_char_def position_nth alphabet_distinct alphabet_length)

lemma byte_bound: "of_char (c :: char) < (256 :: nat)"
  using of_char_mod_256 [of c, where 'a = nat] by (metis mod_less_divisor zero_less_numeral)

lemma six_bits:
  "(a :: nat) < 256 \<Longrightarrow> a div 4 < 64"
  "b < 256 \<Longrightarrow> a mod 4 * 16 + b div 16 < (64 :: nat)"
  "a mod 4 * 16 < (64 :: nat)" "a mod 16 * 4 < (64 :: nat)"
  "b < 256 \<Longrightarrow> a mod 16 * 4 + b div 64 < (64 :: nat)" "a mod 64 < (64 :: nat)"
  by linarith+

lemmas six_bits_char = six_bits(1) [OF byte_bound] six_bits(2) [OF byte_bound] six_bits(3,4)
  six_bits(5) [OF byte_bound] six_bits(6)

lemma b64_bytes:
  assumes "a < 256" "b < 256" "c < 256"
  shows "b64_byte1 (a div 4) (a mod 4 * 16 + b div 16) = char_of a"
    "b64_byte1 (a div 4) (a mod 4 * 16) = char_of a"
    "b64_byte2 (a mod 4 * 16 + b div 16) (b mod 16 * 4 + c div 64) = char_of b"
    "b64_byte2 (a mod 4 * 16 + b div 16) (b mod 16 * 4) = char_of b"
    "b64_byte3 (b mod 16 * 4 + c div 64) (c mod 64) = char_of c"
proof -
  have d: "b div 16 < 16" "c div 64 < 4" using assms by linarith+
  have "a div 4 * 4 + (a mod 4 * 16 + b div 16) div 16 = a"
    "a div 4 * 4 + (a mod 4 * 16) div 16 = a" using d by simp_all
  then show "b64_byte1 (a div 4) (a mod 4 * 16 + b div 16) = char_of a"
    "b64_byte1 (a div 4) (a mod 4 * 16) = char_of a" by (simp_all only: b64_byte1_def)
  have m: "(a mod 4 * 16 + b div 16) mod 16 = b div 16" using d by simp
  have q: "(b mod 16 * 4 + c div 64) div 4 = b mod 16" "(b mod 16 * 4) div 4 = b mod 16"
    using d by simp_all
  show "b64_byte2 (a mod 4 * 16 + b div 16) (b mod 16 * 4 + c div 64) = char_of b"
    "b64_byte2 (a mod 4 * 16 + b div 16) (b mod 16 * 4) = char_of b"
    unfolding b64_byte2_def m q by simp_all
  have "(b mod 16 * 4 + c div 64) mod 4 = c div 64" using d by simp
  then show "b64_byte3 (b mod 16 * 4 + c div 64) (c mod 64) = char_of c"
    unfolding b64_byte3_def by simp
qed

lemma b64_bytes_char:
  "b64_byte1 (of_char x div 4) (of_char x mod 4 * 16 + of_char y div 16) = x"
  "b64_byte1 (of_char x div 4) (of_char x mod 4 * 16) = x"
  "b64_byte2 (of_char x mod 4 * 16 + of_char y div 16) (of_char y mod 16 * 4 + of_char z div 64) = y"
  "b64_byte2 (of_char x mod 4 * 16 + of_char y div 16) (of_char y mod 16 * 4) = y"
  "b64_byte3 (of_char y mod 16 * 4 + of_char z div 64) (of_char z mod 64) = z"
  by (simp_all add: b64_bytes [OF byte_bound byte_bound byte_bound])

lemma b64_quanta_encode: "b64_quanta (b64_encode s) = Some s"
  by (induction s rule: b64_encode.induct)
    (simp_all add: Let_def b64_value_char six_bits_char b64_bytes_char b64_char_ne)

lemma b64_encode_chars: "set (b64_encode s) \<subseteq> insert (CHR ''='') (set b64_alphabet)"
  by (induction s rule: b64_encode.induct)
    (simp_all add: Let_def b64_char_in six_bits_char)

lemma b64_decode_encode: "b64_decode (b64_encode s) = Some s"
proof -
  have "filter (\<lambda>c. c \<noteq> CHR 0x0A \<and> c \<noteq> CHR 0x0D) (b64_encode s) = b64_encode s"
    using b64_encode_chars [of s] alphabet_chars by (intro filter_True) auto
  then show ?thesis by (simp add: b64_decode_def b64_quanta_encode)
qed

lemma b64_encode_length: "length (b64_encode s) = (length s + 2) div 3 * 4"
proof (induction s rule: b64_encode.induct)
  case (4 x y z rest)
  have "(length (x # y # z # rest) + 2) div 3 = Suc ((length rest + 2) div 3)" by simp
  with 4 show ?case by (simp add: Let_def)
qed (simp_all add: Let_def)

text \<open>An account whose password is the base64 text of a hash is verified exactly when bcrypt
  accepts that hash, filled up with zero bytes to a multiple of three bytes: for a bcrypt hash, of
  60 bytes, that is the hash itself.\<close>

theorem account_verified:
  assumes "map_of accounts user = Some (b64_encode hash)"
  shows "store_Verify E accounts user pw =
    bcrypt_ok E (hash @ replicate ((length hash + 2) div 3 * 3 - length hash) (CHR 0x00)) pw"
  using assms
  by (simp add: store_Verify_def store_Get_def hasher_Compare_def hasher_Decode_def
      b64_decode_encode b64_encode_length)

theorem account_verified_witness:
  "store_Verify list_env [(''bob'', b64_encode ''key'')] ''bob'' ''key'' \<and>
   \<not> store_Verify list_env [(''bob'', b64_encode ''key'')] ''bob'' ''other''"
  using account_verified [of "[(''bob'', b64_encode ''key'')]" "''bob''" "''key''" list_env]
  by (simp add: list_env_def)

end
