(* ===== verification/Configuration.thy ===== *)
theory Configuration
  imports Names Password
begin

text \<open>
  The operations of src/internal/config.go: the check of a configuration that was loaded, the maps of
  operators and accounts, and the lists of addresses the web page shows. Reading YAML and merging two
  configurations are calls of libraries, the fields \<open>yaml_config\<close> and \<open>merge_config\<close> of the
  environment. \<open>log.Fatal\<close> ends the process and is \<open>Panic\<close>.
\<close>

section \<open>Passwords\<close>

definition PasswordBytes :: "string \<Rightarrow> string outcome" where
  "PasswordBytes password = (case DecodePassword password of None \<Rightarrow> Panic | Some bytes \<Rightarrow> Ret bytes)"

definition Operators :: "'t go_env \<Rightarrow> Config \<Rightarrow> (string \<times> string) list outcome" where
  "Operators E conf =
     iterate (\<lambda>(name, opConf) m. case opConf of
                 None \<Rightarrow> Panic
               | Some password \<Rightarrow>
                   and_then (PasswordBytes password) (\<lambda>pw. Ret (AList.update (NewName E name) pw m)))
       (go_range E (cfg_operators conf)) []"

definition Accounts :: "'t go_env \<Rightarrow> Config \<Rightarrow> (string \<times> string) list outcome" where
  "Accounts E conf =
     iterate (\<lambda>(name, account) m. case account of
                 None \<Rightarrow> Panic
               | Some password \<Rightarrow> Ret (AList.update name password m))
       (go_range E (cfg_accounts conf)) []"

section \<open>Loading\<close>

datatype config_error = ReadError | YamlError | NetworkNameMissing | ServerNameMissing | ServerNameInvalid
  | ListenMissing

text \<open>
  \<open>yaml_config\<close> gives None for an error, and the pointer \<open>Unmarshal\<close> leaves in \<open>config\<close> otherwise: a
  document without content leaves nil, and the assignment to its \<open>filename\<close> panics.
\<close>

definition LoadConfig ::
  "'t go_env \<Rightarrow> (string \<Rightarrow> string option) \<Rightarrow> string \<Rightarrow> (config_error + Config) outcome" where
  "LoadConfig E files filename =
     (case files filename of
        None \<Rightarrow> Ret (Inl ReadError)
      | Some data \<Rightarrow>
          case yaml_config E data of
            None \<Rightarrow> Ret (Inl YamlError)
          | Some None \<Rightarrow> Panic
          | Some (Some parsed) \<Rightarrow>
              let config = parsed\<lparr>cfg_filename := filename\<rparr> in
              Ret (if cfg_network config = [] then Inl NetworkNameMissing
                   else if cfg_name config = [] then Inl ServerNameMissing
                   else if \<not> IsHostname E (cfg_name config) then Inl ServerNameInvalid
                   else if length (cfg_listen config) + length (cfg_tls_listen config) +
                           length (cfg_i2p_listen config) + length (cfg_tor_listen config) = 0
                   then Inl ListenMissing
                   else Inr config))"

section \<open>Addresses\<close>

definition addr_line :: "string \<Rightarrow> string" where
  "addr_line addr = addr @ [CHR 0x0A]"

definition WWWAddrs :: "Config \<Rightarrow> string" where
  "WWWAddrs conf = fold (\<lambda>addr s. s @ addr_line addr) (cfg_www_listen conf) []"

definition IRCAddrs :: "Config \<Rightarrow> string" where
  "IRCAddrs conf = fold (\<lambda>addr s. s @ addr_line addr) (cfg_listen conf) []"

definition TLSWWWAddrs :: "'t go_env \<Rightarrow> Config \<Rightarrow> string" where
  "TLSWWWAddrs E conf =
     fold (\<lambda>(addr, _) s. s @ addr_line addr) (go_range E (cfg_www_tls_listen conf)) []"

definition TLSIRCAddrs :: "'t go_env \<Rightarrow> Config \<Rightarrow> string" where
  "TLSIRCAddrs E conf =
     fold (\<lambda>(addr, _) s. s @ addr_line addr) (go_range E (cfg_tls_listen conf)) []"

definition I2PWWWAddrs :: "'t go_env \<Rightarrow> Config \<Rightarrow> string outcome" where
  "I2PWWWAddrs E conf =
     iterate (\<lambda>(addr, i2pconfig) s. case i2pconfig of
                 None \<Rightarrow> Panic
               | Some i2p \<Rightarrow> Ret (s @ addr_line (addr @ '': '' @ i2p_base32 i2p)))
       (go_range E (cfg_www_i2p_listen conf)) []"

definition I2PIRCAddrs :: "'t go_env \<Rightarrow> Config \<Rightarrow> string outcome" where
  "I2PIRCAddrs E conf =
     iterate (\<lambda>(addr, i2pconfig) s. case i2pconfig of
                 None \<Rightarrow> Panic
               | Some i2p \<Rightarrow> Ret (s @ addr_line (addr @ '': '' @ i2p_base32 i2p)))
       (go_range E (cfg_i2p_listen conf)) []"

definition TorWWWAddrs :: "'t go_env \<Rightarrow> Config \<Rightarrow> string outcome" where
  "TorWWWAddrs E conf =
     iterate (\<lambda>(addr, torconfig) s. case torconfig of
                 None \<Rightarrow> Panic
               | Some tor \<Rightarrow> Ret (s @ addr_line (addr @ '': '' @ tor_onion tor)))
       (go_range E (cfg_www_tor_listen conf)) []"

definition TorIRCAddrs :: "'t go_env \<Rightarrow> Config \<Rightarrow> string outcome" where
  "TorIRCAddrs E conf =
     iterate (\<lambda>(addr, torconfig) s. case torconfig of
                 None \<Rightarrow> Panic
               | Some tor \<Rightarrow> Ret (s @ addr_line (addr @ '': '' @ tor_onion tor)))
       (go_range E (cfg_tor_listen conf)) []"

section \<open>What loading ensures\<close>

text \<open>The error that LoadConfig reports, or none: the first of the conditions that fails.\<close>

definition config_ok :: "'t go_env \<Rightarrow> Config \<Rightarrow> bool" where
  "config_ok E config \<longleftrightarrow> cfg_network config \<noteq> [] \<and> IsHostname E (cfg_name config) \<and>
     (cfg_listen config \<noteq> [] \<or> cfg_tls_listen config \<noteq> [] \<or> cfg_i2p_listen config \<noteq> [] \<or> cfg_tor_listen config \<noteq> [])"

lemma IsHostname_nonempty: "IsHostname E s \<Longrightarrow> s \<noteq> []"
  by (auto simp: IsHostname_def)

lemma LoadConfig_cases:
  "LoadConfig E files filename = Panic \<longleftrightarrow> (\<exists>data. files filename = Some data \<and> yaml_config E data = Some None)"
  "LoadConfig E files filename \<noteq> Blocked"
  "LoadConfig E files filename = Ret (Inr config) \<longleftrightarrow>
     (\<exists>data parsed. files filename = Some data \<and> yaml_config E data = Some (Some parsed) \<and>
        config = parsed\<lparr>cfg_filename := filename\<rparr> \<and> config_ok E config)"
  by (auto simp: LoadConfig_def Let_def config_ok_def IsHostname_nonempty split: option.splits if_splits)

end
