(* ===== verification/State.thy ===== *)
theory State
  imports Command Masks Whowas Configuration
begin

text \<open>
  The state of the server: the structs \<open>Client\<close> (client.go), \<open>Channel\<close> (channel.go), \<open>SaslState\<close>
  (sasl.go) and \<open>Server\<close> (server.go). Structs are reached through pointers, so the world holds
  one store of clients and one of channels, indexed by pointer; a nil pointer is \<open>None\<close> where one
  can occur. What the server writes to its clients is the list \<open>w_out\<close>, in the order in which the
  replies are handed to the clients' reply channels.

  The second half models \<open>ClientLookupSet\<close> (client_lookup.go) and the functions of client.go that
  only read or set fields.
\<close>

section \<open>SASL state\<close>

record SaslState =
  sasl_started :: bool
  sasl_buffer :: string
  sasl_mech :: string
  sasl_authcid :: string

definition NewSaslState :: SaslState where
  "NewSaslState = \<lparr>sasl_started = False, sasl_buffer = [], sasl_mech = [], sasl_authcid = []\<rparr>"

definition sasl_reset :: "SaslState \<Rightarrow> SaslState" where
  "sasl_reset s = s\<lparr>sasl_started := False, sasl_buffer := [], sasl_mech := [], sasl_authcid := []\<rparr>"

definition sasl_start :: "SaslState \<Rightarrow> SaslState" where
  "sasl_start s = s\<lparr>sasl_started := True\<rparr>"

definition sasl_write :: "string \<Rightarrow> SaslState \<Rightarrow> SaslState" where
  "sasl_write data s = s\<lparr>sasl_buffer := sasl_buffer s @ data\<rparr>"

definition sasl_login :: "string \<Rightarrow> SaslState \<Rightarrow> SaslState" where
  "sasl_login authcid s =
     s\<lparr>sasl_started := False, sasl_buffer := [], sasl_mech := [], sasl_authcid := authcid\<rparr>"

section \<open>Clients, channels, the server\<close>

type_synonym client_id = nat
type_synonym channel_id = nat

datatype CapState = CapNone | CapNegotiating | CapNegotiated

text \<open>A timer that exists is stopped or fires at a time.\<close>

datatype timer = Stopped | Armed int

text \<open>
  \<open>c_tls\<close>: the connection is a \<open>tls.Conn\<close>. \<open>c_replies_closed\<close> and \<open>c_socket_closed\<close>: \<open>destroy\<close> has
  closed the reply channel and the socket. The keys of \<open>capabilities\<close> are a list.
\<close>

record 't Client =
  c_atime :: int
  c_authorized :: bool
  c_awayMessage :: string
  c_capabilities :: "string list"
  c_capState :: CapState
  c_channels :: 't
  c_ctime :: int
  c_modes :: 't
  c_hasQuit :: bool
  c_hops :: nat
  c_hostname :: string
  c_hostmask :: string
  c_pingTime :: int
  c_idleTimer :: "timer option"
  c_nick :: string
  c_quitTimer :: "timer option"
  c_realname :: string
  c_registered :: bool
  c_sasl :: SaslState
  c_username :: string
  c_tls :: bool
  c_replies_closed :: bool
  c_socket_closed :: bool

record 't Channel =
  ch_flags :: 't
  ch_lists :: "rune \<Rightarrow> UserMaskSet option"
  ch_key :: string
  ch_members :: 't
  ch_name :: string
  ch_topic :: string
  ch_userLimit :: nat

text \<open>
  \<open>srv_config\<close> is the configuration the server holds. \<open>w_files\<close> gives the content of the files that
  can be opened, \<open>w_clock\<close> is the time \<open>time.Now()\<close> returns. \<open>srv_global_id\<close> is the identity
  \<open>ids["global"]\<close> as it prints. The last fields are the metrics the handlers touch.
\<close>

record 't world =
  w_clients :: "client_id \<Rightarrow> 't Client"
  w_chans :: "channel_id \<Rightarrow> 't Channel"
  w_next_client :: client_id
  w_next_chan :: channel_id
  srv_channels :: 't
  srv_connections :: int
  srv_nicks :: "(string \<times> client_id) list"
  srv_ctime :: int
  srv_name :: string
  srv_network :: string
  srv_description :: string
  srv_operators :: "(string \<times> string) list"
  srv_accounts :: "(string \<times> string) list"
  srv_password :: "string option"
  srv_whoWas :: WhoWasList
  srv_global_id :: string
  srv_motdFile :: string
  srv_config :: Config
  w_files :: "string \<Rightarrow> string option"
  w_clock :: int
  w_out :: "(client_id \<times> string) list"
  w_messages :: nat
  w_commands :: nat
  w_secure :: int
  w_insecure :: int

text \<open>Reading and writing one client or one channel through its pointer.\<close>

abbreviation cl :: "'t world \<Rightarrow> client_id \<Rightarrow> 't Client" where
  "cl w c \<equiv> w_clients w c"

abbreviation chn :: "'t world \<Rightarrow> channel_id \<Rightarrow> 't Channel" where
  "chn w ch \<equiv> w_chans w ch"

definition upd_client :: "client_id \<Rightarrow> ('t Client \<Rightarrow> 't Client) \<Rightarrow> 't world \<Rightarrow> 't world" where
  "upd_client c f w = w\<lparr>w_clients := (w_clients w)(c := f (w_clients w c))\<rparr>"

definition upd_chan :: "channel_id \<Rightarrow> ('t Channel \<Rightarrow> 't Channel) \<Rightarrow> 't world \<Rightarrow> 't world" where
  "upd_chan ch f w = w\<lparr>w_chans := (w_chans w)(ch := f (w_chans w ch))\<rparr>"

lemma cl_upd_client [simp]: "cl (upd_client c f w) d = (if d = c then f (cl w c) else cl w d)"
  by (simp add: upd_client_def)

lemma chn_upd_client [simp]: "w_chans (upd_client c f w) = w_chans w"
  by (simp add: upd_client_def)

lemma chn_upd_chan [simp]: "chn (upd_chan ch f w) d = (if d = ch then f (chn w ch) else chn w d)"
  by (simp add: upd_chan_def)

lemma cl_upd_chan [simp]: "w_clients (upd_chan ch f w) = w_clients w"
  by (simp add: upd_chan_def)

lemma upd_client_fields [simp]:
  "srv_channels (upd_client c f w) = srv_channels w" "srv_nicks (upd_client c f w) = srv_nicks w"
  "srv_whoWas (upd_client c f w) = srv_whoWas w" "w_out (upd_client c f w) = w_out w"
  "srv_name (upd_client c f w) = srv_name w" "srv_password (upd_client c f w) = srv_password w"
  "srv_operators (upd_client c f w) = srv_operators w" "w_next_chan (upd_client c f w) = w_next_chan w"
  "w_next_client (upd_client c f w) = w_next_client w"
  "srv_connections (upd_client c f w) = srv_connections w" "srv_accounts (upd_client c f w) = srv_accounts w"
  by (simp_all add: upd_client_def)

lemma upd_chan_fields [simp]:
  "srv_channels (upd_chan ch g w) = srv_channels w" "srv_nicks (upd_chan ch g w) = srv_nicks w"
  "srv_whoWas (upd_chan ch g w) = srv_whoWas w" "w_out (upd_chan ch g w) = w_out w"
  "srv_name (upd_chan ch g w) = srv_name w" "srv_password (upd_chan ch g w) = srv_password w"
  "srv_operators (upd_chan ch g w) = srv_operators w" "w_next_chan (upd_chan ch g w) = w_next_chan w"
  "w_next_client (upd_chan ch g w) = w_next_client w"
  "srv_connections (upd_chan ch g w) = srv_connections w" "srv_accounts (upd_chan ch g w) = srv_accounts w"
  by (simp_all add: upd_chan_def)

section \<open>Tests on a client and a channel\<close>

abbreviation has_mode :: "'t go_env \<Rightarrow> 't world \<Rightarrow> client_id \<Rightarrow> rune \<Rightarrow> bool" where
  "has_mode E w c m \<equiv> set_has (user_modes E) (c_modes (cl w c)) m"

abbreviation has_flag :: "'t go_env \<Rightarrow> 't world \<Rightarrow> channel_id \<Rightarrow> rune \<Rightarrow> bool" where
  "has_flag E w ch m \<equiv> set_has (chan_modes E) (ch_flags (chn w ch)) m"

abbreviation is_member :: "'t go_env \<Rightarrow> 't world \<Rightarrow> channel_id \<Rightarrow> client_id \<Rightarrow> bool" where
  "is_member E w ch c \<equiv> mem_has (members_ops E) (ch_members (chn w ch)) c"

abbreviation member_mode :: "'t go_env \<Rightarrow> 't world \<Rightarrow> channel_id \<Rightarrow> client_id \<Rightarrow> rune \<Rightarrow> bool" where
  "member_mode E w ch c m \<equiv> mem_has_mode (members_ops E) (ch_members (chn w ch)) c m"

definition set_mode :: "'t go_env \<Rightarrow> rune \<Rightarrow> 't Client \<Rightarrow> 't Client" where
  "set_mode E m cr = cr\<lparr>c_modes := set_add (user_modes E) (c_modes cr) m\<rparr>"

definition unset_mode :: "'t go_env \<Rightarrow> rune \<Rightarrow> 't Client \<Rightarrow> 't Client" where
  "unset_mode E m cr = cr\<lparr>c_modes := set_remove (user_modes E) (c_modes cr) m\<rparr>"

definition HasNick :: "'t world \<Rightarrow> client_id \<Rightarrow> bool" where
  "HasNick w c \<longleftrightarrow> c_nick (cl w c) \<noteq> []"

definition HasUsername :: "'t world \<Rightarrow> client_id \<Rightarrow> bool" where
  "HasUsername w c \<longleftrightarrow> c_username (cl w c) \<noteq> []"

text \<open>\<open>Client.Nick\<close>: \<open>*\<close> for a client without a nick.\<close>

definition Nick :: "'t world \<Rightarrow> client_id \<Rightarrow> string" where
  "Nick w c = (if HasNick w c then c_nick (cl w c) else ''*'')"

definition UserHost :: "'t world \<Rightarrow> client_id \<Rightarrow> bool \<Rightarrow> string" where
  "UserHost w c cloacked =
     (let username = (if c_username (cl w c) \<noteq> [] then c_username (cl w c) else ''*'')
      in c_nick (cl w c) @ ''!'' @ username @ ''@'' @
         (if cloacked then c_hostmask (cl w c) else c_hostname (cl w c)))"

text \<open>\<open>Client.Id\<close> and \<open>Client.String\<close>.\<close>

definition client_id_string :: "'t world \<Rightarrow> client_id \<Rightarrow> string" where
  "client_id_string w c = UserHost w c True"

text \<open>\<open>Client.CanSpeak\<close>.\<close>

definition client_can_speak :: "'t go_env \<Rightarrow> 't world \<Rightarrow> client_id \<Rightarrow> client_id \<Rightarrow> bool" where
  "client_can_speak E w c target =
     (let requiresSecure = has_mode E w c SecureOnly \<or> has_mode E w target SecureOnly;
          isSecure = has_mode E w c SecureConn \<and> has_mode E w target SecureConn;
          isOperator = has_mode E w c Operator
      in \<not> requiresSecure \<or> (requiresSecure \<and> (isOperator \<or> isSecure)))"

definition ModeString :: "'t go_env \<Rightarrow> 't world \<Rightarrow> client_id \<Rightarrow> string" where
  "ModeString E w c = user_modes_string E (c_modes (cl w c))"

definition IDLE_TIMEOUT :: int where "IDLE_TIMEOUT = 60 * 1000000000"

definition QUIT_TIMEOUT :: int where "QUIT_TIMEOUT = 60 * 1000000000"

definition Active :: "client_id \<Rightarrow> 't world \<Rightarrow> 't world" where
  "Active c w = upd_client c (\<lambda>cr. cr\<lparr>c_atime := w_clock w\<rparr>) w"

definition Touch :: "client_id \<Rightarrow> 't world \<Rightarrow> 't world" where
  "Touch c w = upd_client c (\<lambda>cr. cr\<lparr>
     c_quitTimer := map_option (\<lambda>_. Stopped) (c_quitTimer cr),
     c_idleTimer := Some (Armed (w_clock w + IDLE_TIMEOUT))\<rparr>) w"

text \<open>\<open>Client.Register\<close>.\<close>

definition Register :: "'t go_env \<Rightarrow> client_id \<Rightarrow> 't world \<Rightarrow> 't world" where
  "Register E c w =
     (if c_registered (cl w c) then w
      else Touch c (upd_client c (\<lambda>cr. set_mode E HostMask (cr\<lparr>c_registered := True\<rparr>)) w))"

text \<open>
  \<open>Client.Reply\<close>: nothing is sent to a client that has quit. This is the state once the line was handed
  over on the channel \<open>replies\<close>; \<open>w_out\<close> keeps who was sent what, and the theory Waiting makes of it who
  has to wait.
\<close>

definition Reply :: "client_id \<Rightarrow> string \<Rightarrow> 't world \<Rightarrow> 't world" where
  "Reply c reply w = (if c_hasQuit (cl w c) then w else w\<lparr>w_out := w_out w @ [(c, reply)]\<rparr>)"

lemma Reply_fields [simp]:
  "w_clients (Reply c s w) = w_clients w" "w_chans (Reply c s w) = w_chans w"
  "srv_channels (Reply c s w) = srv_channels w" "srv_nicks (Reply c s w) = srv_nicks w"
  "srv_whoWas (Reply c s w) = srv_whoWas w" "srv_name (Reply c s w) = srv_name w"
  "srv_password (Reply c s w) = srv_password w" "srv_operators (Reply c s w) = srv_operators w"
  "w_next_chan (Reply c s w) = w_next_chan w" "srv_connections (Reply c s w) = srv_connections w"
  "srv_accounts (Reply c s w) = srv_accounts w"
  by (simp_all add: Reply_def)

text \<open>\<open>Range\<close> over some receivers with the same reply for each.\<close>

definition reply_all :: "client_id list \<Rightarrow> string \<Rightarrow> 't world \<Rightarrow> 't world" where
  "reply_all cs reply w = fold (\<lambda>c w. Reply c reply w) cs w"

lemma reply_all_fields [simp]:
  "w_clients (reply_all cs s w) = w_clients w" "w_chans (reply_all cs s w) = w_chans w"
  "srv_channels (reply_all cs s w) = srv_channels w" "srv_nicks (reply_all cs s w) = srv_nicks w"
  "srv_whoWas (reply_all cs s w) = srv_whoWas w" "srv_name (reply_all cs s w) = srv_name w"
  "srv_password (reply_all cs s w) = srv_password w" "srv_operators (reply_all cs s w) = srv_operators w"
  "w_next_chan (reply_all cs s w) = w_next_chan w" "srv_connections (reply_all cs s w) = srv_connections w"
  "srv_accounts (reply_all cs s w) = srv_accounts w"
  unfolding reply_all_def by (induction cs arbitrary: w) auto

lemma reply_all_out:
  "w_out (reply_all cs s w) = w_out w @ map (\<lambda>c. (c, s)) (filter (\<lambda>c. \<not> c_hasQuit (cl w c)) cs)"
  unfolding reply_all_def by (induction cs arbitrary: w) (auto simp: Reply_def)

section \<open>The table of nicks\<close>

definition nick_get :: "'z text_env_scheme \<Rightarrow> 't world \<Rightarrow> string \<Rightarrow> client_id option" where
  "nick_get E w nick = map_of (srv_nicks w) (to_lower E nick)"

datatype lookup_error = ErrNickMissing | ErrNicknameInUse | ErrNicknameMismatch

text \<open>\<open>Add\<close> and \<open>Remove\<close> return the table unchanged beside an error; every caller drops the error.\<close>

definition nick_add :: "'z text_env_scheme \<Rightarrow> client_id \<Rightarrow> 't world \<Rightarrow> lookup_error option \<times> 't world" where
  "nick_add E c w =
     (if \<not> HasNick w c then (Some ErrNickMissing, w)
      else if nick_get E w (c_nick (cl w c)) \<noteq> None then (Some ErrNicknameInUse, w)
      else (None, w\<lparr>srv_nicks := AList.update (to_lower E (Nick w c)) c (srv_nicks w)\<rparr>))"

definition nick_remove :: "'z text_env_scheme \<Rightarrow> client_id \<Rightarrow> 't world \<Rightarrow> lookup_error option \<times> 't world" where
  "nick_remove E c w =
     (if \<not> HasNick w c then (Some ErrNickMissing, w)
      else if nick_get E w (c_nick (cl w c)) \<noteq> Some c then (Some ErrNicknameMismatch, w)
      else (None, w\<lparr>srv_nicks := AList.delete (to_lower E (c_nick (cl w c))) (srv_nicks w)\<rparr>))"

definition nick_count :: "'t world \<Rightarrow> nat" where
  "nick_count w = length (srv_nicks w)"

text \<open>The clients \<open>ClientLookupSet.Range\<close> visits, in its order.\<close>

definition nick_range :: "'z text_env_scheme \<Rightarrow> 't world \<Rightarrow> client_id list" where
  "nick_range E w = map snd (go_range E (srv_nicks w))"

text \<open>\<open>FindAll\<close>; the result is a \<open>ClientSet\<close>.\<close>

definition FindAll :: "'t go_env \<Rightarrow> 't world \<Rightarrow> string \<Rightarrow> 't" where
  "FindAll E w userhost =
     (let m = ExpandUserHost userhost
      in fold (\<lambda>c st. if irc_match E m (UserHost w c False) then set_add (client_sets E) st c else st)
           (nick_range E w) (set_new (client_sets E)))"

text \<open>\<open>Find\<close>: the first client that matches, or nil.\<close>

definition Find :: "'t go_env \<Rightarrow> 't world \<Rightarrow> string \<Rightarrow> client_id option" where
  "Find E w userhost =
     (let m = ExpandUserHost userhost in List.find (\<lambda>c. irc_match E m (UserHost w c False)) (nick_range E w))"

end
