(* ===== verification/Reply.thy ===== *)
theory Reply
  imports State
begin

text \<open>
  src/internal/reply.go with the numeric codes of constant.go. A reply is a line; the functions
  named \<open>Rpl...\<close> and \<open>Err...\<close> build one, or send one to the client \<open>target\<close>. A format is filled by
  \<open>Sprintf\<close> with arguments that are already printed.
\<close>

named_theorems core_simps \<open>operations that only write to the clients\<close>

section \<open>Numeric codes\<close>

definition RPL_WELCOME :: nat where "RPL_WELCOME = 1"

definition RPL_YOURHOST :: nat where "RPL_YOURHOST = 2"

definition RPL_CREATED :: nat where "RPL_CREATED = 3"

definition RPL_MYINFO :: nat where "RPL_MYINFO = 4"

definition RPL_UMODEIS :: nat where "RPL_UMODEIS = 221"

definition RPL_LUSERCLIENT :: nat where "RPL_LUSERCLIENT = 251"

definition RPL_LUSEROP :: nat where "RPL_LUSEROP = 252"

definition RPL_LUSERUNKNOWN :: nat where "RPL_LUSERUNKNOWN = 253"

definition RPL_LUSERCHANNELS :: nat where "RPL_LUSERCHANNELS = 254"

definition RPL_LUSERME :: nat where "RPL_LUSERME = 255"

definition RPL_AWAY :: nat where "RPL_AWAY = 301"

definition RPL_ISON :: nat where "RPL_ISON = 303"

definition RPL_UNAWAY :: nat where "RPL_UNAWAY = 305"

definition RPL_NOWAWAY :: nat where "RPL_NOWAWAY = 306"

definition RPL_WHOISUSER :: nat where "RPL_WHOISUSER = 311"

definition RPL_WHOISSERVER :: nat where "RPL_WHOISSERVER = 312"

definition RPL_WHOISOPERATOR :: nat where "RPL_WHOISOPERATOR = 313"

definition RPL_WHOWASUSER :: nat where "RPL_WHOWASUSER = 314"

definition RPL_ENDOFWHO :: nat where "RPL_ENDOFWHO = 315"

definition RPL_WHOISIDLE :: nat where "RPL_WHOISIDLE = 317"

definition RPL_ENDOFWHOIS :: nat where "RPL_ENDOFWHOIS = 318"

definition RPL_WHOISCHANNELS :: nat where "RPL_WHOISCHANNELS = 319"

definition RPL_LIST :: nat where "RPL_LIST = 322"

definition RPL_LISTEND :: nat where "RPL_LISTEND = 323"

definition RPL_CHANNELMODEIS :: nat where "RPL_CHANNELMODEIS = 324"

definition RPL_WHOISLOGGEDIN :: nat where "RPL_WHOISLOGGEDIN = 330"

definition RPL_NOTOPIC :: nat where "RPL_NOTOPIC = 331"

definition RPL_TOPIC :: nat where "RPL_TOPIC = 332"

definition RPL_INVITING :: nat where "RPL_INVITING = 341"

definition RPL_INVITELIST :: nat where "RPL_INVITELIST = 346"

definition RPL_ENDOFINVITELIST :: nat where "RPL_ENDOFINVITELIST = 347"

definition RPL_EXCEPTLIST :: nat where "RPL_EXCEPTLIST = 348"

definition RPL_ENDOFEXCEPTLIST :: nat where "RPL_ENDOFEXCEPTLIST = 349"

definition RPL_VERSION :: nat where "RPL_VERSION = 351"

definition RPL_WHOREPLY :: nat where "RPL_WHOREPLY = 352"

definition RPL_NAMREPLY :: nat where "RPL_NAMREPLY = 353"

definition RPL_ENDOFNAMES :: nat where "RPL_ENDOFNAMES = 366"

definition RPL_BANLIST :: nat where "RPL_BANLIST = 367"

definition RPL_ENDOFBANLIST :: nat where "RPL_ENDOFBANLIST = 368"

definition RPL_ENDOFWHOWAS :: nat where "RPL_ENDOFWHOWAS = 369"

definition RPL_MOTD :: nat where "RPL_MOTD = 372"

definition RPL_MOTDSTART :: nat where "RPL_MOTDSTART = 375"

definition RPL_ENDOFMOTD :: nat where "RPL_ENDOFMOTD = 376"

definition RPL_YOUREOPER :: nat where "RPL_YOUREOPER = 381"

definition RPL_REHASHING :: nat where "RPL_REHASHING = 382"

definition RPL_TIME :: nat where "RPL_TIME = 391"

definition ERR_NOSUCHNICK :: nat where "ERR_NOSUCHNICK = 401"

definition ERR_NOSUCHSERVER :: nat where "ERR_NOSUCHSERVER = 402"

definition ERR_NOSUCHCHANNEL :: nat where "ERR_NOSUCHCHANNEL = 403"

definition ERR_CANNOTSENDTOCHAN :: nat where "ERR_CANNOTSENDTOCHAN = 404"

definition ERR_WASNOSUCHNICK :: nat where "ERR_WASNOSUCHNICK = 406"

definition ERR_INVALIDCAPCMD :: nat where "ERR_INVALIDCAPCMD = 410"

definition ERR_UNKNOWNCOMMAND :: nat where "ERR_UNKNOWNCOMMAND = 421"

definition ERR_NOMOTD :: nat where "ERR_NOMOTD = 422"

definition ERR_NONICKNAMEGIVEN :: nat where "ERR_NONICKNAMEGIVEN = 431"

definition ERR_ERRONEUSNICKNAME :: nat where "ERR_ERRONEUSNICKNAME = 432"

definition ERR_NICKNAMEINUSE :: nat where "ERR_NICKNAMEINUSE = 433"

definition ERR_USERNOTINCHANNEL :: nat where "ERR_USERNOTINCHANNEL = 441"

definition ERR_NOTONCHANNEL :: nat where "ERR_NOTONCHANNEL = 442"

definition ERR_USERONCHANNEL :: nat where "ERR_USERONCHANNEL = 443"

definition ERR_NEEDMOREPARAMS :: nat where "ERR_NEEDMOREPARAMS = 461"

definition ERR_ALREADYREGISTRED :: nat where "ERR_ALREADYREGISTRED = 462"

definition ERR_PASSWDMISMATCH :: nat where "ERR_PASSWDMISMATCH = 464"

definition ERR_CHANNELISFULL :: nat where "ERR_CHANNELISFULL = 471"

definition ERR_UNKNOWNMODE :: nat where "ERR_UNKNOWNMODE = 472"

definition ERR_INVITEONLYCHAN :: nat where "ERR_INVITEONLYCHAN = 473"

definition ERR_BANNEDFROMCHAN :: nat where "ERR_BANNEDFROMCHAN = 474"

definition ERR_BADCHANNELKEY :: nat where "ERR_BADCHANNELKEY = 475"

definition ERR_NOCHANMODES :: nat where "ERR_NOCHANMODES = 477"

definition ERR_NOPRIVILEGES :: nat where "ERR_NOPRIVILEGES = 481"

definition ERR_CHANOPRIVSNEEDED :: nat where "ERR_CHANOPRIVSNEEDED = 482"

definition ERR_RESTRICTED :: nat where "ERR_RESTRICTED = 484"

definition ERR_CANNOTSENDTOUSER :: nat where "ERR_CANNOTSENDTOUSER = 492"

definition ERR_USERSDONTMATCH :: nat where "ERR_USERSDONTMATCH = 502"

definition RPL_WHOISSECURE :: nat where "RPL_WHOISSECURE = 671"

definition RPL_LOGGEDIN :: nat where "RPL_LOGGEDIN = 900"

definition ERR_NICKLOCKED :: nat where "ERR_NICKLOCKED = 902"

definition RPL_SASLSUCCESS :: nat where "RPL_SASLSUCCESS = 903"

definition ERR_SASLFAIL :: nat where "ERR_SASLFAIL = 904"

definition ERR_SASLABORTED :: nat where "ERR_SASLABORTED = 906"

definition ERR_SASLALREADY :: nat where "ERR_SASLALREADY = 907"

definition RPL_SASLMECHS :: nat where "RPL_SASLMECHS = 908"

lemmas code_defs = RPL_WELCOME_def RPL_YOURHOST_def RPL_CREATED_def RPL_MYINFO_def RPL_UMODEIS_def RPL_LUSERCLIENT_def RPL_LUSEROP_def RPL_LUSERUNKNOWN_def RPL_LUSERCHANNELS_def RPL_LUSERME_def RPL_AWAY_def RPL_ISON_def RPL_UNAWAY_def RPL_NOWAWAY_def RPL_WHOISUSER_def RPL_WHOISSERVER_def RPL_WHOISOPERATOR_def RPL_WHOWASUSER_def RPL_ENDOFWHO_def RPL_WHOISIDLE_def RPL_ENDOFWHOIS_def RPL_WHOISCHANNELS_def RPL_LIST_def RPL_LISTEND_def RPL_CHANNELMODEIS_def RPL_WHOISLOGGEDIN_def RPL_NOTOPIC_def RPL_TOPIC_def RPL_INVITING_def RPL_INVITELIST_def RPL_ENDOFINVITELIST_def RPL_EXCEPTLIST_def RPL_ENDOFEXCEPTLIST_def RPL_VERSION_def RPL_WHOREPLY_def RPL_NAMREPLY_def RPL_ENDOFNAMES_def RPL_BANLIST_def RPL_ENDOFBANLIST_def RPL_ENDOFWHOWAS_def RPL_MOTD_def RPL_MOTDSTART_def RPL_ENDOFMOTD_def RPL_YOUREOPER_def RPL_REHASHING_def RPL_TIME_def ERR_NOSUCHNICK_def ERR_NOSUCHSERVER_def ERR_NOSUCHCHANNEL_def ERR_CANNOTSENDTOCHAN_def ERR_WASNOSUCHNICK_def ERR_INVALIDCAPCMD_def ERR_UNKNOWNCOMMAND_def ERR_NOMOTD_def ERR_NONICKNAMEGIVEN_def ERR_ERRONEUSNICKNAME_def ERR_NICKNAMEINUSE_def ERR_USERNOTINCHANNEL_def ERR_NOTONCHANNEL_def ERR_USERONCHANNEL_def ERR_NEEDMOREPARAMS_def ERR_ALREADYREGISTRED_def ERR_PASSWDMISMATCH_def ERR_CHANNELISFULL_def ERR_UNKNOWNMODE_def ERR_INVITEONLYCHAN_def ERR_BANNEDFROMCHAN_def ERR_BADCHANNELKEY_def ERR_NOCHANMODES_def ERR_NOPRIVILEGES_def ERR_CHANOPRIVSNEEDED_def ERR_RESTRICTED_def ERR_CANNOTSENDTOUSER_def ERR_USERSDONTMATCH_def RPL_WHOISSECURE_def RPL_LOGGEDIN_def ERR_NICKLOCKED_def RPL_SASLSUCCESS_def ERR_SASLFAIL_def ERR_SASLABORTED_def ERR_SASLALREADY_def RPL_SASLMECHS_def

section \<open>Building replies\<close>

definition message :: "string \<Rightarrow> string list \<Rightarrow> string" where
  "message fmt args = (if args \<noteq> [] then Sprintf fmt args else fmt)"

text \<open>The source of a reply is what it prints as, None is nil.\<close>

definition NewStringReply :: "string option \<Rightarrow> string \<Rightarrow> string \<Rightarrow> string list \<Rightarrow> string" where
  "NewStringReply source code fmt args =
     (case source of None \<Rightarrow> code @ '' '' | Some s \<Rightarrow> Sprintf '':%s %s '' [s, code]) @ message fmt args"

definition NewNumericReply :: "'t world \<Rightarrow> client_id \<Rightarrow> nat \<Rightarrow> string \<Rightarrow> string list \<Rightarrow> string" where
  "NewNumericReply w target code fmt args =
     Sprintf '':%s %s %s '' [srv_name w, pad3 code, Nick w target] @ message fmt args"

definition NumericReply :: "client_id \<Rightarrow> nat \<Rightarrow> string \<Rightarrow> string list \<Rightarrow> 't world \<Rightarrow> 't world" where
  "NumericReply target code fmt args w = Reply target (NewNumericReply w target code fmt args) w"

section \<open>Replies of several lines\<close>

definition MAX_REPLY_LEN :: int where "MAX_REPLY_LEN = 512 - 2"

definition joinedLen :: "string list \<Rightarrow> int" where
  "joinedLen names = int (length names) - 1 + sum_list (map (\<lambda>n. int (length n)) names)"

text \<open>The slice \<open>names[from:to]\<close>.\<close>

definition names_slice :: "'a list \<Rightarrow> nat \<Rightarrow> nat \<Rightarrow> 'a list" where
  "names_slice xs i j = take (j - i) (drop i xs)"

text \<open>The slices the loop of \<open>MultilineReply\<close> sends, one reply for each.\<close>

function multiline_loop :: "int \<Rightarrow> string list \<Rightarrow> nat \<Rightarrow> nat \<Rightarrow> string list list" where
  "multiline_loop baseLen names i j =
     (if j < length names then
        if i < j - 1 \<and> baseLen + joinedLen (names_slice names i j) > MAX_REPLY_LEN
        then names_slice names i (j - 1) # multiline_loop baseLen names (j - 1) j
        else multiline_loop baseLen names i (j + 1)
      else if i < length names then [drop i names] else [])"
  by pat_completeness auto

termination
  by (relation "measure (\<lambda>(baseLen, names, i, j). (length names - j) + (length names - i))") auto

declare multiline_loop.simps [simp del]

definition MultilineReply ::
  "client_id \<Rightarrow> string list \<Rightarrow> nat \<Rightarrow> string \<Rightarrow> string list \<Rightarrow> 't world \<Rightarrow> 't world" where
  "MultilineReply target names code fmt args w =
     fold (\<lambda>ns. NumericReply target code fmt (args @ [join '' '' ns]))
       (multiline_loop (int (length (NewNumericReply w target code fmt []))) names 0 1) w"

section \<open>Messages\<close>

text \<open>The prefix a client, a channel and the server print as.\<close>

abbreviation client_str :: "'t world \<Rightarrow> client_id \<Rightarrow> string" where
  "client_str w c \<equiv> client_id_string w c"

abbreviation chan_str :: "'t world \<Rightarrow> channel_id \<Rightarrow> string" where
  "chan_str w ch \<equiv> ch_name (chn w ch)"

definition RplPrivMsg :: "string \<Rightarrow> string \<Rightarrow> string \<Rightarrow> string" where
  "RplPrivMsg source target_nick msg = NewStringReply (Some source) ''PRIVMSG'' ''%s :%s'' [target_nick, msg]"

definition RplCTCPAction :: "'z text_env_scheme \<Rightarrow> string \<Rightarrow> string \<Rightarrow> string \<Rightarrow> string" where
  "RplCTCPAction E source target_nick action =
     RplPrivMsg source target_nick (NewText E (Sprintf (CHR 0x01 # ''ACTION %s'' @ [CHR 0x01]) [action]))"

definition RplNotice :: "string \<Rightarrow> string \<Rightarrow> string \<Rightarrow> string" where
  "RplNotice source target_nick msg = NewStringReply (Some source) ''NOTICE'' ''%s :%s'' [target_nick, msg]"

definition RplNick :: "string \<Rightarrow> string \<Rightarrow> string" where
  "RplNick source newNick = NewStringReply (Some source) ''NICK'' newNick []"

definition RplJoin :: "'t world \<Rightarrow> client_id \<Rightarrow> channel_id \<Rightarrow> string" where
  "RplJoin w client channel = NewStringReply (Some (client_str w client)) ''JOIN'' (chan_str w channel) []"

definition RplPart :: "'t world \<Rightarrow> client_id \<Rightarrow> channel_id \<Rightarrow> string \<Rightarrow> string" where
  "RplPart w client channel msg =
     NewStringReply (Some (client_str w client)) ''PART'' ''%s :%s'' [chan_str w channel, msg]"

definition RplModeChanges :: "'t world \<Rightarrow> client_id \<Rightarrow> client_id \<Rightarrow> ModeChange list \<Rightarrow> string" where
  "RplModeChanges w client target changes =
     NewStringReply (Some (client_str w client)) ''MODE'' ''%s :%s'' [Nick w target, mode_changes_string changes]"

definition RplChannelMode :: "'t world \<Rightarrow> client_id \<Rightarrow> channel_id \<Rightarrow> ChannelModeChange list \<Rightarrow> string" where
  "RplChannelMode w client channel changes =
     NewStringReply (Some (client_str w client)) ''MODE'' ''%s %s''
       [chan_str w channel, chan_mode_changes_string changes]"

definition RplTopicMsg :: "'t world \<Rightarrow> client_id \<Rightarrow> channel_id \<Rightarrow> string" where
  "RplTopicMsg w source channel =
     NewStringReply (Some (client_str w source)) ''TOPIC'' ''%s :%s'' [chan_str w channel, ch_topic (chn w channel)]"

definition RplPing :: "string \<Rightarrow> string" where
  "RplPing target_nick = NewStringReply None ''PING'' '':%s'' [target_nick]"

definition RplPong :: "'t world \<Rightarrow> client_id \<Rightarrow> string \<Rightarrow> string" where
  "RplPong w client msg = NewStringReply (Some (client_str w client)) ''PONG'' ''%s :%s'' [srv_name w, msg]"

definition RplQuit :: "'t world \<Rightarrow> client_id \<Rightarrow> string \<Rightarrow> string" where
  "RplQuit w client msg = NewStringReply (Some (client_str w client)) ''QUIT'' '':%s'' [msg]"

definition RplError :: "string \<Rightarrow> string" where
  "RplError msg = NewStringReply None ''ERROR'' '':%s'' [msg]"

definition RplInviteMsg :: "'t world \<Rightarrow> client_id \<Rightarrow> client_id \<Rightarrow> string \<Rightarrow> string" where
  "RplInviteMsg w inviter invitee channel =
     NewStringReply (Some (client_str w inviter)) ''INVITE'' ''%s :%s'' [Nick w invitee, channel]"

definition RplKick :: "'t world \<Rightarrow> channel_id \<Rightarrow> client_id \<Rightarrow> client_id \<Rightarrow> string \<Rightarrow> string" where
  "RplKick w channel client target comment =
     NewStringReply (Some (client_str w client)) ''KICK'' ''%s %s :%s'' [chan_str w channel, Nick w target, comment]"

definition RplKill :: "'t world \<Rightarrow> client_id \<Rightarrow> client_id \<Rightarrow> string \<Rightarrow> string" where
  "RplKill w client target comment =
     NewStringReply (Some (client_str w client)) ''KICK'' ''%s :%s'' [Nick w target, comment]"

definition RplCap :: "'t world \<Rightarrow> client_id \<Rightarrow> string \<Rightarrow> string \<Rightarrow> string" where
  "RplCap w client subCommand arg =
     NewStringReply (Some (srv_name w)) ''CAP'' ''%s %s :%s'' [Nick w client, subCommand, arg]"

section \<open>Numeric replies\<close>

definition FullVersion :: string where
  "FullVersion = Sprintf ''%s-%s@%s'' [''eris'', ''1.6.4'', ''HEAD'']"

definition RplWelcome :: "client_id \<Rightarrow> 't world \<Rightarrow> 't world" where
  "RplWelcome target w =
     NumericReply target RPL_WELCOME '':Welcome to the %s Internet Relay Network %s''
       [srv_network w, client_id_string w target] w"

definition RplYourHost :: "client_id \<Rightarrow> 't world \<Rightarrow> 't world" where
  "RplYourHost target w =
     NumericReply target RPL_YOURHOST '':Your host is %s, running %s'' [srv_name w, FullVersion] w"

definition RplCreated :: "'t go_env \<Rightarrow> client_id \<Rightarrow> 't world \<Rightarrow> 't world" where
  "RplCreated E target w =
     NumericReply target RPL_CREATED '':This server was created %s'' [rfc1123 E (srv_ctime w)] w"

definition RplMyInfo :: "client_id \<Rightarrow> 't world \<Rightarrow> 't world" where
  "RplMyInfo target w =
     NumericReply target RPL_MYINFO ''%s %s %s %s''
       [srv_name w, FullVersion, modes_string SupportedUserModes, modes_string SupportedChannelModes] w"

definition RplUModeIs :: "'t go_env \<Rightarrow> client_id \<Rightarrow> client_id \<Rightarrow> 't world \<Rightarrow> 't world" where
  "RplUModeIs E target client w = NumericReply target RPL_UMODEIS (ModeString E w client) [] w"

definition RplNoTopic :: "client_id \<Rightarrow> channel_id \<Rightarrow> 't world \<Rightarrow> 't world" where
  "RplNoTopic target channel w = NumericReply target RPL_NOTOPIC ''%s :No topic is set'' [chan_str w channel] w"

definition RplTopic :: "client_id \<Rightarrow> channel_id \<Rightarrow> 't world \<Rightarrow> 't world" where
  "RplTopic target channel w =
     NumericReply target RPL_TOPIC ''%s :%s'' [chan_str w channel, ch_topic (chn w channel)] w"

definition RplInvitingMsg :: "client_id \<Rightarrow> client_id \<Rightarrow> string \<Rightarrow> 't world \<Rightarrow> 't world" where
  "RplInvitingMsg target invitee channel w =
     NumericReply target RPL_INVITING ''%s %s'' [Nick w invitee, channel] w"

definition RplEndOfNames :: "client_id \<Rightarrow> channel_id \<Rightarrow> 't world \<Rightarrow> 't world" where
  "RplEndOfNames target channel w =
     NumericReply target RPL_ENDOFNAMES ''%s :End of NAMES list'' [chan_str w channel] w"

definition RplYoureOper :: "client_id \<Rightarrow> 't world \<Rightarrow> 't world" where
  "RplYoureOper target w = NumericReply target RPL_YOUREOPER '':You are now an IRC operator'' [] w"

definition RplRehashing :: "client_id \<Rightarrow> 't world \<Rightarrow> 't world" where
  "RplRehashing target w =
     NumericReply target RPL_REHASHING ''%s :Rehashing'' [cfg_filename (srv_config w)] w"

text \<open>The host of a client as \<open>target\<close> may see it.\<close>

definition visible_host :: "'t go_env \<Rightarrow> 't world \<Rightarrow> client_id \<Rightarrow> client_id \<Rightarrow> string" where
  "visible_host E w target client =
     (if has_mode E w target Operator \<or> \<not> has_mode E w client HostMask
      then c_hostname (cl w client) else c_hostmask (cl w client))"

definition RplWhoisUser :: "'t go_env \<Rightarrow> client_id \<Rightarrow> client_id \<Rightarrow> 't world \<Rightarrow> 't world" where
  "RplWhoisUser E target client w =
     NumericReply target RPL_WHOISUSER ''%s %s %s * :%s''
       [Nick w client, c_username (cl w client), visible_host E w target client, c_realname (cl w client)] w"

definition RplWhoisOperator :: "client_id \<Rightarrow> client_id \<Rightarrow> 't world \<Rightarrow> 't world" where
  "RplWhoisOperator target client w =
     NumericReply target RPL_WHOISOPERATOR ''%s :is an IRC operator'' [Nick w client] w"

definition RplWhoisSecure :: "client_id \<Rightarrow> client_id \<Rightarrow> 't world \<Rightarrow> 't world" where
  "RplWhoisSecure target client w =
     NumericReply target RPL_WHOISSECURE ''%s :is using a secure connection'' [Nick w client] w"

text \<open>\<open>IdleSeconds\<close> and \<open>SignonTime\<close>; times are in nanoseconds.\<close>

definition IdleSeconds :: "'t world \<Rightarrow> client_id \<Rightarrow> nat" where
  "IdleSeconds w c = nat ((w_clock w - c_atime (cl w c)) div 1000000000)"

definition SignonTime :: "'t world \<Rightarrow> client_id \<Rightarrow> int" where
  "SignonTime w c = c_ctime (cl w c) div 1000000000"

definition RplWhoisIdle :: "client_id \<Rightarrow> client_id \<Rightarrow> 't world \<Rightarrow> 't world" where
  "RplWhoisIdle target client w =
     NumericReply target RPL_WHOISIDLE ''%s %d %d :seconds idle, signon time''
       [Nick w client, format_nat (IdleSeconds w client), format_int (SignonTime w client)] w"

definition RplWhoisLoggedIn :: "client_id \<Rightarrow> client_id \<Rightarrow> 't world \<Rightarrow> 't world" where
  "RplWhoisLoggedIn target client w =
     (let authcid = sasl_authcid (c_sasl (cl w client)) in
      if authcid = [] then w
      else NumericReply target RPL_WHOISLOGGEDIN ''%s %s :Is logged in as'' [Nick w client, authcid] w)"

definition RplWhoisServer :: "client_id \<Rightarrow> client_id \<Rightarrow> 't world \<Rightarrow> 't world" where
  "RplWhoisServer target client w =
     NumericReply target RPL_WHOISSERVER ''%s %s :%s'' [Nick w client, srv_name w, srv_description w] w"

definition RplEndOfWhois :: "client_id \<Rightarrow> client_id \<Rightarrow> 't world \<Rightarrow> 't world" where
  "RplEndOfWhois target client w = NumericReply target RPL_ENDOFWHOIS ''%s :End of WHOIS list'' [Nick w client] w"

text \<open>\<open>Channel.ModeString\<close> (channel.go).\<close>

definition channel_ModeString :: "'t go_env \<Rightarrow> 't world \<Rightarrow> channel_id \<Rightarrow> client_id \<Rightarrow> string" where
  "channel_ModeString E w channel client =
     (let isMember = has_mode E w client Operator \<or> is_member E w channel client;
          showKey = isMember \<and> ch_key (chn w channel) \<noteq> [];
          showUserLimit = ch_userLimit (chn w channel) > 0
      in ''+'' @ (if showKey then rune_str Key else []) @ (if showUserLimit then rune_str UserLimit else [])
         @ concat (map rune_str (set_range (chan_modes E) (ch_flags (chn w channel))))
         @ (if showKey then '' '' @ ch_key (chn w channel) else [])
         @ (if showUserLimit then '' '' @ format_nat (ch_userLimit (chn w channel)) else []))"

definition RplChannelModeIs :: "'t go_env \<Rightarrow> client_id \<Rightarrow> channel_id \<Rightarrow> 't world \<Rightarrow> 't world" where
  "RplChannelModeIs E target channel w =
     NumericReply target RPL_CHANNELMODEIS ''%s %s'' [chan_str w channel, channel_ModeString E w channel target] w"

text \<open>
  \<open>RplWhoReply\<close>. Its callers pass a channel with one of its members, so \<open>members.Get\<close> is not nil
  where a flag is read.
\<close>

definition who_flags :: "'t go_env \<Rightarrow> client_id \<Rightarrow> channel_id option \<Rightarrow> client_id \<Rightarrow> 't world \<Rightarrow> string" where
  "who_flags E target channel client w =
     (if has_mode E w client Away then ''G'' else ''H'')
     @ (if has_mode E w client Operator then ''*'' else [])
     @ (case channel of
          None \<Rightarrow> []
        | Some ch \<Rightarrow>
            if ''multi-prefix'' \<in> set (c_capabilities (cl w target))
            then (if member_mode E w ch client ChannelOperator then ''@'' else [])
                 @ (if member_mode E w ch client Voice then ''+'' else [])
            else if member_mode E w ch client ChannelOperator then ''@''
            else if member_mode E w ch client Voice then ''+'' else [])"

definition RplWhoReply ::
  "'t go_env \<Rightarrow> client_id \<Rightarrow> channel_id option \<Rightarrow> client_id \<Rightarrow> 't world \<Rightarrow> 't world" where
  "RplWhoReply E target channel client w =
     NumericReply target RPL_WHOREPLY ''%s %s %s %s %s %s :%d %s''
       [case channel of None \<Rightarrow> ''*'' | Some ch \<Rightarrow> chan_str w ch, c_username (cl w client),
        visible_host E w target client, srv_name w, Nick w client, who_flags E target channel client w,
        format_nat (c_hops (cl w client)), c_realname (cl w client)] w"

definition RplEndOfWho :: "client_id \<Rightarrow> string \<Rightarrow> 't world \<Rightarrow> 't world" where
  "RplEndOfWho target name w = NumericReply target RPL_ENDOFWHO ''%s :End of WHO list'' [name] w"

definition RplBanList :: "client_id \<Rightarrow> channel_id \<Rightarrow> string \<Rightarrow> 't world \<Rightarrow> 't world" where
  "RplBanList target channel msk w = NumericReply target RPL_BANLIST ''%s %s'' [chan_str w channel, msk] w"

definition RplExceptList :: "client_id \<Rightarrow> channel_id \<Rightarrow> string \<Rightarrow> 't world \<Rightarrow> 't world" where
  "RplExceptList target channel msk w = NumericReply target RPL_EXCEPTLIST ''%s %s'' [chan_str w channel, msk] w"

definition RplInviteList :: "client_id \<Rightarrow> channel_id \<Rightarrow> string \<Rightarrow> 't world \<Rightarrow> 't world" where
  "RplInviteList target channel msk w = NumericReply target RPL_INVITELIST ''%s %s'' [chan_str w channel, msk] w"

definition RplEndOfBanList :: "client_id \<Rightarrow> channel_id \<Rightarrow> 't world \<Rightarrow> 't world" where
  "RplEndOfBanList target channel w =
     NumericReply target RPL_ENDOFBANLIST ''%s :End of channel ban list'' [chan_str w channel] w"

definition RplEndOfExceptList :: "client_id \<Rightarrow> channel_id \<Rightarrow> 't world \<Rightarrow> 't world" where
  "RplEndOfExceptList target channel w =
     NumericReply target RPL_ENDOFEXCEPTLIST ''%s :End of channel exception list'' [chan_str w channel] w"

definition RplEndOfInviteList :: "client_id \<Rightarrow> channel_id \<Rightarrow> 't world \<Rightarrow> 't world" where
  "RplEndOfInviteList target channel w =
     NumericReply target RPL_ENDOFINVITELIST ''%s :End of channel invite list'' [chan_str w channel] w"

definition RplMaskList :: "client_id \<Rightarrow> rune \<Rightarrow> channel_id \<Rightarrow> string \<Rightarrow> 't world \<Rightarrow> 't world" where
  "RplMaskList target mode channel msk w =
     (if mode = BanMask then RplBanList target channel msk w
      else if mode = ExceptMask then RplExceptList target channel msk w
      else if mode = InviteMask then RplInviteList target channel msk w
      else w)"

definition RplEndOfMaskList :: "client_id \<Rightarrow> rune \<Rightarrow> channel_id \<Rightarrow> 't world \<Rightarrow> 't world" where
  "RplEndOfMaskList target mode channel w =
     (if mode = BanMask then RplEndOfBanList target channel w
      else if mode = ExceptMask then RplEndOfExceptList target channel w
      else if mode = InviteMask then RplEndOfInviteList target channel w
      else w)"

definition RplNowAway :: "client_id \<Rightarrow> 't world \<Rightarrow> 't world" where
  "RplNowAway target w = NumericReply target RPL_NOWAWAY '':You have been marked as being away'' [] w"

definition RplUnAway :: "client_id \<Rightarrow> 't world \<Rightarrow> 't world" where
  "RplUnAway target w = NumericReply target RPL_UNAWAY '':You are no longer marked as being away'' [] w"

definition RplAway :: "client_id \<Rightarrow> client_id \<Rightarrow> 't world \<Rightarrow> 't world" where
  "RplAway target client w =
     NumericReply target RPL_AWAY ''%s :%s'' [Nick w client, c_awayMessage (cl w client)] w"

definition RplIsOn :: "client_id \<Rightarrow> string list \<Rightarrow> 't world \<Rightarrow> 't world" where
  "RplIsOn target nicks w = NumericReply target RPL_ISON '':%s'' [join '' '' nicks] w"

definition RplMOTDStart :: "client_id \<Rightarrow> 't world \<Rightarrow> 't world" where
  "RplMOTDStart target w = NumericReply target RPL_MOTDSTART '':- %s Message of the day - '' [srv_name w] w"

definition RplMOTD :: "client_id \<Rightarrow> string \<Rightarrow> 't world \<Rightarrow> 't world" where
  "RplMOTD target line w = NumericReply target RPL_MOTD '':- %s'' [line] w"

definition RplMOTDEnd :: "client_id \<Rightarrow> 't world \<Rightarrow> 't world" where
  "RplMOTDEnd target w = NumericReply target RPL_ENDOFMOTD '':End of MOTD command'' [] w"

definition RplList :: "'t go_env \<Rightarrow> client_id \<Rightarrow> channel_id \<Rightarrow> 't world \<Rightarrow> 't world" where
  "RplList E target channel w =
     NumericReply target RPL_LIST ''%s %d :%s''
       [chan_str w channel, format_nat (mem_count (members_ops E) (ch_members (chn w channel))),
        ch_topic (chn w channel)] w"

definition RplListEnd :: "client_id \<Rightarrow> 't world \<Rightarrow> 't world" where
  "RplListEnd target w = NumericReply target RPL_LISTEND '':End of LIST'' [] w"

definition RplVersion :: "client_id \<Rightarrow> 't world \<Rightarrow> 't world" where
  "RplVersion target w = NumericReply target RPL_VERSION ''%s %s'' [FullVersion, srv_name w] w"

definition RplInviting :: "client_id \<Rightarrow> client_id \<Rightarrow> string \<Rightarrow> 't world \<Rightarrow> 't world" where
  "RplInviting target invitee channel w =
     NumericReply target RPL_INVITING ''%s %s'' [Nick w invitee, channel] w"

definition RplTime :: "'t go_env \<Rightarrow> client_id \<Rightarrow> 't world \<Rightarrow> 't world" where
  "RplTime E target w = NumericReply target RPL_TIME ''%s :%s'' [srv_name w, rfc1123 E (w_clock w)] w"

definition RplLUserClient :: "client_id \<Rightarrow> 't world \<Rightarrow> 't world" where
  "RplLUserClient target w =
     NumericReply target RPL_LUSERCLIENT ''There are %d users and %d invisible on %d servers''
       [format_nat (nick_count w), format_nat 0, format_nat 1] w"

definition RplLUserUnknown :: "client_id \<Rightarrow> 't world \<Rightarrow> 't world" where
  "RplLUserUnknown target w =
     (let nUnknown = srv_connections w - int (nick_count w) in
      if nUnknown = 0 then w
      else NumericReply target RPL_LUSERUNKNOWN ''%d :unknown connections(s)'' [format_int nUnknown] w)"

definition RplLUserChannels :: "'t go_env \<Rightarrow> client_id \<Rightarrow> 't world \<Rightarrow> 't world" where
  "RplLUserChannels E target w =
     (let nChannels = cm_count (chan_map E) (srv_channels w) in
      if nChannels = 0 then w
      else NumericReply target RPL_LUSERCHANNELS ''%d :channel(s) formed'' [format_nat nChannels] w)"

definition RplLUserOp :: "'t go_env \<Rightarrow> client_id \<Rightarrow> 't world \<Rightarrow> 't world" where
  "RplLUserOp E target w =
     (let nOperators = length (filter (\<lambda>c. has_mode E w c Operator) (nick_range E w)) in
      if nOperators = 0 then w
      else NumericReply target RPL_LUSEROP ''%d :operator(s) online'' [format_nat nOperators] w)"

definition RplLUserMe :: "client_id \<Rightarrow> 't world \<Rightarrow> 't world" where
  "RplLUserMe target w =
     NumericReply target RPL_LUSERME ''I have %d clients and %d servers''
       [format_nat (nick_count w), format_nat 1] w"

definition RplWhoWasUser :: "'t go_env \<Rightarrow> client_id \<Rightarrow> WhoWas \<Rightarrow> 't world \<Rightarrow> 't world" where
  "RplWhoWasUser E target whoWas w =
     NumericReply target RPL_WHOWASUSER ''%s %s %s * :%s''
       [ww_nickname whoWas, ww_username whoWas,
        if has_mode E w target Operator then ww_hostname whoWas else ww_hostmask whoWas, ww_realname whoWas] w"

definition RplEndOfWhoWas :: "client_id \<Rightarrow> string \<Rightarrow> 't world \<Rightarrow> 't world" where
  "RplEndOfWhoWas target nickname w =
     NumericReply target RPL_ENDOFWHOWAS ''%s :End of WHOWAS'' [nickname] w"

section \<open>Errors\<close>

definition ErrAlreadyRegistered :: "client_id \<Rightarrow> 't world \<Rightarrow> 't world" where
  "ErrAlreadyRegistered target w = NumericReply target ERR_ALREADYREGISTRED '':You may not reregister'' [] w"

definition ErrNickNameInUse :: "client_id \<Rightarrow> string \<Rightarrow> 't world \<Rightarrow> 't world" where
  "ErrNickNameInUse target nick w =
     NumericReply target ERR_NICKNAMEINUSE ''%s :Nickname is already in use'' [nick] w"

definition ErrUnknownCommand :: "client_id \<Rightarrow> string \<Rightarrow> 't world \<Rightarrow> 't world" where
  "ErrUnknownCommand target code w = NumericReply target ERR_UNKNOWNCOMMAND ''%s :Unknown command'' [code] w"

definition ErrUsersDontMatch :: "client_id \<Rightarrow> 't world \<Rightarrow> 't world" where
  "ErrUsersDontMatch target w =
     NumericReply target ERR_USERSDONTMATCH '':Cannot change mode for other users'' [] w"

definition ErrNeedMoreParams :: "client_id \<Rightarrow> string \<Rightarrow> 't world \<Rightarrow> 't world" where
  "ErrNeedMoreParams target command w =
     NumericReply target ERR_NEEDMOREPARAMS ''%s :Not enough parameters'' [command] w"

definition ErrNoSuchChannel :: "client_id \<Rightarrow> string \<Rightarrow> 't world \<Rightarrow> 't world" where
  "ErrNoSuchChannel target channel w =
     NumericReply target ERR_NOSUCHCHANNEL ''%s :No such channel'' [channel] w"

definition ErrUserOnChannel :: "client_id \<Rightarrow> channel_id \<Rightarrow> client_id \<Rightarrow> 't world \<Rightarrow> 't world" where
  "ErrUserOnChannel target channel member w =
     NumericReply target ERR_USERONCHANNEL ''%s %s :is already on channel'' [Nick w member, chan_str w channel] w"

definition ErrNotOnChannel :: "client_id \<Rightarrow> channel_id \<Rightarrow> 't world \<Rightarrow> 't world" where
  "ErrNotOnChannel target channel w =
     NumericReply target ERR_NOTONCHANNEL ''%s :You're not on that channel'' [chan_str w channel] w"

definition ErrInviteOnlyChannel :: "client_id \<Rightarrow> channel_id \<Rightarrow> 't world \<Rightarrow> 't world" where
  "ErrInviteOnlyChannel target channel w =
     NumericReply target ERR_INVITEONLYCHAN ''%s :Cannot join channel (+i)'' [chan_str w channel] w"

definition ErrBadChannelKey :: "client_id \<Rightarrow> channel_id \<Rightarrow> 't world \<Rightarrow> 't world" where
  "ErrBadChannelKey target channel w =
     NumericReply target ERR_BADCHANNELKEY ''%s :Cannot join channel (+k)'' [chan_str w channel] w"

definition ErrNoSuchNick :: "client_id \<Rightarrow> string \<Rightarrow> 't world \<Rightarrow> 't world" where
  "ErrNoSuchNick target nick w = NumericReply target ERR_NOSUCHNICK ''%s :No such nick/channel'' [nick] w"

definition ErrPasswdMismatch :: "client_id \<Rightarrow> 't world \<Rightarrow> 't world" where
  "ErrPasswdMismatch target w = NumericReply target ERR_PASSWDMISMATCH '':Password incorrect'' [] w"

definition ErrNoChanModes :: "client_id \<Rightarrow> channel_id \<Rightarrow> 't world \<Rightarrow> 't world" where
  "ErrNoChanModes target channel w =
     NumericReply target ERR_NOCHANMODES ''%s :Channel doesn't support modes'' [chan_str w channel] w"

definition ErrNoPrivileges :: "client_id \<Rightarrow> 't world \<Rightarrow> 't world" where
  "ErrNoPrivileges target w = NumericReply target ERR_NOPRIVILEGES '':Permission Denied'' [] w"

definition ErrRestricted :: "client_id \<Rightarrow> 't world \<Rightarrow> 't world" where
  "ErrRestricted target w = NumericReply target ERR_RESTRICTED '':Your connection is restricted!'' [] w"

definition ErrNoSuchServer :: "client_id \<Rightarrow> string \<Rightarrow> 't world \<Rightarrow> 't world" where
  "ErrNoSuchServer target server w = NumericReply target ERR_NOSUCHSERVER ''%s :No such server'' [server] w"

definition ErrUserNotInChannel :: "client_id \<Rightarrow> channel_id \<Rightarrow> client_id \<Rightarrow> 't world \<Rightarrow> 't world" where
  "ErrUserNotInChannel target channel client w =
     NumericReply target ERR_USERNOTINCHANNEL ''%s %s :They aren't on that channel'' [Nick w client, chan_str w channel] w"

definition ErrCannotSendToChan :: "client_id \<Rightarrow> channel_id \<Rightarrow> 't world \<Rightarrow> 't world" where
  "ErrCannotSendToChan target channel w =
     NumericReply target ERR_CANNOTSENDTOCHAN ''%s :Cannot send to channel'' [chan_str w channel] w"

definition ErrCannotSendToUser :: "client_id \<Rightarrow> string \<Rightarrow> string \<Rightarrow> 't world \<Rightarrow> 't world" where
  "ErrCannotSendToUser target nick reason w =
     NumericReply target ERR_CANNOTSENDTOUSER '':Cannot send to user %s (%s)'' [nick, reason] w"

definition ErrChanOPrivIsNeeded :: "client_id \<Rightarrow> channel_id \<Rightarrow> 't world \<Rightarrow> 't world" where
  "ErrChanOPrivIsNeeded target channel w =
     NumericReply target ERR_CHANOPRIVSNEEDED ''%s :You're not channel operator'' [chan_str w channel] w"

definition ErrNoMOTD :: "client_id \<Rightarrow> 't world \<Rightarrow> 't world" where
  "ErrNoMOTD target w = NumericReply target ERR_NOMOTD '':MOTD File is missing'' [] w"

definition ErrNoNicknameGiven :: "client_id \<Rightarrow> 't world \<Rightarrow> 't world" where
  "ErrNoNicknameGiven target w = NumericReply target ERR_NONICKNAMEGIVEN '':No nickname given'' [] w"

definition ErrErroneusNickname :: "client_id \<Rightarrow> string \<Rightarrow> 't world \<Rightarrow> 't world" where
  "ErrErroneusNickname target nick w =
     NumericReply target ERR_ERRONEUSNICKNAME ''%s :Erroneous nickname'' [nick] w"

definition ErrUnknownMode :: "client_id \<Rightarrow> rune \<Rightarrow> channel_id \<Rightarrow> 't world \<Rightarrow> 't world" where
  "ErrUnknownMode target mode channel w =
     NumericReply target ERR_UNKNOWNMODE ''%s :is unknown mode char to me for %s'' [rune_str mode, chan_str w channel] w"

definition ErrConfiguredMode :: "client_id \<Rightarrow> rune \<Rightarrow> 't world \<Rightarrow> 't world" where
  "ErrConfiguredMode target mode w =
     NumericReply target ERR_UNKNOWNMODE ''%s :can only change this mode in daemon configuration'' [rune_str mode] w"

definition ErrChannelIsFull :: "client_id \<Rightarrow> channel_id \<Rightarrow> 't world \<Rightarrow> 't world" where
  "ErrChannelIsFull target channel w =
     NumericReply target ERR_CHANNELISFULL ''%s :Cannot join channel (+l)'' [chan_str w channel] w"

definition ErrWasNoSuchNick :: "client_id \<Rightarrow> string \<Rightarrow> 't world \<Rightarrow> 't world" where
  "ErrWasNoSuchNick target nickname w =
     NumericReply target ERR_WASNOSUCHNICK ''%s :There was no such nickname'' [nickname] w"

definition ErrInvalidCapCmd :: "client_id \<Rightarrow> string \<Rightarrow> 't world \<Rightarrow> 't world" where
  "ErrInvalidCapCmd target subCommand w =
     NumericReply target ERR_INVALIDCAPCMD ''%s :Invalid CAP subcommand'' [subCommand] w"

definition ErrBannedFromChan :: "client_id \<Rightarrow> channel_id \<Rightarrow> 't world \<Rightarrow> 't world" where
  "ErrBannedFromChan target channel w =
     NumericReply target ERR_BANNEDFROMCHAN ''%s :Cannot join channel (+b)'' [chan_str w channel] w"

definition ErrInviteOnlyChan :: "client_id \<Rightarrow> channel_id \<Rightarrow> 't world \<Rightarrow> 't world" where
  "ErrInviteOnlyChan target channel w =
     NumericReply target ERR_INVITEONLYCHAN ''%s :Cannot join channel (+i)'' [chan_str w channel] w"

section \<open>SASL\<close>

definition RplAuthenticate :: "'t world \<Rightarrow> string \<Rightarrow> string" where
  "RplAuthenticate w arg = NewStringReply (Some (srv_name w)) ''AUTHENTICATE'' arg []"

definition RplLoggedIn :: "client_id \<Rightarrow> string \<Rightarrow> 't world \<Rightarrow> 't world" where
  "RplLoggedIn target authcid w =
     NumericReply target RPL_LOGGEDIN ''%s %s :You are now logged in as %s'' [client_str w target, authcid, authcid] w"

definition RplLoggedOut :: "client_id \<Rightarrow> 't world \<Rightarrow> 't world" where
  "RplLoggedOut target w =
     NumericReply target RPL_LOGGEDIN ''%s :You are now logged out'' [client_str w target] w"

definition ErrNickLocked :: "client_id \<Rightarrow> 't world \<Rightarrow> 't world" where
  "ErrNickLocked target w =
     NumericReply target ERR_NICKLOCKED ''%s :You must use a nick assigned to you'' [Nick w target] w"

definition RplSaslSuccess :: "client_id \<Rightarrow> 't world \<Rightarrow> 't world" where
  "RplSaslSuccess target w =
     NumericReply target RPL_SASLSUCCESS ''%s :SASL authentication successful'' [Nick w target] w"

definition ErrSaslFail :: "client_id \<Rightarrow> string \<Rightarrow> 't world \<Rightarrow> 't world" where
  "ErrSaslFail target reason w =
     NumericReply target ERR_SASLFAIL ''%s :SASL authentication failed: %s'' [Nick w target, reason] w"

definition ErrSaslTooLong :: "client_id \<Rightarrow> 't world \<Rightarrow> 't world" where
  "ErrSaslTooLong target w = NumericReply target ERR_SASLFAIL ''%s :SASL message too long'' [Nick w target] w"

definition ErrSaslAborted :: "client_id \<Rightarrow> 't world \<Rightarrow> 't world" where
  "ErrSaslAborted target w =
     NumericReply target ERR_SASLABORTED ''%s :SASL authentication aborted'' [Nick w target] w"

definition ErrSaslAlready :: "client_id \<Rightarrow> 't world \<Rightarrow> 't world" where
  "ErrSaslAlready target w =
     NumericReply target ERR_SASLALREADY ''%s :You have already authenticated using SASL'' [Nick w target] w"

definition RplSaslMechs :: "client_id \<Rightarrow> string list \<Rightarrow> 't world \<Rightarrow> 't world" where
  "RplSaslMechs target mechs w =
     NumericReply target RPL_SASLMECHS ''%s %s :are available SASL mechanisms'' [Nick w target, join '',''  mechs] w"

section \<open>What a reply does not change\<close>

text \<open>The world without what was written to the clients and without the counters of messages.\<close>

definition core :: "'t world \<Rightarrow> 't world" where
  "core w = w\<lparr>w_out := [], w_messages := 0, w_commands := 0\<rparr>"

lemma core_fields:
  assumes "core w = core w'"
  shows "w_clients w = w_clients w'" "w_chans w = w_chans w'" "w_next_chan w = w_next_chan w'"
    "srv_channels w = srv_channels w'" "srv_connections w = srv_connections w'"
    "srv_nicks w = srv_nicks w'" "srv_whoWas w = srv_whoWas w'" "srv_password w = srv_password w'"
    "srv_operators w = srv_operators w'" "srv_accounts w = srv_accounts w'" "srv_name w = srv_name w'"
    "srv_network w = srv_network w'" "srv_config w = srv_config w'" "w_clock w = w_clock w'"
    "w_next_client w = w_next_client w'"
  using assms unfolding core_def by (cases w, cases w', simp)+

lemma core_out [core_simps]:
  "core (w\<lparr>w_out := x\<rparr>) = core w" "core (w\<lparr>w_messages := n\<rparr>) = core w" "core (w\<lparr>w_commands := n\<rparr>) = core w"
  by (simp_all add: core_def)

lemma core_Reply [core_simps]: "core (Reply c s w) = core w"
  by (simp add: Reply_def core_simps)

lemma core_fold:
  assumes "\<And>x w. core (f x w) = core w"
  shows "core (fold f xs w) = core w"
  using assms by (induction xs arbitrary: w) auto

lemma core_reply_all [core_simps]: "core (reply_all cs s w) = core w"
  unfolding reply_all_def by (rule core_fold) (rule core_Reply)

lemma core_NumericReply [core_simps]: "core (NumericReply c n fmt args w) = core w"
  by (simp add: NumericReply_def core_simps)

lemma core_MultilineReply [core_simps]: "core (MultilineReply c names n fmt args w) = core w"
  unfolding MultilineReply_def by (rule core_fold) (rule core_NumericReply)

lemma core_replies [core_simps]:
  "core (RplWelcome c0 w) = core w" "core (RplYourHost c0 w) = core w" "core (RplCreated E c1 w) = core w"
  "core (RplMyInfo c0 w) = core w" "core (RplUModeIs E c1 c2 w) = core w"
  "core (RplNoTopic c0 c1 w) = core w" "core (RplTopic c0 c1 w) = core w"
  "core (RplInvitingMsg c0 c1 s2 w) = core w" "core (RplEndOfNames c0 c1 w) = core w"
  "core (RplYoureOper c0 w) = core w" "core (RplRehashing c0 w) = core w"
  "core (RplWhoisUser E c1 c2 w) = core w" "core (RplWhoisOperator c0 c1 w) = core w"
  "core (RplWhoisSecure c0 c1 w) = core w" "core (RplWhoisIdle c0 c1 w) = core w"
  "core (RplWhoisLoggedIn c0 c1 w) = core w" "core (RplWhoisServer c0 c1 w) = core w"
  "core (RplEndOfWhois c0 c1 w) = core w" "core (RplChannelModeIs E c1 c2 w) = core w"
  "core (RplWhoReply E c1 chopt c3 w) = core w" "core (RplEndOfWho c0 s1 w) = core w"
  "core (RplBanList c0 c1 s2 w) = core w" "core (RplExceptList c0 c1 s2 w) = core w"
  "core (RplInviteList c0 c1 s2 w) = core w" "core (RplEndOfBanList c0 c1 w) = core w"
  "core (RplEndOfExceptList c0 c1 w) = core w" "core (RplEndOfInviteList c0 c1 w) = core w"
  "core (RplMaskList c0 c1 c2 s3 w) = core w" "core (RplEndOfMaskList c0 c1 c2 w) = core w"
  "core (RplNowAway c0 w) = core w" "core (RplUnAway c0 w) = core w" "core (RplAway c0 c1 w) = core w"
  "core (RplIsOn c0 l1 w) = core w" "core (RplMOTDStart c0 w) = core w" "core (RplMOTD c0 s1 w) = core w"
  "core (RplMOTDEnd c0 w) = core w" "core (RplList E c1 c2 w) = core w" "core (RplListEnd c0 w) = core w"
  "core (RplVersion c0 w) = core w" "core (RplInviting c0 c1 s2 w) = core w"
  "core (RplTime E c1 w) = core w" "core (RplLUserClient c0 w) = core w"
  "core (RplLUserUnknown c0 w) = core w" "core (RplLUserChannels E c1 w) = core w"
  "core (RplLUserOp E c1 w) = core w" "core (RplLUserMe c0 w) = core w"
  "core (RplWhoWasUser E c1 ww w) = core w" "core (RplEndOfWhoWas c0 s1 w) = core w"
  "core (ErrAlreadyRegistered c0 w) = core w" "core (ErrNickNameInUse c0 s1 w) = core w"
  "core (ErrUnknownCommand c0 s1 w) = core w" "core (ErrUsersDontMatch c0 w) = core w"
  "core (ErrNeedMoreParams c0 s1 w) = core w" "core (ErrNoSuchChannel c0 s1 w) = core w"
  "core (ErrUserOnChannel c0 c1 c2 w) = core w" "core (ErrNotOnChannel c0 c1 w) = core w"
  "core (ErrInviteOnlyChannel c0 c1 w) = core w" "core (ErrBadChannelKey c0 c1 w) = core w"
  "core (ErrNoSuchNick c0 s1 w) = core w" "core (ErrPasswdMismatch c0 w) = core w"
  "core (ErrNoChanModes c0 c1 w) = core w" "core (ErrNoPrivileges c0 w) = core w"
  "core (ErrRestricted c0 w) = core w" "core (ErrNoSuchServer c0 s1 w) = core w"
  "core (ErrUserNotInChannel c0 c1 c2 w) = core w" "core (ErrCannotSendToChan c0 c1 w) = core w"
  "core (ErrCannotSendToUser c0 s1 s2 w) = core w" "core (ErrChanOPrivIsNeeded c0 c1 w) = core w"
  "core (ErrNoMOTD c0 w) = core w" "core (ErrNoNicknameGiven c0 w) = core w"
  "core (ErrErroneusNickname c0 s1 w) = core w" "core (ErrUnknownMode c0 c1 c2 w) = core w"
  "core (ErrConfiguredMode c0 c1 w) = core w" "core (ErrChannelIsFull c0 c1 w) = core w"
  "core (ErrWasNoSuchNick c0 s1 w) = core w" "core (ErrInvalidCapCmd c0 s1 w) = core w"
  "core (ErrBannedFromChan c0 c1 w) = core w" "core (ErrInviteOnlyChan c0 c1 w) = core w"
  "core (RplLoggedIn c0 s1 w) = core w" "core (RplLoggedOut c0 w) = core w"
  "core (ErrNickLocked c0 w) = core w" "core (RplSaslSuccess c0 w) = core w"
  "core (ErrSaslFail c0 s1 w) = core w" "core (ErrSaslTooLong c0 w) = core w"
  "core (ErrSaslAborted c0 w) = core w" "core (ErrSaslAlready c0 w) = core w"
  "core (RplSaslMechs c0 l1 w) = core w"
  by (simp_all add: core_NumericReply Let_def
    RplWelcome_def RplYourHost_def RplCreated_def RplMyInfo_def RplUModeIs_def RplNoTopic_def RplTopic_def
    RplInvitingMsg_def RplEndOfNames_def RplYoureOper_def RplRehashing_def RplWhoisUser_def
    RplWhoisOperator_def RplWhoisSecure_def RplWhoisIdle_def RplWhoisLoggedIn_def RplWhoisServer_def
    RplEndOfWhois_def RplChannelModeIs_def RplWhoReply_def RplEndOfWho_def RplBanList_def RplExceptList_def
    RplInviteList_def RplEndOfBanList_def RplEndOfExceptList_def RplEndOfInviteList_def RplMaskList_def
    RplEndOfMaskList_def RplNowAway_def RplUnAway_def RplAway_def RplIsOn_def RplMOTDStart_def RplMOTD_def
    RplMOTDEnd_def RplList_def RplListEnd_def RplVersion_def RplInviting_def RplTime_def RplLUserClient_def
    RplLUserUnknown_def RplLUserChannels_def RplLUserOp_def RplLUserMe_def RplWhoWasUser_def
    RplEndOfWhoWas_def ErrAlreadyRegistered_def ErrNickNameInUse_def ErrUnknownCommand_def
    ErrUsersDontMatch_def ErrNeedMoreParams_def ErrNoSuchChannel_def ErrUserOnChannel_def
    ErrNotOnChannel_def ErrInviteOnlyChannel_def ErrBadChannelKey_def ErrNoSuchNick_def
    ErrPasswdMismatch_def ErrNoChanModes_def ErrNoPrivileges_def ErrRestricted_def ErrNoSuchServer_def
    ErrUserNotInChannel_def ErrCannotSendToChan_def ErrCannotSendToUser_def ErrChanOPrivIsNeeded_def
    ErrNoMOTD_def ErrNoNicknameGiven_def ErrErroneusNickname_def ErrUnknownMode_def ErrConfiguredMode_def
    ErrChannelIsFull_def ErrWasNoSuchNick_def ErrInvalidCapCmd_def ErrBannedFromChan_def
    ErrInviteOnlyChan_def RplLoggedIn_def RplLoggedOut_def ErrNickLocked_def RplSaslSuccess_def
    ErrSaslFail_def ErrSaslTooLong_def ErrSaslAborted_def ErrSaslAlready_def RplSaslMechs_def)

section \<open>How a list of names is cut\<close>

lemma concat_multiline:
  assumes "i < j" "j \<le> length names"
  shows "concat (multiline_loop b names i j) = drop i names"
  using assms
proof (induction b names i j rule: multiline_loop.induct)
  case (1 b names i j)
  show ?case
  proof (cases "j < length names")
    case True
    show ?thesis
    proof (cases "i < j - 1 \<and> b + joinedLen (names_slice names i j) > MAX_REPLY_LEN")
      case cut: True
      have "concat (multiline_loop b names (j - 1) j) = drop (j - 1) names"
        using 1 True cut by simp
      moreover have "names_slice names i (j - 1) @ drop (j - 1) names = drop i names"
        using cut by (metis append_take_drop_id drop_drop le_add_diff_inverse2 less_imp_le names_slice_def)
      ultimately show ?thesis
        using True cut by (subst multiline_loop.simps) simp
    next
      case False
      then show ?thesis using 1 True by (subst multiline_loop.simps) auto
    qed
  next
    case False
    with 1 show ?thesis by (subst multiline_loop.simps) simp
  qed
qed

text \<open>A slice that is short enough, or has at most one name.\<close>

definition chunk_ok :: "int \<Rightarrow> string list \<Rightarrow> bool" where
  "chunk_ok b ns \<longleftrightarrow> length ns \<le> 1 \<or> b + joinedLen ns \<le> MAX_REPLY_LEN"

lemma chunk_ok_butlast: "chunk_ok b ns \<Longrightarrow> chunk_ok b (butlast ns)"
proof (cases ns rule: rev_cases)
  case (snoc ms m)
  assume "chunk_ok b ns"
  with snoc show ?thesis by (auto simp: chunk_ok_def joinedLen_def)
qed simp

lemma multiline_not_Nil: "i < length names \<Longrightarrow> multiline_loop b names i j \<noteq> []"
proof (induction b names i j rule: multiline_loop.induct)
  case (1 b names i j)
  then show ?case by (subst multiline_loop.simps) simp
qed

lemma slice_butlast: "i < length names \<Longrightarrow> names_slice names i (length names - 1) = butlast (drop i names)"
  by (simp add: names_slice_def butlast_conv_take)

lemma multiline_chunks_ok:
  assumes "i < j" "j \<le> length names" "chunk_ok b (names_slice names i (j - 1))"
  shows "(\<forall>ns \<in> set (multiline_loop b names i j). ns \<noteq> [] \<and> chunk_ok b (butlast ns)) \<and>
    (\<forall>ns \<in> set (butlast (multiline_loop b names i j)). chunk_ok b ns)"
  using assms
proof (induction b names i j rule: multiline_loop.induct)
  case (1 b names i j)
  show ?case
  proof (cases "j < length names")
    case True
    show ?thesis
    proof (cases "i < j - 1 \<and> b + joinedLen (names_slice names i j) > MAX_REPLY_LEN")
      case cut: True
      let ?ns = "names_slice names i (j - 1)"
      have ns: "?ns \<noteq> []" "chunk_ok b ?ns" "chunk_ok b (butlast ?ns)"
        using cut True "1.prems" chunk_ok_butlast by (auto simp: names_slice_def)
      have "names_slice names (j - 1) (j - 1) = []" by (simp add: names_slice_def)
      then have "chunk_ok b (names_slice names (j - 1) (j - 1))" by (simp add: chunk_ok_def)
      then have IH: "(\<forall>ns \<in> set (multiline_loop b names (j - 1) j). ns \<noteq> [] \<and> chunk_ok b (butlast ns)) \<and>
          (\<forall>ns \<in> set (butlast (multiline_loop b names (j - 1) j)). chunk_ok b ns)"
        using "1.IH"(1) [OF True cut] cut "1.prems" by simp
      have "multiline_loop b names i j = ?ns # multiline_loop b names (j - 1) j"
        using True cut by (subst multiline_loop.simps) simp
      with IH ns show ?thesis by auto
    next
      case False
      then have "chunk_ok b (names_slice names i (j + 1 - 1))" by (auto simp: chunk_ok_def names_slice_def)
      moreover have "multiline_loop b names i j = multiline_loop b names i (j + 1)"
        using True False by (subst multiline_loop.simps) auto
      ultimately show ?thesis using "1.IH"(2) [OF True False] "1.prems" True by simp
    qed
  next
    case False
    then have j: "j = length names" using "1.prems" by simp
    then have "multiline_loop b names i j = [drop i names]"
      using "1.prems" by (subst multiline_loop.simps) simp
    with j "1.prems" show ?thesis by (simp add: slice_butlast [simplified])
  qed
qed

text \<open>A long list of names is sent in several replies. Together they hold every name once and in
  order, none is empty, and every reply but the last one keeps the length limit (a single name that
  is longer stands alone); the last one keeps it without its last name.\<close>

theorem multiline_reply_chunks:
  assumes "names \<noteq> []"
  shows "concat (multiline_loop b names 0 1) = names \<and>
    (\<forall>ns \<in> set (multiline_loop b names 0 1). ns \<noteq> [] \<and> chunk_ok b (butlast ns)) \<and>
    (\<forall>ns \<in> set (butlast (multiline_loop b names 0 1)). chunk_ok b ns)"
proof -
  have "chunk_ok b (names_slice names 0 (1 - 1))" by (simp add: chunk_ok_def names_slice_def)
  moreover have "(1 :: nat) \<le> length names" using assms by (cases names) auto
  ultimately show ?thesis
    using concat_multiline [of 0 1 names b] multiline_chunks_ok [of 0 1 names b] by simp
qed

theorem multiline_reply_chunks_witness:
  "multiline_loop 504 [''ann'', ''bob'', ''cy'', ''dave''] 0 1 = [[''ann''], [''bob'', ''cy'', ''dave'']] \<and>
   concat (multiline_loop 504 [''ann'', ''bob'', ''cy'', ''dave''] 0 1) = [''ann'', ''bob'', ''cy'', ''dave'']"
  using multiline_reply_chunks [of "[''ann'', ''bob'', ''cy'', ''dave'']" 504]
  by (simp add: multiline_loop.simps names_slice_def joinedLen_def MAX_REPLY_LEN_def)

section \<open>A relayed message, as its receiver reads it\<close>

lemma RplPrivMsg_line:
  "RplPrivMsg src tgt msg = '':'' @ src @ '' PRIVMSG '' @ tgt @ '' :'' @ msg"
  by (simp add: RplPrivMsg_def NewStringReply_def message_def)

text \<open>A client that reads a relayed PRIVMSG as this server reads lines finds the sender's prefix
  dropped, the target and the exact text, whatever the text holds, provided that the sender's
  prefix has no space and the target can stand as a middle argument.\<close>

theorem relayed_privmsg_reads_back:
  assumes "CHR '' '' \<notin> set (client_id_string w c)" "middle_ok tgt"
  shows "ParseLine E (RplPrivMsg (client_id_string w c) tgt msg) =
    (NewName E (to_upper E ''PRIVMSG''), [tgt, msg])"
  using parse_line_law [of "client_id_string w c" "''PRIVMSG''" "[tgt]" E msg] assms
  by (simp add: RplPrivMsg_line middle_ok_def)

text \<open>A username with a space in it breaks the prefix of what its owner sends: the receiver
  takes the words after the space for the command. \<open>NewName\<close> lets a space in, because NFKC maps
  the no-break space to one.\<close>

theorem username_space_forges_command:
  assumes "CHR '' '' \<notin> set (c_nick (cl w c) @ u)" "middle_ok cmd"
    and "c_username (cl w c) = u @ '' '' @ cmd @ '' :'' @ forged"
  shows "ParseLine E (RplPrivMsg (client_id_string w c) tgt msg) =
    (NewName E (to_upper E cmd),
     [forged @ ''@'' @ c_hostmask (cl w c) @ '' PRIVMSG '' @ tgt @ '' :'' @ msg])"
  using parse_line_law [of "c_nick (cl w c) @ ''!'' @ u" cmd "[]" E
      "forged @ ''@'' @ c_hostmask (cl w c) @ '' PRIVMSG '' @ tgt @ '' :'' @ msg"] assms
  by (simp add: RplPrivMsg_line client_id_string_def UserHost_def Let_def)

text \<open>A world with two clients, for concrete inputs.\<close>

definition fresh_client :: "rep Client" where
  "fresh_client =
     \<lparr>c_atime = 0, c_authorized = True, c_awayMessage = [], c_capabilities = [], c_capState = CapNone,
      c_channels = RSet [], c_ctime = 0, c_modes = RSet [], c_hasQuit = False, c_hops = 0,
      c_hostname = ''host'', c_hostmask = ''mask'', c_pingTime = 0, c_idleTimer = None, c_nick = [],
      c_quitTimer = None, c_realname = [], c_registered = False, c_sasl = NewSaslState, c_username = [],
      c_tls = False, c_replies_closed = False, c_socket_closed = False\<rparr>"

definition ann :: "rep Client" where
  "ann = fresh_client\<lparr>c_nick := ''ann'', c_username := ''ann'', c_registered := True\<rparr>"

definition bob :: "rep Client" where
  "bob = fresh_client\<lparr>c_nick := ''bob'', c_username := ''b KILL :ann'', c_registered := True\<rparr>"

definition blank_channel :: "rep Channel" where
  "blank_channel =
     \<lparr>ch_flags = RSet [], ch_lists = (\<lambda>_. None), ch_key = [], ch_members = RMem [], ch_name = [],
      ch_topic = [], ch_userLimit = 0\<rparr>"

definition two_clients :: "rep world" where
  "two_clients =
     \<lparr>w_clients = (\<lambda>c. if c = 1 then ann else if c = 2 then bob else fresh_client),
      w_chans = (\<lambda>_. blank_channel), w_next_client = 3, w_next_chan = 0, srv_channels = RNames [], srv_connections = 2,
      srv_nicks = [(''ann'', 1), (''bob'', 2)], srv_ctime = 0, srv_name = ''irc.x'', srv_network = ''net'',
      srv_description = [], srv_operators = [(''root'', ''key'')], srv_accounts = [], srv_password = None,
      srv_whoWas = NewWhoWasList 100, srv_global_id = ''global'', srv_motdFile = [],
      srv_config = zero_config\<lparr>cfg_name := ''irc.x'', cfg_network := ''net''\<rparr>,
      w_files = (\<lambda>_. None), w_clock = 0, w_out = [], w_messages = 0, w_commands = 0,
      w_secure = 0, w_insecure = 2\<rparr>"

lemma two_clients_simps [simp]:
  "cl two_clients c = (if c = 1 then ann else if c = 2 then bob else fresh_client)"
  "chn two_clients ch = blank_channel" "srv_name two_clients = ''irc.x''"
  "srv_nicks two_clients = [(''ann'', 1), (''bob'', 2)]" "srv_channels two_clients = RNames []"
  "w_next_chan two_clients = 0" "w_out two_clients = []" "srv_whoWas two_clients = NewWhoWasList 100"
  "srv_password two_clients = None" "srv_operators two_clients = [(''root'', ''key'')]"
  by (simp_all add: two_clients_def)

theorem relayed_privmsg_reads_back_witness:
  "ParseLine list_env (RplPrivMsg (client_id_string two_clients 1) ''bob'' '':) hi'') =
    (NewName list_env (to_upper list_env ''PRIVMSG''), [''bob'', '':) hi''])"
  by (rule relayed_privmsg_reads_back)
    (simp_all add: client_id_string_def UserHost_def ann_def fresh_client_def middle_ok_def)

theorem username_space_forges_command_witness:
  "ParseLine list_env (RplPrivMsg (client_id_string two_clients 2) ''ann'' ''hi'') =
    (NewName list_env (to_upper list_env ''KILL''), [''ann'' @ ''@'' @ ''mask'' @ '' PRIVMSG '' @ ''ann'' @ '' :'' @ ''hi''])"
  using username_space_forges_command [of two_clients 2 "''b''" "''KILL''" "''ann''" list_env "''ann''" "''hi''"]
  by (simp add: bob_def fresh_client_def middle_ok_def)

end
