(* ===== verification/Channel.thy ===== *)
theory Channel
  imports Reply
begin

text \<open>
  src/internal/channel.go and privacy.go: the operations of a channel, as functions of the world.
  A channel is reached by its pointer, and \<open>members.Range\<close> visits the members in the order of
  \<open>mem_range\<close>.
\<close>

section \<open>Reading a channel\<close>

text \<open>
  \<open>lists\<close> is built by \<open>NewChannel\<close> with the entries of the three kinds of masks, and nothing
  assigns to it, so an entry read below is there.
\<close>

definition mask_list :: "'t Channel \<Rightarrow> rune \<Rightarrow> UserMaskSet" where
  "mask_list ch mode = (case ch_lists ch mode of None \<Rightarrow> NewUserMaskSet | Some l \<Rightarrow> l)"

definition members :: "'t go_env \<Rightarrow> 't world \<Rightarrow> channel_id \<Rightarrow> client_id list" where
  "members E w ch = map fst (mem_range (members_ops E) (ch_members (chn w ch)))"

definition IsEmpty :: "'t go_env \<Rightarrow> 't world \<Rightarrow> channel_id \<Rightarrow> bool" where
  "IsEmpty E w ch \<longleftrightarrow> mem_count (members_ops E) (ch_members (chn w ch)) = 0"

definition ClientIsOperator :: "'t go_env \<Rightarrow> 't world \<Rightarrow> channel_id \<Rightarrow> client_id \<Rightarrow> bool" where
  "ClientIsOperator E w ch client \<longleftrightarrow>
     has_mode E w client Operator \<or> member_mode E w ch client ChannelOperator"

definition nick_prefix :: "'t go_env \<Rightarrow> bool \<Rightarrow> 't \<Rightarrow> string" where
  "nick_prefix E isMultiPrefix modes =
     (let oper = set_has (chan_modes E) modes ChannelOperator; voice = set_has (chan_modes E) modes Voice in
      if isMultiPrefix then (if oper then ''@'' else []) @ (if voice then ''+'' else [])
      else if oper then ''@'' else if voice then ''+'' else [])"

text \<open>\<open>Channel.Nicks\<close>; \<open>make\<close> reserves one place for each member that \<open>Range\<close> then fills.\<close>

definition Nicks :: "'t go_env \<Rightarrow> 't world \<Rightarrow> channel_id \<Rightarrow> client_id \<Rightarrow> string list" where
  "Nicks E w ch target =
     (let isMultiPrefix = ''multi-prefix'' \<in> set (c_capabilities (cl w target))
      in map (\<lambda>(client, modes). nick_prefix E isMultiPrefix modes @ Nick w client)
           (mem_range (members_ops E) (ch_members (chn w ch))))"

definition RplNamReply :: "'t go_env \<Rightarrow> client_id \<Rightarrow> channel_id \<Rightarrow> 't world \<Rightarrow> 't world" where
  "RplNamReply E target ch w =
     MultilineReply target (Nicks E w ch target) RPL_NAMREPLY ''= %s :%s'' [chan_str w ch] w"

text \<open>\<open>Channel.Names\<close>.\<close>

definition channel_Names :: "'t go_env \<Rightarrow> channel_id \<Rightarrow> client_id \<Rightarrow> 't world \<Rightarrow> 't world" where
  "channel_Names E ch client w = RplEndOfNames client ch (RplNamReply E client ch w)"

definition IsFull :: "'t go_env \<Rightarrow> 't world \<Rightarrow> channel_id \<Rightarrow> bool" where
  "IsFull E w ch \<longleftrightarrow>
     ch_userLimit (chn w ch) > 0 \<and> mem_count (members_ops E) (ch_members (chn w ch)) \<ge> ch_userLimit (chn w ch)"

definition CheckKey :: "'t Channel \<Rightarrow> string \<Rightarrow> bool" where
  "CheckKey ch key \<longleftrightarrow> ch_key ch = [] \<or> ch_key ch = key"

text \<open>\<open>CanSeeChannel\<close> (privacy.go).\<close>

definition CanSeeChannel :: "'t go_env \<Rightarrow> 't world \<Rightarrow> client_id \<Rightarrow> channel_id \<Rightarrow> bool" where
  "CanSeeChannel E w client ch =
     (let isPrivate = has_flag E w ch Private;
          isSecret = has_flag E w ch Secret;
          isMember = is_member E w ch client;
          isOperator = has_mode E w client Operator;
          isRegistered = has_mode E w client Registered;
          isSecure = has_mode E w client SecureConn
      in if \<not> (isSecret \<or> isPrivate) then True
         else if isSecret \<and> (isMember \<or> isOperator) then True
         else if isPrivate \<and> (isMember \<or> isOperator \<or> (isRegistered \<and> isSecure)) then True
         else False)"

text \<open>\<open>Channel.CanSpeak\<close>.\<close>

definition channel_can_speak :: "'t go_env \<Rightarrow> 't world \<Rightarrow> channel_id \<Rightarrow> client_id \<Rightarrow> bool" where
  "channel_can_speak E w ch client =
     (if ClientIsOperator E w ch client then True
      else if has_flag E w ch NoOutside \<and> \<not> is_member E w ch client then False
      else if has_flag E w ch Moderated \<and>
           \<not> (member_mode E w ch client Voice \<or> member_mode E w ch client ChannelOperator) then False
      else if has_flag E w ch SecureChan \<and> \<not> has_mode E w client SecureConn then False
      else True)"

section \<open>Changing a channel\<close>

definition NewChannel :: "'t go_env \<Rightarrow> string \<Rightarrow> bool \<Rightarrow> 't world \<Rightarrow> channel_id \<times> 't world" where
  "NewChannel E name addDefaultModes w =
     (let ch = w_next_chan w;
          channel = \<lparr>ch_flags = (if addDefaultModes
                                  then fold (\<lambda>m s. set_add (chan_modes E) s m) DefaultChannelModes (set_new (chan_modes E))
                                  else set_new (chan_modes E)),
                     ch_lists = [BanMask \<mapsto> NewUserMaskSet, ExceptMask \<mapsto> NewUserMaskSet,
                                 InviteMask \<mapsto> NewUserMaskSet],
                     ch_key = [], ch_members = mem_new (members_ops E), ch_name = name, ch_topic = [],
                     ch_userLimit = 0\<rparr>
      in (ch, (upd_chan ch (\<lambda>_. channel) w)
                \<lparr>w_next_chan := ch + 1, srv_channels := cm_add (chan_map E) (srv_channels w) name ch\<rparr>))"

definition set_flags :: "channel_id \<Rightarrow> ('t \<Rightarrow> 't) \<Rightarrow> 't world \<Rightarrow> 't world" where
  "set_flags ch f = upd_chan ch (\<lambda>r. r\<lparr>ch_flags := f (ch_flags r)\<rparr>)"

definition set_members :: "channel_id \<Rightarrow> ('t \<Rightarrow> 't) \<Rightarrow> 't world \<Rightarrow> 't world" where
  "set_members ch f = upd_chan ch (\<lambda>r. r\<lparr>ch_members := f (ch_members r)\<rparr>)"

definition set_mask_list :: "channel_id \<Rightarrow> rune \<Rightarrow> UserMaskSet \<Rightarrow> 't world \<Rightarrow> 't world" where
  "set_mask_list ch mode l = upd_chan ch (\<lambda>r. r\<lparr>ch_lists := (ch_lists r)(mode \<mapsto> l)\<rparr>)"

text \<open>
  \<open>members.Get(client).Set(mode)\<close> and \<open>Unset\<close>. Every caller has added the client or has tested
  \<open>members.Has\<close> before, so \<open>Get\<close> is not nil.
\<close>

definition member_set :: "'t go_env \<Rightarrow> client_id \<Rightarrow> rune \<Rightarrow> 't \<Rightarrow> 't" where
  "member_set E client mode ms =
     (case mem_get (members_ops E) ms client of
        None \<Rightarrow> ms
      | Some m \<Rightarrow> mem_put (members_ops E) ms client (set_add (chan_modes E) m mode))"

definition member_unset :: "'t go_env \<Rightarrow> client_id \<Rightarrow> rune \<Rightarrow> 't \<Rightarrow> 't" where
  "member_unset E client mode ms =
     (case mem_get (members_ops E) ms client of
        None \<Rightarrow> ms
      | Some m \<Rightarrow> mem_put (members_ops E) ms client (set_remove (chan_modes E) m mode))"

text \<open>\<open>members.Range\<close> with the same reply for every member.\<close>

definition to_members :: "'t go_env \<Rightarrow> channel_id \<Rightarrow> string \<Rightarrow> 't world \<Rightarrow> 't world" where
  "to_members E ch reply w = reply_all (members E w ch) reply w"

section \<open>Joining and leaving\<close>

text \<open>\<open>Channel.GetTopic\<close>.\<close>

definition GetTopic :: "'t go_env \<Rightarrow> channel_id \<Rightarrow> client_id \<Rightarrow> 't world \<Rightarrow> 't world" where
  "GetTopic E ch client w =
     (if \<not> (ClientIsOperator E w ch client \<or> is_member E w ch client) then ErrNotOnChannel client ch w
      else if ch_topic (chn w ch) = [] then RplNoTopic client ch w
      else RplTopic client ch w)"

definition channel_Join :: "'t go_env \<Rightarrow> channel_id \<Rightarrow> client_id \<Rightarrow> string \<Rightarrow> 't world \<Rightarrow> 't world" where
  "channel_Join E ch client key w =
     (if is_member E w ch client then w
      else
        let isOperator = ClientIsOperator E w ch client;
            userhost = UserHost w client False;
            isInvited = mask_match (mask_list (chn w ch) InviteMask) userhost
        in if \<not> isOperator \<and> IsFull E w ch then ErrChannelIsFull client ch w
           else if \<not> isOperator \<and> \<not> CheckKey (chn w ch) key then ErrBadChannelKey client ch w
           else if \<not> isOperator \<and> has_flag E w ch InviteOnly \<and> \<not> isInvited then ErrInviteOnlyChan client ch w
           else if mask_match (mask_list (chn w ch) BanMask) userhost \<and> \<not> isInvited \<and> \<not> isOperator \<and>
                   \<not> mask_match (mask_list (chn w ch) ExceptMask) userhost
           then ErrBannedFromChan client ch w
           else
             let w1 = upd_client client (\<lambda>c. c\<lparr>c_channels := set_add (chan_sets E) (c_channels c) ch\<rparr>) w;
                 w2 = set_members ch (\<lambda>ms. mem_add (members_ops E) ms client) w1;
                 w3 = (if mem_count (members_ops E) (ch_members (chn w2 ch)) = 1
                       then set_members ch (member_set E client ChannelOperator \<circ> member_set E client ChannelCreator) w2
                       else w2)
             in channel_Names E ch client (GetTopic E ch client (to_members E ch (RplJoin w3 client ch) w3)))"

text \<open>\<open>Channel.Quit\<close>.\<close>

definition channel_Quit :: "'t go_env \<Rightarrow> channel_id \<Rightarrow> client_id \<Rightarrow> 't world \<Rightarrow> 't world" where
  "channel_Quit E ch client w =
     (let w1 = set_members ch (\<lambda>ms. mem_remove (members_ops E) ms client) w
      in if IsEmpty E w1 ch
         then w1\<lparr>srv_channels := cm_remove (chan_map E) (srv_channels w1) (chan_str w1 ch) ch\<rparr> else w1)"

definition channel_Part :: "'t go_env \<Rightarrow> channel_id \<Rightarrow> client_id \<Rightarrow> string \<Rightarrow> 't world \<Rightarrow> 't world" where
  "channel_Part E ch client msg w =
     (if \<not> is_member E w ch client then ErrNotOnChannel client ch w
      else channel_Quit E ch client (to_members E ch (RplPart w client ch msg) w))"

definition channel_Kick :: "'t go_env \<Rightarrow> channel_id \<Rightarrow> client_id \<Rightarrow> client_id \<Rightarrow> string \<Rightarrow> 't world \<Rightarrow> 't world" where
  "channel_Kick E ch client target comment w =
     (if \<not> (ClientIsOperator E w ch client \<or> is_member E w ch client) then ErrNotOnChannel client ch w
      else if \<not> ClientIsOperator E w ch client then ErrChanOPrivIsNeeded client ch w
      else if \<not> is_member E w ch target then ErrUserNotInChannel client ch target w
      else channel_Quit E ch target (to_members E ch (RplKick w ch client target comment) w))"

section \<open>Topic and messages\<close>

definition SetTopic :: "'t go_env \<Rightarrow> channel_id \<Rightarrow> client_id \<Rightarrow> string \<Rightarrow> 't world \<Rightarrow> 't world" where
  "SetTopic E ch client topic w =
     (if \<not> (ClientIsOperator E w ch client \<or> is_member E w ch client) then ErrNotOnChannel client ch w
      else if has_flag E w ch OpOnlyTopic \<and> \<not> ClientIsOperator E w ch client
      then ErrChanOPrivIsNeeded client ch w
      else let w1 = upd_chan ch (\<lambda>r. r\<lparr>ch_topic := topic\<rparr>) w
           in to_members E ch (RplTopicMsg w1 client ch) w1)"

text \<open>The other members get the message, and each one counts.\<close>

definition count_message :: "'t world \<Rightarrow> 't world" where
  "count_message w = w\<lparr>w_messages := w_messages w + 1\<rparr>"

definition to_others :: "'t go_env \<Rightarrow> channel_id \<Rightarrow> client_id \<Rightarrow> string \<Rightarrow> 't world \<Rightarrow> 't world" where
  "to_others E ch client reply w =
     fold (\<lambda>member w. if member = client then w else Reply member reply (count_message w)) (members E w ch) w"

definition channel_PrivMsg :: "'t go_env \<Rightarrow> channel_id \<Rightarrow> client_id \<Rightarrow> string \<Rightarrow> 't world \<Rightarrow> 't world" where
  "channel_PrivMsg E ch client msg w =
     (if \<not> channel_can_speak E w ch client then ErrCannotSendToChan client ch w
      else to_others E ch client (RplPrivMsg (client_str w client) (chan_str w ch) msg) w)"

definition channel_Notice :: "'t go_env \<Rightarrow> channel_id \<Rightarrow> client_id \<Rightarrow> string \<Rightarrow> 't world \<Rightarrow> 't world" where
  "channel_Notice E ch client msg w =
     (if \<not> channel_can_speak E w ch client then ErrCannotSendToChan client ch w
      else to_others E ch client (RplNotice (client_str w client) (chan_str w ch) msg) w)"

section \<open>Modes\<close>

text \<open>The functions below return whether the change was applied.\<close>

definition applyModeFlag ::
  "'t go_env \<Rightarrow> channel_id \<Rightarrow> client_id \<Rightarrow> rune \<Rightarrow> ModeOp \<Rightarrow> 't world \<Rightarrow> bool \<times> 't world" where
  "applyModeFlag E ch client mode op w =
     (if \<not> ClientIsOperator E w ch client then (False, ErrChanOPrivIsNeeded client ch w)
      else case op of
        AddOp \<Rightarrow>
          if has_flag E w ch mode then (False, w)
          else (True, set_flags ch (\<lambda>s. set_add (chan_modes E) s mode) w)
      | RemoveOp \<Rightarrow>
          if \<not> has_flag E w ch mode then (False, w)
          else (True, set_flags ch (\<lambda>s. set_remove (chan_modes E) s mode) w)
      | ListOp \<Rightarrow> (False, w))"

definition applyModeMember ::
  "'t go_env \<Rightarrow> channel_id \<Rightarrow> client_id \<Rightarrow> rune \<Rightarrow> ModeOp \<Rightarrow> string \<Rightarrow> 't world \<Rightarrow> bool \<times> 't world" where
  "applyModeMember E ch client mode op nick w =
     (if \<not> ClientIsOperator E w ch client then (False, ErrChanOPrivIsNeeded client ch w)
      else if nick = [] then (False, ErrNeedMoreParams client ''MODE'' w)
      else case nick_get E w nick of
        None \<Rightarrow> (False, ErrNoSuchNick client nick w)
      | Some target \<Rightarrow>
          if \<not> is_member E w ch target then (False, ErrUserNotInChannel client ch target w)
          else (case op of
            AddOp \<Rightarrow>
              if member_mode E w ch target mode then (False, w)
              else (True, set_members ch (member_set E target mode) w)
          | RemoveOp \<Rightarrow>
              if \<not> member_mode E w ch target mode then (False, w)
              else (True, set_members ch (member_unset E target mode) w)
          | ListOp \<Rightarrow> (False, w)))"

definition ShowMaskList :: "'t go_env \<Rightarrow> channel_id \<Rightarrow> client_id \<Rightarrow> rune \<Rightarrow> 't world \<Rightarrow> 't world" where
  "ShowMaskList E ch client mode w =
     RplEndOfMaskList client mode ch
       (fold (RplMaskList client mode ch) (go_range E (masks (mask_list (chn w ch) mode))) w)"

definition applyModeMask ::
  "'t go_env \<Rightarrow> channel_id \<Rightarrow> client_id \<Rightarrow> rune \<Rightarrow> ModeOp \<Rightarrow> string \<Rightarrow> 't world \<Rightarrow> bool \<times> 't world" where
  "applyModeMask E ch client mode op msk w =
     (case ch_lists (chn w ch) mode of
        None \<Rightarrow> (False, w)
      | Some l \<Rightarrow>
          if op = ListOp \<or> msk = [] then (False, ShowMaskList E ch client mode w)
          else if \<not> ClientIsOperator E w ch client then (False, ErrChanOPrivIsNeeded client ch w)
          else if op = AddOp then (case mask_add E l msk of (l', r) \<Rightarrow> (r, set_mask_list ch mode l' w))
          else if op = RemoveOp then (case mask_remove E l msk of (l', r) \<Rightarrow> (r, set_mask_list ch mode l' w))
          else (False, w))"

definition applyModeKey ::
  "'t go_env \<Rightarrow> channel_id \<Rightarrow> client_id \<Rightarrow> ModeOp \<Rightarrow> string \<Rightarrow> 't world \<Rightarrow> bool \<times> 't world" where
  "applyModeKey E ch client op arg w =
     (if \<not> ClientIsOperator E w ch client then (False, ErrChanOPrivIsNeeded client ch w)
      else case op of
        AddOp \<Rightarrow>
          if arg = [] then (False, ErrNeedMoreParams client ''MODE'' w)
          else let key = NewText E arg in
            if key = ch_key (chn w ch) then (False, w)
            else (True, upd_chan ch (\<lambda>r. r\<lparr>ch_key := key\<rparr>) w)
      | RemoveOp \<Rightarrow> (True, upd_chan ch (\<lambda>r. r\<lparr>ch_key := []\<rparr>) w)
      | ListOp \<Rightarrow> (False, w))"

definition applyModeLimit ::
  "channel_id \<Rightarrow> client_id \<Rightarrow> string \<Rightarrow> 't world \<Rightarrow> bool \<times> 't world" where
  "applyModeLimit ch client arg w =
     (case parse_uint 64 arg of
        None \<Rightarrow> (False, ErrNeedMoreParams client ''MODE'' w)
      | Some limit \<Rightarrow>
          if limit = 0 \<or> limit = ch_userLimit (chn w ch) then (False, w)
          else (True, upd_chan ch (\<lambda>r. r\<lparr>ch_userLimit := limit\<rparr>) w))"

definition applyMode ::
  "'t go_env \<Rightarrow> channel_id \<Rightarrow> client_id \<Rightarrow> ChannelModeChange \<Rightarrow> 't world \<Rightarrow> bool \<times> 't world" where
  "applyMode E ch client change w =
     (let mode = cmc_mode change; op = cmc_op change; arg = cmc_arg change in
      if mode \<in> {BanMask, ExceptMask, InviteMask} then applyModeMask E ch client mode op (NewName E arg) w
      else if mode \<in> {InviteOnly, Moderated, NoOutside, OpOnlyTopic, Private, Secret, SecureChan}
      then applyModeFlag E ch client mode op w
      else if mode = Key then applyModeKey E ch client op arg w
      else if mode = UserLimit then applyModeLimit ch client arg w
      else if mode \<in> {ChannelOperator, Voice} then applyModeMember E ch client mode op (NewName E arg) w
      else (False, ErrUnknownMode client mode ch w))"

text \<open>The loop of \<open>Channel.Mode\<close>: the changes that were applied.\<close>

fun apply_changes ::
  "'t go_env \<Rightarrow> channel_id \<Rightarrow> client_id \<Rightarrow> ChannelModeChange list \<Rightarrow> 't world
   \<Rightarrow> ChannelModeChange list \<times> 't world" where
  "apply_changes E ch client [] w = ([], w)"
| "apply_changes E ch client (change # changes) w =
     (let (b, w1) = applyMode E ch client change w;
          (applied, w2) = apply_changes E ch client changes w1
      in (if b then change # applied else applied, w2))"

definition channel_Mode ::
  "'t go_env \<Rightarrow> channel_id \<Rightarrow> client_id \<Rightarrow> ChannelModeChange list \<Rightarrow> 't world \<Rightarrow> 't world" where
  "channel_Mode E ch client changes w =
     (if changes = [] then RplChannelModeIs E client ch w
      else case apply_changes E ch client changes w of
        (applied, w1) \<Rightarrow>
          if applied \<noteq> [] then to_members E ch (RplChannelMode w1 client ch applied) w1 else w1)"

section \<open>Inviting\<close>

definition channel_Invite :: "'t go_env \<Rightarrow> channel_id \<Rightarrow> client_id \<Rightarrow> client_id \<Rightarrow> 't world \<Rightarrow> 't world" where
  "channel_Invite E ch invitee inviter w =
     (if has_flag E w ch InviteOnly \<and> \<not> ClientIsOperator E w ch inviter then ErrChanOPrivIsNeeded inviter ch w
      else if \<not> is_member E w ch inviter \<and> \<not> ClientIsOperator E w ch inviter then ErrNotOnChannel inviter ch w
      else
        let w1 = (if has_flag E w ch InviteOnly
                  then set_mask_list ch InviteMask
                         (fst (mask_add E (mask_list (chn w ch) InviteMask) (UserHost w invitee False))) w
                  else w);
            w2 = RplInviting inviter invitee (chan_str w1 ch) w1;
            w3 = Reply invitee (RplInviteMsg w2 inviter invitee (chan_str w2 ch)) w2
        in if has_mode E w3 invitee Away then RplAway inviter invitee w3 else w3)"

section \<open>What only writes to the clients\<close>

lemma core_to_members [core_simps]: "core (to_members E ch s w) = core w"
  by (simp add: to_members_def core_simps)

lemma core_to_others [core_simps]: "core (to_others E ch c s w) = core w"
  unfolding to_others_def by (rule core_fold) (simp add: core_simps count_message_def)

lemma core_channel_talk [core_simps]:
  "core (channel_Names E ch c w) = core w" "core (GetTopic E ch c w) = core w"
  "core (channel_PrivMsg E ch c s w) = core w" "core (channel_Notice E ch c s w) = core w"
  by (simp_all add: channel_Names_def RplNamReply_def GetTopic_def channel_PrivMsg_def
      channel_Notice_def core_simps)

lemma core_ShowMaskList [core_simps]: "core (ShowMaskList E ch c m w) = core w"
  by (simp add: ShowMaskList_def core_simps core_fold)

section \<open>Admission\<close>

text \<open>Reference: when a channel lets a client in that is not a member yet.\<close>

definition admits :: "'t go_env \<Rightarrow> 't world \<Rightarrow> channel_id \<Rightarrow> client_id \<Rightarrow> string \<Rightarrow> bool" where
  "admits E w ch client key =
     (let invited = mask_match (mask_list (chn w ch) InviteMask) (UserHost w client False);
          banned = mask_match (mask_list (chn w ch) BanMask) (UserHost w client False) \<and>
                   \<not> mask_match (mask_list (chn w ch) ExceptMask) (UserHost w client False)
      in ClientIsOperator E w ch client \<or>
         \<not> IsFull E w ch \<and> CheckKey (chn w ch) key \<and> (has_flag E w ch InviteOnly \<longrightarrow> invited) \<and>
         (banned \<longrightarrow> invited))"

text \<open>The world in which the client has joined, before the replies.\<close>

definition joined :: "'t go_env \<Rightarrow> channel_id \<Rightarrow> client_id \<Rightarrow> 't world \<Rightarrow> 't world" where
  "joined E ch client w =
     (let w2 = set_members ch (\<lambda>ms. mem_add (members_ops E) ms client)
                 (upd_client client (\<lambda>c. c\<lparr>c_channels := set_add (chan_sets E) (c_channels c) ch\<rparr>) w)
      in if mem_count (members_ops E) (ch_members (chn w2 ch)) = 1
         then set_members ch (member_set E client ChannelOperator \<circ> member_set E client ChannelCreator) w2
         else w2)"

lemma core_Join:
  "core (channel_Join E ch client key w) =
    core (if \<not> is_member E w ch client \<and> admits E w ch client key then joined E ch client w else w)"
  by (auto simp: channel_Join_def admits_def joined_def Let_def core_simps)

lemma joined_clients [simp]:
  "w_clients (joined E ch client w) =
    (w_clients w)(client := (cl w client)\<lparr>c_channels := set_add (chan_sets E) (c_channels (cl w client)) ch\<rparr>)"
  by (auto simp: joined_def Let_def set_members_def upd_client_def upd_chan_def)

lemma joined_others [simp]:
  "d \<noteq> ch \<Longrightarrow> chn (joined E ch client w) d = chn w d"
  "srv_channels (joined E ch client w) = srv_channels w" "srv_nicks (joined E ch client w) = srv_nicks w"
  "w_next_chan (joined E ch client w) = w_next_chan w" "srv_whoWas (joined E ch client w) = srv_whoWas w"
  by (auto simp: joined_def Let_def set_members_def)

lemma joined_next_client: "w_next_client (joined E ch client w) = w_next_client w"
  by (auto simp: joined_def Let_def set_members_def)

lemma joined_name: "chan_str (joined E ch client w) d = chan_str w d"
  by (auto simp: joined_def Let_def set_members_def)

lemma joined_chan:
  "chn (joined E ch client w) ch = (chn w ch)\<lparr>ch_members := ch_members (chn (joined E ch client w) ch)\<rparr>"
  by (auto simp: joined_def Let_def set_members_def)

context go_env_laws begin

lemma member_set_has: "mem_has (members_ops E) (member_set E c m ms) d \<longleftrightarrow> mem_has (members_ops E) ms d"
  by (auto simp: member_set_def mem.mem_has_get mem.mem_get_put split: option.splits)

lemma member_unset_has: "mem_has (members_ops E) (member_unset E c m ms) d \<longleftrightarrow> mem_has (members_ops E) ms d"
  by (auto simp: member_unset_def mem.mem_has_get mem.mem_get_put split: option.splits)

lemma member_set_mode:
  "mem_has_mode (members_ops E) (member_set E c m ms) d r \<longleftrightarrow>
    mem_has_mode (members_ops E) ms d r \<or> d = c \<and> mem_has (members_ops E) ms c \<and> r = m"
  by (auto simp: member_set_def mem.mem_has_get mem.mem_has_mode_get mem.mem_get_put mem.cm.set_has_add
      split: option.splits)

lemma member_set_count: "mem_count (members_ops E) (member_set E c m ms) = mem_count (members_ops E) ms"
  by (simp add: mem.mem_count_card member_set_has)

lemma add_mode:
  assumes "\<not> mem_has (members_ops E) ms c"
  shows "mem_has_mode (members_ops E) (mem_add (members_ops E) ms c) d r \<longleftrightarrow>
    d \<noteq> c \<and> mem_has_mode (members_ops E) ms d r"
  using assms by (simp add: mem.mem_has_mode_get mem.mem_has_get mem.mem_get_add mem.cm.set_has_new)

lemma joined_member:
  assumes "\<not> is_member E w ch client"
  shows "is_member E (joined E ch client w) d c \<longleftrightarrow> is_member E w d c \<or> d = ch \<and> c = client"
  using assms by (auto simp: joined_def Let_def set_members_def member_set_has mem.mem_has_add)

lemma joined_count:
  assumes "\<not> is_member E w ch client"
  shows "mem_count (members_ops E) (ch_members (chn (joined E ch client w) ch)) =
    Suc (mem_count (members_ops E) (ch_members (chn w ch)))"
  using assms by (auto simp: joined_def Let_def set_members_def member_set_count mem.mem_count_add)

lemma joined_mode:
  assumes "\<not> is_member E w ch client"
  shows "member_mode E (joined E ch client w) ch c m \<longleftrightarrow>
    (if c = client then (\<forall>d. \<not> is_member E w ch d) \<and> m \<in> {ChannelCreator, ChannelOperator}
     else member_mode E w ch c m)"
  using assms
  by (auto simp: joined_def Let_def set_members_def member_set_mode member_set_has add_mode
      mem.mem_count_add mem.mem_count_0 mem.mem_has_add)

end

lemmas core_clients = core_fields(1) and core_chans = core_fields(2) and core_channels = core_fields(4)
  and core_nicks = core_fields(6)

context go_env_laws
begin

lemma join_effect_law:
  defines "after \<equiv> \<lambda>ch client key w. channel_Join E ch client key w"
  shows "if is_member E w ch client \<or> \<not> admits E w ch client key then core (after ch client key w) = core w
    else (\<forall>d c. is_member E (after ch client key w) d c \<longleftrightarrow> is_member E w d c \<or> d = ch \<and> c = client) \<and>
      mem_count (members_ops E) (ch_members (chn (after ch client key w) ch)) =
        Suc (mem_count (members_ops E) (ch_members (chn w ch))) \<and>
      (\<forall>m. member_mode E (after ch client key w) ch client m \<longleftrightarrow>
         (\<forall>d. \<not> is_member E w ch d) \<and> m \<in> {ChannelCreator, ChannelOperator}) \<and>
      (\<forall>c m. c \<noteq> client \<longrightarrow>
         member_mode E (after ch client key w) ch c m = member_mode E w ch c m)"
proof -
  show ?thesis
  proof (cases "is_member E w ch client \<or> \<not> admits E w ch client key")
    case True
    then show ?thesis by (auto simp: after_def core_Join)
  next
    case False
    then have "w_chans (after ch client key w) = w_chans (joined E ch client w)"
      by (intro core_chans) (simp add: after_def core_Join)
    with False show ?thesis by (simp add: joined_member joined_count joined_mode)
  qed
qed

end

text \<open>C27: joining has an effect exactly when the client is no member yet and the channel admits it.
  Then it becomes a member, nobody else's membership changes, the one who finds the channel empty
  becomes its creator and operator, and everyone else joins without modes.\<close>

theorem join_effect:
  assumes "go_env_laws E"
  defines "after \<equiv> \<lambda>ch client key w. channel_Join E ch client key w"
  shows "if is_member E w ch client \<or> \<not> admits E w ch client key then core (after ch client key w) = core w
    else (\<forall>d c. is_member E (after ch client key w) d c \<longleftrightarrow> is_member E w d c \<or> d = ch \<and> c = client) \<and>
      mem_count (members_ops E) (ch_members (chn (after ch client key w) ch)) =
        Suc (mem_count (members_ops E) (ch_members (chn w ch))) \<and>
      (\<forall>m. member_mode E (after ch client key w) ch client m \<longleftrightarrow>
         (\<forall>d. \<not> is_member E w ch d) \<and> m \<in> {ChannelCreator, ChannelOperator}) \<and>
      (\<forall>c m. c \<noteq> client \<longrightarrow>
         member_mode E (after ch client key w) ch c m = member_mode E w ch c m)"
  unfolding after_def
  by (rule go_env_laws.join_effect_law [OF assms(1)])

context go_env_laws
begin

lemma join_respects_limit_law:
  assumes "\<not> has_mode E w client Operator"
    and "0 < ch_userLimit (chn w ch)"
    and "mem_count (members_ops E) (ch_members (chn w ch)) \<le> ch_userLimit (chn w ch)"
  shows "mem_count (members_ops E) (ch_members (chn (channel_Join E ch client key w) ch)) \<le>
    ch_userLimit (chn w ch)"
proof -
  show ?thesis
  proof (cases "\<not> is_member E w ch client \<and> admits E w ch client key")
    case True
    then have no: "\<not> is_member E w ch client" by simp
    then have "\<not> ClientIsOperator E w ch client"
      using assms(1) by (simp add: ClientIsOperator_def mem.mem_has_mode_get mem.mem_has_get)
    with True have "\<not> IsFull E w ch" by (simp add: admits_def Let_def)
    with assms(2) have "mem_count (members_ops E) (ch_members (chn w ch)) < ch_userLimit (chn w ch)"
      by (simp add: IsFull_def)
    with no core_chans [OF core_Join, of E ch client key w] True show ?thesis
      by (simp add: joined_count)
  next
    case False
    with core_chans [OF core_Join, of E ch client key w] assms(3) show ?thesis by (auto split: if_splits)
  qed
qed

end

text \<open>A client that is not a server operator cannot bring a channel over its user limit.\<close>

theorem join_respects_limit:
  assumes "go_env_laws E" "\<not> has_mode E w client Operator"
    and "0 < ch_userLimit (chn w ch)"
    and "mem_count (members_ops E) (ch_members (chn w ch)) \<le> ch_userLimit (chn w ch)"
  shows "mem_count (members_ops E) (ch_members (chn (channel_Join E ch client key w) ch)) \<le>
    ch_userLimit (chn w ch)"
  by (rule go_env_laws.join_respects_limit_law [OF assms])

section \<open>Who may change the modes of a channel\<close>

definition with_limit :: "channel_id \<Rightarrow> nat \<Rightarrow> 't world \<Rightarrow> 't world" where
  "with_limit ch n = upd_chan ch (\<lambda>r. r\<lparr>ch_userLimit := n\<rparr>)"

lemma with_limit_same [simp]: "with_limit ch (ch_userLimit (chn w ch)) w = w"
  by (simp add: with_limit_def upd_chan_def)

lemma with_limit_twice [simp]: "with_limit ch n (with_limit ch m w) = with_limit ch n w"
  by (simp add: with_limit_def upd_chan_def)

lemma core_with_limit: "core w = core w' \<Longrightarrow> core (with_limit ch n w) = core (with_limit ch n w')"
  by (cases w, cases w') (simp add: core_def with_limit_def upd_chan_def)

lemma ClientIsOperator_core: "core w = core w' \<Longrightarrow> ClientIsOperator E w ch c = ClientIsOperator E w' ch c"
proof -
  assume c: "core w = core w'"
  show ?thesis unfolding ClientIsOperator_def core_clients [OF c] core_chans [OF c] ..
qed

lemma ClientIsOperator_limit [simp]:
  "ClientIsOperator E (with_limit ch n w) d c = ClientIsOperator E w d c"
  by (simp add: ClientIsOperator_def with_limit_def)

lemma applyMode_cases:
  "cmc_mode change \<noteq> UserLimit \<Longrightarrow>
   (\<And>m s. P (applyModeMask E ch client m (cmc_op change) s w)) \<Longrightarrow>
   (\<And>m. P (applyModeFlag E ch client m (cmc_op change) w)) \<Longrightarrow>
   P (applyModeKey E ch client (cmc_op change) (cmc_arg change) w) \<Longrightarrow>
   (\<And>m s. P (applyModeMember E ch client m (cmc_op change) s w)) \<Longrightarrow>
   P (False, ErrUnknownMode client (cmc_mode change) ch w) \<Longrightarrow> P (applyMode E ch client change w)"
  unfolding applyMode_def Let_def by simp

lemma applyMode_refused:
  assumes no: "\<not> ClientIsOperator E w ch client" and "cmc_mode change \<noteq> UserLimit"
  shows "core (snd (applyMode E ch client change w)) = core w"
proof (rule applyMode_cases [OF assms(2)])
  show "core (snd (applyModeMask E ch client m op s w)) = core w" for m op s
    using no by (simp add: applyModeMask_def core_simps split: option.split)
qed (use no in \<open>simp_all add: applyModeFlag_def applyModeKey_def applyModeMember_def core_simps\<close>)

lemma applyMode_unprivileged:
  assumes "\<not> ClientIsOperator E w ch client"
  shows "\<exists>n. core (snd (applyMode E ch client change w)) = core (with_limit ch n w) \<and>
    (cmc_mode change \<noteq> UserLimit \<longrightarrow> n = ch_userLimit (chn w ch))"
proof (cases "cmc_mode change = UserLimit")
  case True
  then have "applyMode E ch client change w = applyModeLimit ch client (cmc_arg change) w"
    by (simp add: applyMode_def chan_mode_defs)
  moreover have "\<exists>n. core (snd (applyModeLimit ch client (cmc_arg change) w)) = core (with_limit ch n w)"
  proof (cases "\<exists>n. parse_uint 64 (cmc_arg change) = Some n \<and> n \<noteq> 0 \<and> n \<noteq> ch_userLimit (chn w ch)")
    case True
    then show ?thesis by (auto simp: applyModeLimit_def with_limit_def)
  next
    case False
    then have "core (snd (applyModeLimit ch client (cmc_arg change) w)) = core w"
      by (auto simp: applyModeLimit_def core_simps split: option.splits)
    then show ?thesis by (metis with_limit_same)
  qed
  ultimately show ?thesis using True by simp
next
  case False
  then have "core (snd (applyMode E ch client change w)) = core w"
    using applyMode_refused [OF assms] by blast
  then show ?thesis by (metis with_limit_same)
qed

lemma apply_changes_unprivileged:
  assumes "\<not> ClientIsOperator E w ch client"
  shows "\<exists>n. core (snd (apply_changes E ch client changes w)) = core (with_limit ch n w) \<and>
    (UserLimit \<notin> cmc_mode ` set changes \<longrightarrow> n = ch_userLimit (chn w ch))"
  using assms
proof (induction changes arbitrary: w)
  case Nil
  then show ?case by (metis apply_changes.simps(1) snd_conv with_limit_same)
next
  case (Cons change changes)
  obtain b w1 where m: "applyMode E ch client change w = (b, w1)" by force
  obtain n where n: "core w1 = core (with_limit ch n w)"
    "cmc_mode change \<noteq> UserLimit \<longrightarrow> n = ch_userLimit (chn w ch)"
    using applyMode_unprivileged [OF Cons.prems, of change] m by auto
  have "\<not> ClientIsOperator E w1 ch client"
    using Cons.prems unfolding ClientIsOperator_core [OF n(1)] by simp
  from Cons.IH [OF this] obtain k where k: "core (snd (apply_changes E ch client changes w1)) = core (with_limit ch k w1)"
    "UserLimit \<notin> cmc_mode ` set changes \<longrightarrow> k = ch_userLimit (chn w1 ch)" by blast
  have w1: "core (with_limit ch k w1) = core (with_limit ch k w)"
    using core_with_limit [OF n(1), of ch k] by simp
  have lim: "ch_userLimit (chn w1 ch) = n"
    unfolding core_chans [OF n(1)] by (simp add: with_limit_def)
  have "snd (apply_changes E ch client (change # changes) w) = snd (apply_changes E ch client changes w1)"
    by (simp add: m split: prod.split)
  with k(1) w1 have "core (snd (apply_changes E ch client (change # changes) w)) = core (with_limit ch k w)"
    by simp
  moreover have "UserLimit \<notin> cmc_mode ` set (change # changes) \<longrightarrow> k = ch_userLimit (chn w ch)"
    using n(2) k(2) lim by auto
  ultimately show ?case by blast
qed

text \<open>C28: a MODE on a channel by someone who is neither an operator of the channel nor of the server
  changes nothing in the whole world but, at most, the channel's user limit.\<close>

theorem mode_change_needs_operator:
  assumes "\<not> ClientIsOperator E w ch client"
  shows "\<exists>n. core (channel_Mode E ch client changes w) = core (with_limit ch n w) \<and>
    (UserLimit \<notin> cmc_mode ` set changes \<longrightarrow> n = ch_userLimit (chn w ch))"
proof (cases "changes = []")
  case True
  then have "core (channel_Mode E ch client changes w) = core w" by (simp add: channel_Mode_def core_simps)
  then show ?thesis by (metis with_limit_same)
next
  case False
  then have "core (channel_Mode E ch client changes w) = core (snd (apply_changes E ch client changes w))"
    by (simp add: channel_Mode_def core_simps split: prod.splits)
  then show ?thesis using apply_changes_unprivileged [OF assms, of changes] by simp
qed

text \<open>The exception is real: whoever asks, a member or not, with plus or with minus, a number
  other than 0 becomes the channel's user limit.\<close>

theorem anyone_sets_user_limit:
  assumes "parse_uint 64 arg = Some n" "n \<noteq> 0"
  shows "ch_userLimit (chn (channel_Mode E ch client [\<lparr>cmc_mode = UserLimit, cmc_op = op, cmc_arg = arg\<rparr>] w) ch) = n"
proof -
  let ?c = "\<lparr>cmc_mode = UserLimit, cmc_op = op, cmc_arg = arg\<rparr>"
  have "ch_userLimit (chn (snd (applyMode E ch client ?c w)) ch) = n"
    using assms by (simp add: applyMode_def applyModeLimit_def Let_def chan_mode_defs)
  moreover have "core (channel_Mode E ch client [?c] w) = core (snd (applyMode E ch client ?c w))"
    by (simp add: channel_Mode_def core_simps split: prod.splits)
  ultimately show ?thesis using core_chans by metis
qed

lemma applyMode_limit:
  "0 < ch_userLimit (chn w ch) \<Longrightarrow> 0 < ch_userLimit (chn (snd (applyMode E ch client change w)) ch)"
proof -
  assume pos: "0 < ch_userLimit (chn w ch)"
  have keep: "core w' = core w \<Longrightarrow> 0 < ch_userLimit (chn w' ch)" for w' using pos core_chans by metis
  show ?thesis
  proof (cases "cmc_mode change = UserLimit")
    case True
    then have "applyMode E ch client change w = applyModeLimit ch client (cmc_arg change) w"
      by (simp add: applyMode_def chan_mode_defs)
    with pos keep show ?thesis by (auto simp: applyModeLimit_def core_simps split: option.splits)
  next
    case False
    show ?thesis
    proof (rule applyMode_cases [OF False])
      show "0 < ch_userLimit (chn (snd (applyModeMask E ch client m op s w)) ch)" for m op s
        using pos keep by (simp add: applyModeMask_def set_mask_list_def core_simps split: option.split prod.split)
      show "0 < ch_userLimit (chn (snd (applyModeFlag E ch client m op w)) ch)" for m op
        using pos keep by (simp add: applyModeFlag_def set_flags_def core_simps split: ModeOp.split)
      show "0 < ch_userLimit (chn (snd (applyModeKey E ch client op s w)) ch)" for op s
        using pos keep by (simp add: applyModeKey_def Let_def core_simps split: ModeOp.split)
      show "0 < ch_userLimit (chn (snd (applyModeMember E ch client m op s w)) ch)" for m op s
        using pos keep by (simp add: applyModeMember_def set_members_def core_simps split: ModeOp.split option.split)
    qed (simp add: keep core_simps)
  qed
qed

text \<open>A channel that has a user limit keeps one, whatever MODE commands anybody sends.\<close>

theorem user_limit_never_removed:
  assumes "0 < ch_userLimit (chn w ch)"
  shows "0 < ch_userLimit (chn (channel_Mode E ch client changes w) ch)"
proof -
  have "0 < ch_userLimit (chn (snd (apply_changes E ch client changes w)) ch)"
    using assms
  proof (induction changes arbitrary: w)
    case (Cons change changes)
    then show ?case using applyMode_limit [OF Cons.prems, of E client change]
      by (simp split: prod.splits) (metis snd_conv)
  qed simp
  moreover have "core (channel_Mode E ch client changes w) = core (snd (apply_changes E ch client changes w))"
    by (cases "changes = []") (simp_all add: channel_Mode_def core_simps split: prod.splits)
  ultimately show ?thesis using core_chans by metis
qed

section \<open>Leaving\<close>

context go_env_laws begin

lemma Quit_member:
  "is_member E (channel_Quit E ch client w) d c \<longleftrightarrow> is_member E w d c \<and> \<not> (d = ch \<and> c = client)"
  by (auto simp: channel_Quit_def set_members_def Let_def mem.mem_has_remove)

lemma Quit_empty:
  "IsEmpty E (set_members ch (\<lambda>ms. mem_remove (members_ops E) ms client) w) ch \<longleftrightarrow>
    (\<forall>c. \<not> is_member E (channel_Quit E ch client w) ch c)"
  by (auto simp: IsEmpty_def mem.mem_count_0 Quit_member set_members_def mem.mem_has_remove)

lemma Quit_channels:
  "cm_get (chan_map E) (srv_channels (channel_Quit E ch client w)) n =
    (if (\<forall>c. \<not> is_member E (channel_Quit E ch client w) ch c) \<and>
        cm_get (chan_map E) (srv_channels w) (chan_str w ch) = Some ch \<and>
        chan_key (chan_map E) n = chan_key (chan_map E) (chan_str w ch)
     then None else cm_get (chan_map E) (srv_channels w) n)"
  unfolding Quit_empty [symmetric]
  by (simp add: channel_Quit_def Let_def set_members_def cn.cm_get_remove)

end

lemma Quit_fields [simp]:
  "w_clients (channel_Quit E ch client w) = w_clients w"
  "ch_name (chn (channel_Quit E ch client w) d) = ch_name (chn w d)"
  "srv_nicks (channel_Quit E ch client w) = srv_nicks w"
  "w_next_chan (channel_Quit E ch client w) = w_next_chan w"
  "srv_whoWas (channel_Quit E ch client w) = srv_whoWas w"
  "w_out (channel_Quit E ch client w) = w_out w"
  by (auto simp: channel_Quit_def set_members_def Let_def)

lemma core_Quit: "core w = core w' \<Longrightarrow> core (channel_Quit E ch c w) = core (channel_Quit E ch c w')"
  by (cases w, cases w')
    (simp add: channel_Quit_def core_def set_members_def upd_chan_def Let_def IsEmpty_def)

lemma core_Part:
  "is_member E w ch client \<Longrightarrow> core (channel_Part E ch client msg w) = core (channel_Quit E ch client w)"
  by (simp add: channel_Part_def core_Quit [OF core_to_members])

context go_env_laws
begin

lemma part_effect_law:
  fixes w :: "'t world" and ch client :: nat and msg :: string
  assumes "is_member E w ch client"
    and "cm_get (chan_map E) (srv_channels w) (chan_str w ch) = Some ch"
  defines "w' \<equiv> channel_Part E ch client msg w"
  shows "(\<forall>d c. is_member E w' d c \<longleftrightarrow> is_member E w d c \<and> \<not> (d = ch \<and> c = client)) \<and>
    cm_get (chan_map E) (srv_channels w') (chan_str w ch) = (if \<exists>c. is_member E w' ch c then Some ch else None) \<and>
    w_clients w' = w_clients w"
proof -
  have core: "core w' = core (channel_Quit E ch client w)"
    unfolding w'_def by (rule core_Part) fact
  show ?thesis
    unfolding core_chans [OF core] core_channels [OF core] core_clients [OF core]
    using assms(2) by (simp add: Quit_member Quit_channels)
qed

end

text \<open>After a PART the client is no member, no other membership has changed, and the server knows
  the channel by its name exactly if a member is left. The client's own list of channels still
  holds the channel, though.\<close>

theorem part_effect:
  fixes E :: "'t go_env" and w :: "'t world" and ch client :: nat and msg :: string
  assumes "go_env_laws E" "is_member E w ch client"
    and "cm_get (chan_map E) (srv_channels w) (chan_str w ch) = Some ch"
  defines "w' \<equiv> channel_Part E ch client msg w"
  shows "(\<forall>d c. is_member E w' d c \<longleftrightarrow> is_member E w d c \<and> \<not> (d = ch \<and> c = client)) \<and>
    cm_get (chan_map E) (srv_channels w') (chan_str w ch) = (if \<exists>c. is_member E w' ch c then Some ch else None) \<and>
    w_clients w' = w_clients w"
  unfolding w'_def
  by (rule go_env_laws.part_effect_law [OF assms(1-3)])

section \<open>Delivery of messages\<close>

lemma to_others_out:
  "w_out (to_others E ch client s w) =
    w_out w @ map (\<lambda>d. (d, s)) (filter (\<lambda>d. d \<noteq> client \<and> \<not> c_hasQuit (cl w d)) (members E w ch))"
proof -
  let ?f = "\<lambda>member w. if member = client then w else Reply member s (count_message w)"
  have "w_out (fold ?f ms w) =
      w_out w @ map (\<lambda>d. (d, s)) (filter (\<lambda>d. d \<noteq> client \<and> \<not> c_hasQuit (cl w d)) ms)" for ms and w :: "'a world"
  proof (induction ms arbitrary: w)
    case (Cons m ms)
    then show ?case by (simp add: count_message_def) (simp add: Reply_def)
  qed simp
  then show ?thesis by (simp add: to_others_def)
qed

context go_env_laws
begin

lemma channel_message_delivery_law:
  fixes w :: "'t world" and ch client :: nat and msg :: string
  defines "w' \<equiv> channel_PrivMsg E ch client msg w"
  shows "if channel_can_speak E w ch client
    then \<exists>ds. distinct ds \<and> set ds = {d. is_member E w ch d \<and> d \<noteq> client \<and> \<not> c_hasQuit (cl w d)} \<and>
      w_out w' = w_out w @ map (\<lambda>d. (d, RplPrivMsg (client_str w client) (chan_str w ch) msg)) ds
    else w_out w' = w_out w @
      (if c_hasQuit (cl w client) then []
       else [(client, NewNumericReply w client ERR_CANNOTSENDTOCHAN ''%s :Cannot send to channel'' [chan_str w ch])])"
proof -
  show ?thesis
  proof (cases "channel_can_speak E w ch client")
    case True
    let ?ds = "filter (\<lambda>d. d \<noteq> client \<and> \<not> c_hasQuit (cl w d)) (members E w ch)"
    have "distinct ?ds" by (simp add: members_def mem.mem_range_distinct)
    moreover have "set ?ds = {d. is_member E w ch d \<and> d \<noteq> client \<and> \<not> c_hasQuit (cl w d)}"
      unfolding members_def set_filter mem.mem_range_fst by auto
    moreover have "w_out w' = w_out w @ map (\<lambda>d. (d, RplPrivMsg (client_str w client) (chan_str w ch) msg)) ?ds"
      using True by (simp add: w'_def channel_PrivMsg_def to_others_out)
    ultimately show ?thesis using True by (simp only: if_True) blast
  next
    case False
    then show ?thesis
      by (simp add: w'_def channel_PrivMsg_def ErrCannotSendToChan_def NumericReply_def Reply_def)
  qed
qed

end

text \<open>C29: a message to a channel goes to every member once, except to its sender and to clients that
  have quit; when the sender may not speak there, only the sender gets an answer, an error.\<close>

theorem channel_message_delivery:
  fixes E :: "'t go_env" and w :: "'t world" and ch client :: nat and msg :: string
  assumes "go_env_laws E"
  defines "w' \<equiv> channel_PrivMsg E ch client msg w"
  shows "if channel_can_speak E w ch client
    then \<exists>ds. distinct ds \<and> set ds = {d. is_member E w ch d \<and> d \<noteq> client \<and> \<not> c_hasQuit (cl w d)} \<and>
      w_out w' = w_out w @ map (\<lambda>d. (d, RplPrivMsg (client_str w client) (chan_str w ch) msg)) ds
    else w_out w' = w_out w @
      (if c_hasQuit (cl w client) then []
       else [(client, NewNumericReply w client ERR_CANNOTSENDTOCHAN ''%s :Cannot send to channel'' [chan_str w ch])])"
  unfolding w'_def
  by (rule go_env_laws.channel_message_delivery_law [OF assms(1)])

section \<open>Concrete inputs\<close>

text \<open>A new channel 0 in the world of two clients, and the same one after client 1 has joined.\<close>

definition chan_world :: "rep world" where
  "chan_world = snd (NewChannel list_env ''#c'' True two_clients)"

definition chan_world1 :: "rep world" where
  "chan_world1 = channel_Join list_env 0 1 [] chan_world"

lemma chan_world_simps [simp]:
  "cl chan_world = cl two_clients" "w_out chan_world = []"
  "ch_members (chn chan_world 0) = RMem []" "ch_name (chn chan_world 0) = ''#c''"
  "ch_key (chn chan_world 0) = []" "ch_userLimit (chn chan_world 0) = 0"
  "ch_flags (chn chan_world 0) = RSet [NoOutside, OpOnlyTopic]"
  "srv_channels chan_world = RNames [(''#c'', 0)]" "srv_nicks chan_world = srv_nicks two_clients"
  "mask_list (chn chan_world 0) m = NewUserMaskSet"
  by (simp_all add: chan_world_def NewChannel_def Let_def DefaultChannelModes_def mask_list_def
      chan_mode_defs upd_chan_def)

lemmas eval_world = ann_def bob_def fresh_client_def chan_mode_defs user_mode_defs

lemma chan_world_admits [simp]: "admits list_env chan_world 0 c []"
  by (simp add: admits_def CheckKey_def IsFull_def Let_def NewUserMaskSet_def mask_match_def eval_world)

lemma joined_world:
  "core chan_world1 = core (joined list_env 0 1 chan_world)"
  by (simp add: chan_world1_def core_Join)

lemma chan_world1_simps [simp]:
  "ch_members (chn chan_world1 0) = RMem [(1, RSet [ChannelCreator, ChannelOperator])]"
  "ch_name (chn chan_world1 0) = ''#c''" "ch_userLimit (chn chan_world1 0) = 0"
  "ch_flags (chn chan_world1 0) = RSet [NoOutside, OpOnlyTopic]"
  "srv_channels chan_world1 = RNames [(''#c'', 0)]" "srv_nicks chan_world1 = srv_nicks two_clients"
  "cl chan_world1 = (cl two_clients)(1 := ann\<lparr>c_channels := RSet [0]\<rparr>)"
  unfolding core_chans [OF joined_world] core_channels [OF joined_world] core_nicks [OF joined_world]
    core_clients [OF joined_world]
  by (simp_all add: joined_def Let_def set_members_def member_set_def eval_world fun_eq_iff)

theorem join_effect_witness:
  "is_member list_env chan_world1 0 1 \<and> member_mode list_env chan_world1 0 1 ChannelOperator \<and>
   \<not> member_mode list_env chan_world1 0 1 Voice"
proof -
  have "\<forall>m. member_mode list_env chan_world1 0 1 m \<longleftrightarrow>
      (\<forall>d. \<not> is_member list_env chan_world 0 d) \<and> m \<in> {ChannelCreator, ChannelOperator}"
    using join_effect [OF list_env_laws, where ch = 0 and client = 1 and key = "[]" and w = chan_world]
    unfolding chan_world1_def by (simp split: if_splits)
  then show ?thesis by (simp add: eval_world)
qed

theorem join_respects_limit_witness:
  "mem_count list_member_ops (ch_members (chn (channel_Join list_env 0 2 [] (with_limit 0 1 chan_world1)) 0)) \<le> 1"
proof -
  have "mem_count (members_ops list_env) (ch_members (chn (channel_Join list_env 0 2 [] (with_limit 0 1 chan_world1)) 0))
      \<le> ch_userLimit (chn (with_limit 0 1 chan_world1) 0)"
    by (rule join_respects_limit [OF list_env_laws])
      (simp_all add: with_limit_def eval_world)
  then show ?thesis by (simp add: with_limit_def list_env_def)
qed

theorem mode_change_needs_operator_witness:
  "core (channel_Mode list_env 0 2 [\<lparr>cmc_mode = Secret, cmc_op = AddOp, cmc_arg = []\<rparr>] chan_world1) = core chan_world1"
proof -
  have "\<not> ClientIsOperator list_env chan_world1 0 2"
    by (simp add: ClientIsOperator_def eval_world)
  from mode_change_needs_operator [OF this, of "[\<lparr>cmc_mode = Secret, cmc_op = AddOp, cmc_arg = []\<rparr>]"]
  obtain n where n: "core (channel_Mode list_env 0 2 [\<lparr>cmc_mode = Secret, cmc_op = AddOp, cmc_arg = []\<rparr>] chan_world1) =
      core (with_limit 0 n chan_world1)"
    "UserLimit \<noteq> Secret \<longrightarrow> n = ch_userLimit (chn chan_world1 0)" by auto
  then have "n = ch_userLimit (chn chan_world1 0)" by (simp add: chan_mode_defs)
  with n(1) show ?thesis by (simp only: with_limit_same)
qed

theorem anyone_sets_user_limit_witness:
  "ch_userLimit (chn (channel_Mode list_env 0 2
     [\<lparr>cmc_mode = UserLimit, cmc_op = RemoveOp, cmc_arg = ''5''\<rparr>] chan_world1) 0) = 5"
  by (rule anyone_sets_user_limit)
    (simp_all add: parse_uint_def is_digit_def digits_val_def digit_val_def)

theorem user_limit_never_removed_witness:
  "0 < ch_userLimit (chn (channel_Mode list_env 0 1
     [\<lparr>cmc_mode = UserLimit, cmc_op = RemoveOp, cmc_arg = []\<rparr>] (with_limit 0 5 chan_world1)) 0)"
  by (rule user_limit_never_removed) (simp add: with_limit_def)

theorem part_effect_witness:
  "\<not> is_member list_env (channel_Part list_env 0 1 [] chan_world1) 0 1 \<and>
   cm_get list_chan_map_ops (srv_channels (channel_Part list_env 0 1 [] chan_world1)) ''#c'' = None \<and>
   c_channels (cl (channel_Part list_env 0 1 [] chan_world1) 1) = RSet [0]"
  using part_effect [OF list_env_laws, of chan_world1 0 1 "[]"]
  by (simp add: list_chan_map_ops_def)

theorem channel_message_delivery_witness:
  "w_out (channel_PrivMsg list_env 0 2 ''hi'' chan_world1) = w_out chan_world1 @
     [(2, NewNumericReply chan_world1 2 ERR_CANNOTSENDTOCHAN ''%s :Cannot send to channel'' [''#c''])]"
  using channel_message_delivery [OF list_env_laws, where ch = 0 and client = 2 and msg = "''hi''" and w = chan_world1]
  by (simp add: channel_can_speak_def ClientIsOperator_def eval_world)

end
