(* ===== verification/Session.thy ===== *)
theory Session
  imports Channel
begin

text \<open>
  The operations of client.go that reach other clients or the server's tables: changing the nick,
  quitting, and what a timer does. The channels of a client, its friends and the log of past
  nicks come in here.
\<close>

section \<open>Friends\<close>

text \<open>\<open>Client.Friends\<close>: the client and the members of every channel in its list.\<close>

definition Friends :: "'t go_env \<Rightarrow> 't world \<Rightarrow> client_id \<Rightarrow> 't" where
  "Friends E w c =
     fold (\<lambda>ch friends. fold (\<lambda>member st. set_add (client_sets E) st member) (members E w ch) friends)
       (set_range (chan_sets E) (c_channels (cl w c)))
       (set_add (client_sets E) (set_new (client_sets E)) c)"

section \<open>Nicks\<close>

text \<open>\<open>WhoWasList.Append\<close> with the entry it builds from the client.\<close>

definition append_whowas :: "client_id \<Rightarrow> 't world \<Rightarrow> 't world outcome" where
  "append_whowas c w =
     and_then (whowas_append (srv_whoWas w)
        \<lparr>ww_nickname = Nick w c, ww_username = c_username (cl w c), ww_hostname = c_hostname (cl w c),
         ww_hostmask = c_hostmask (cl w c), ww_realname = c_realname (cl w c)\<rparr>)
       (\<lambda>l. Ret (w\<lparr>srv_whoWas := l\<rparr>))"

definition SetNickname :: "'z text_env_scheme \<Rightarrow> client_id \<Rightarrow> string \<Rightarrow> 't world \<Rightarrow> 't world" where
  "SetNickname E c nickname w =
     (if c_nick (cl w c) \<noteq> [] then w
      else snd (nick_add E c (upd_client c (\<lambda>r. r\<lparr>c_nick := nickname\<rparr>) w)))"

definition ChangeNickname :: "'t go_env \<Rightarrow> client_id \<Rightarrow> string \<Rightarrow> 't world \<Rightarrow> 't world outcome" where
  "ChangeNickname E c nickname w =
     (let reply = RplNick (client_str w c) nickname
      in and_then (append_whowas c (snd (nick_remove E c w)))
           (\<lambda>w1. let w2 = snd (nick_add E c (upd_client c (\<lambda>r. r\<lparr>c_nick := nickname\<rparr>) w1))
                 in Ret (reply_all (set_range (client_sets E) (Friends E w2 c)) reply w2)))"

section \<open>Quitting\<close>

text \<open>
  \<open>Client.destroy\<close>; closing the channel of replies a second time would panic. This is the state after
  \<open>Socket.Close\<close> has got its lock; that it may have to wait for it is part of the theory Waiting.
\<close>

definition destroy :: "'t go_env \<Rightarrow> client_id \<Rightarrow> 't world \<Rightarrow> 't world outcome" where
  "destroy E c w =
     (let w1 = fold (\<lambda>ch. channel_Quit E ch c) (set_range (chan_sets E) (c_channels (cl w c))) w;
          w2 = (if c_tls (cl w1 c) then w1\<lparr>w_secure := w_secure w1 - 1\<rparr>
                else w1\<lparr>w_insecure := w_insecure w1 - 1\<rparr>);
          w3 = w2\<lparr>srv_connections := counter_dec E (srv_connections w2)\<rparr>;
          w4 = snd (nick_remove E c w3);
          w5 = upd_client c (\<lambda>r. r\<lparr>c_idleTimer := map_option (\<lambda>_. Stopped) (c_idleTimer r),
                                  c_quitTimer := map_option (\<lambda>_. Stopped) (c_quitTimer r)\<rparr>) w4
      in if c_replies_closed (cl w5 c) then Panic
         else Ret (upd_client c (\<lambda>r. r\<lparr>c_replies_closed := True, c_socket_closed := True\<rparr>) w5))"

definition client_Quit :: "'t go_env \<Rightarrow> client_id \<Rightarrow> string \<Rightarrow> 't world \<Rightarrow> 't world outcome" where
  "client_Quit E c msg w =
     (if c_hasQuit (cl w c) then Ret w
      else
        let w1 = upd_client c (\<lambda>r. r\<lparr>c_hasQuit := True\<rparr>) w;
            w2 = Reply c (RplError ''quit'') w1
        in and_then (append_whowas c w2)
             (\<lambda>w3. let friends = set_remove (client_sets E) (Friends E w3 c) c
                   in and_then (destroy E c w3)
                        (\<lambda>w4. Ret (if set_count (client_sets E) friends > 0
                                   then reply_all (set_range (client_sets E) friends) (RplQuit w4 c msg) w4
                                   else w4))))"

section \<open>Timers\<close>

definition Idle :: "client_id \<Rightarrow> 't world \<Rightarrow> 't world" where
  "Idle c w =
     (let w1 = upd_client c (\<lambda>r. r\<lparr>c_pingTime := w_clock w\<rparr>) w;
          w2 = Reply c (RplPing (srv_name w1)) w1
      in upd_client c (\<lambda>r. r\<lparr>c_quitTimer := Some (Armed (w_clock w + QUIT_TIMEOUT))\<rparr>) w2)"

end
