(* ===== verification/Server.thy ===== *)
theory Server
  imports Session
begin

text \<open>
  The handlers of the commands (server.go, nickname.go, modes.go, capability.go), the
  registration of a client, and \<open>processCommand\<close> of client.go, which dispatches to them. A handler
  is a function of the world; \<open>Panic\<close> also stands for \<open>log.Fatal\<close>, which ends the process.

  A command that comes from one client is run to its end before the next one starts.
\<close>

section \<open>Looking up\<close>

definition get_channel :: "'t go_env \<Rightarrow> 't world \<Rightarrow> string \<Rightarrow> channel_id option" where
  "get_channel E w name = cm_get (chan_map E) (srv_channels w) name"

text \<open>The channels \<open>server.channels.Range\<close> visits.\<close>

definition all_channels :: "'t go_env \<Rightarrow> 't world \<Rightarrow> channel_id list" where
  "all_channels E w = map snd (cm_range (chan_map E) (srv_channels w))"

section \<open>Notices to many\<close>

text \<open>\<open>client.replies <- reply\<close> without the test of \<open>Reply\<close>: a closed channel panics.\<close>

definition send_direct :: "client_id \<Rightarrow> string \<Rightarrow> 't world \<Rightarrow> 't world outcome" where
  "send_direct c reply w =
     (if c_replies_closed (cl w c) then Panic else Ret (w\<lparr>w_out := w_out w @ [(c, reply)]\<rparr>))"

definition Wallops :: "'t go_env \<Rightarrow> string \<Rightarrow> 't world \<Rightarrow> 't world outcome" where
  "Wallops E msg w =
     (let body = NewText E msg
      in iterate (\<lambda>c w. if has_mode E w c WallOps
                        then send_direct c (RplNotice (srv_name w) (Nick w c) body) (count_message w)
                        else Ret w)
           (nick_range E w) w)"

definition Global :: "'t go_env \<Rightarrow> string \<Rightarrow> 't world \<Rightarrow> 't world outcome" where
  "Global E msg w =
     (let body = NewText E msg
      in iterate (\<lambda>c w. send_direct c (RplNotice (srv_global_id w) (Nick w c) body) (count_message w))
           (nick_range E w) w)"

section \<open>Registration\<close>

definition HandleServer_LUsers :: "'t go_env \<Rightarrow> client_id \<Rightarrow> 't world \<Rightarrow> 't world" where
  "HandleServer_LUsers E c w =
     RplLUserMe c (RplLUserChannels E c (RplLUserUnknown c (RplLUserOp E c (RplLUserClient c w))))"

text \<open>\<open>reader.ReadString\<close> until it fails: a last line without its line end is not returned.\<close>

definition complete_lines :: "string \<Rightarrow> string list" where
  "complete_lines content = butlast (split_on (CHR 0x0A) content)"

definition trim_line_end :: "string \<Rightarrow> string" where
  "trim_line_end s = rev (dropWhile (\<lambda>x. x = CHR 0x0D \<or> x = CHR 0x0A) (rev s))"

definition MOTD :: "client_id \<Rightarrow> 't world \<Rightarrow> 't world" where
  "MOTD c w =
     (if srv_motdFile w = [] then ErrNoMOTD c w
      else case w_files w (srv_motdFile w) of
        None \<Rightarrow> ErrNoMOTD c w
      | Some content \<Rightarrow>
          RplMOTDEnd c (fold (\<lambda>line. RplMOTD c (trim_line_end line)) (complete_lines content) (RplMOTDStart c w)))"

definition tryRegister :: "'t go_env \<Rightarrow> client_id \<Rightarrow> 't world \<Rightarrow> 't world" where
  "tryRegister E c w =
     (if c_registered (cl w c) \<or> \<not> HasNick w c \<or> \<not> HasUsername w c \<or> c_capState (cl w c) = CapNegotiating
      then w
      else MOTD c (HandleServer_LUsers E c
             (RplMyInfo c (RplCreated E c (RplYourHost c (RplWelcome c (Register E c w)))))))"

text \<open>\<open>UserCommand.setUserInfo\<close>.\<close>

definition setUserInfo :: "'t go_env \<Rightarrow> client_id \<Rightarrow> string \<Rightarrow> string \<Rightarrow> 't world \<Rightarrow> 't world" where
  "setUserInfo E c username realname w =
     (let w1 = snd (nick_remove E c w);
          w2 = upd_client c (\<lambda>r. r\<lparr>c_username := username, c_realname := realname\<rparr>) w1;
          w3 = snd (nick_add E c w2)
      in tryRegister E c w3)"

text \<open>The guard the registration handlers open with.\<close>

definition bad_password :: "'t go_env \<Rightarrow> client_id \<Rightarrow> 't world \<Rightarrow> 't world outcome" where
  "bad_password E c w = client_Quit E c ''bad password'' (ErrPasswdMismatch c w)"

definition HandleRegServer_Pass :: "'t go_env \<Rightarrow> client_id \<Rightarrow> bool \<Rightarrow> 't world \<Rightarrow> 't world outcome" where
  "HandleRegServer_Pass E c err w =
     (if err then bad_password E c w
      else Ret (upd_client c (\<lambda>r. r\<lparr>c_authorized := True\<rparr>) w))"

definition HandleRegServer_Nick :: "'t go_env \<Rightarrow> client_id \<Rightarrow> string \<Rightarrow> 't world \<Rightarrow> 't world outcome" where
  "HandleRegServer_Nick E c nickname w =
     (if \<not> c_authorized (cl w c) then bad_password E c w
      else if nickname = [] then Ret (ErrNoNicknameGiven c w)
      else if nick_get E w nickname \<noteq> None then Ret (ErrNickNameInUse c nickname w)
      else case IsNickname E nickname of
        None \<Rightarrow> Panic
      | Some ok \<Rightarrow>
          if \<not> ok then Ret (ErrErroneusNickname c nickname w)
          else Ret (tryRegister E c (SetNickname E c nickname w)))"

definition HandleRegServer_RFC1459User ::
  "'t go_env \<Rightarrow> client_id \<Rightarrow> string \<Rightarrow> string \<Rightarrow> 't world \<Rightarrow> 't world outcome" where
  "HandleRegServer_RFC1459User E c username realname w =
     (if \<not> c_authorized (cl w c) then bad_password E c w
      else Ret (setUserInfo E c username realname w))"

definition HandleRegServer_RFC2812User ::
  "'t go_env \<Rightarrow> client_id \<Rightarrow> string \<Rightarrow> string \<Rightarrow> 8 word \<Rightarrow> 't world \<Rightarrow> 't world outcome" where
  "HandleRegServer_RFC2812User E c username realname mode w =
     (if \<not> c_authorized (cl w c) then bad_password E c w
      else
        let flags = Flags mode;
            w1 = (if flags \<noteq> []
                  then RplUModeIs E c c (fold (\<lambda>m. upd_client c (set_mode E m)) flags w) else w)
        in Ret (setUserInfo E c username realname w1))"

text \<open>The end of \<open>AuthenticateCommand.HandleRegServer\<close>: the decoded blob is checked.\<close>

definition sasl_authenticate :: "'t go_env \<Rightarrow> client_id \<Rightarrow> string \<Rightarrow> 't world \<Rightarrow> 't world" where
  "sasl_authenticate E c blob w =
     (case split_on (CHR 0x00) blob of
        [authcid, authzid0, password] \<Rightarrow>
          let authzid = (if authzid0 = [] then authcid else authzid0) in
          if authzid \<noteq> authcid then ErrSaslFail c ''authzid and authcid should be the same'' w
          else if \<not> store_Verify E (srv_accounts w) authcid password
          then ErrSaslFail c ''invalid authentication'' w
          else
            let w1 = upd_client c (\<lambda>r. r\<lparr>c_sasl := sasl_login authcid (c_sasl r)\<rparr>) w;
                w2 = RplSaslSuccess c (RplLoggedIn c authcid w1);
                w3 = upd_client c (set_mode E Registered) w2
            in Reply c (RplModeChanges w3 c c [\<lparr>mc_mode = Registered, mc_op = AddOp\<rparr>]) w3
      | _ \<Rightarrow> ErrSaslFail c ''invalid authentication blob'' w)"

definition HandleRegServer_Authenticate ::
  "'t go_env \<Rightarrow> client_id \<Rightarrow> string \<Rightarrow> 't world \<Rightarrow> 't world outcome" where
  "HandleRegServer_Authenticate E c arg w =
     (if \<not> c_authorized (cl w c) then bad_password E c w
      else if arg = ''*'' then Ret (ErrSaslAborted c w)
      else if \<not> sasl_started (c_sasl (cl w c)) then
        (if arg = ''PLAIN''
         then let w1 = upd_client c (\<lambda>r. r\<lparr>c_sasl := sasl_start (c_sasl r)\<rparr>) w
              in Ret (Reply c (RplAuthenticate w1 ''+'') w1)
         else Ret (ErrSaslFail c ''Unknown authentication mechanism'' (RplSaslMechs c [''PLAIN''] w)))
      else if length arg > 400 then Ret (ErrSaslTooLong c w)
      else if length arg = 400
      then Ret (upd_client c (\<lambda>r. r\<lparr>c_sasl := sasl_write arg (c_sasl r)\<rparr>) w)
      else
        let w1 = (if arg \<noteq> ''+'' then upd_client c (\<lambda>r. r\<lparr>c_sasl := sasl_write arg (c_sasl r)\<rparr>) w else w)
        in case b64_decode (sasl_buffer (c_sasl (cl w1 c))) of
             None \<Rightarrow> Ret (upd_client c (\<lambda>r. r\<lparr>c_sasl := sasl_reset (c_sasl r)\<rparr>)
                            (ErrSaslFail c ''Invalid base64 encoding'' w1))
           | Some blob \<Rightarrow> Ret (sasl_authenticate E c blob w1))"

section \<open>Capabilities\<close>

definition SupportedCapabilities :: "string list" where
  "SupportedCapabilities = [''multi-prefix'', ''sasl'']"

definition capset_string :: "'z text_env_scheme \<Rightarrow> string list \<Rightarrow> string" where
  "capset_string E caps = join '' '' (go_range E caps)"

definition DisableString :: "'z text_env_scheme \<Rightarrow> string list \<Rightarrow> string" where
  "DisableString E caps = join '' '' (map (\<lambda>cap. ''-'' @ cap) (go_range E caps))"

definition HandleRegServer_Cap ::
  "'t go_env \<Rightarrow> client_id \<Rightarrow> string \<Rightarrow> string list \<Rightarrow> 't world \<Rightarrow> 't world outcome" where
  "HandleRegServer_Cap E c subCommand caps w =
     (if subCommand = ''LS'' then
        let w1 = upd_client c (\<lambda>r. r\<lparr>c_capState := CapNegotiating\<rparr>) w
        in Ret (Reply c (RplCap w1 c ''LS'' (capset_string E SupportedCapabilities)) w1)
      else if subCommand = ''LIST'' then
        Ret (Reply c (RplCap w c ''LIST'' (capset_string E (c_capabilities (cl w c)))) w)
      else if subCommand = ''REQ'' then
        (if \<exists>cap \<in> set caps. cap \<notin> set SupportedCapabilities
         then Ret (Reply c (RplCap w c ''NAK'' (capset_string E caps)) w)
         else
           let w1 = upd_client c (\<lambda>r. r\<lparr>c_capabilities :=
                      fold (\<lambda>cap m. if cap \<in> set m then m else m @ [cap]) (go_range E caps) (c_capabilities r)\<rparr>) w
           in Ret (Reply c (RplCap w1 c ''ACK'' (capset_string E caps)) w1))
      else if subCommand = ''CLEAR'' then
        let reply = RplCap w c ''ACK'' (DisableString E (c_capabilities (cl w c)))
        in Ret (Reply c reply (upd_client c (\<lambda>r. r\<lparr>c_capabilities := []\<rparr>) w))
      else if subCommand = ''END'' then
        Ret (tryRegister E c (upd_client c (\<lambda>r. r\<lparr>c_capState := CapNegotiated\<rparr>) w))
      else Ret (ErrInvalidCapCmd c subCommand w))"

section \<open>Nicks\<close>

definition HandleServer_Nick :: "'t go_env \<Rightarrow> client_id \<Rightarrow> string \<Rightarrow> 't world \<Rightarrow> 't world outcome" where
  "HandleServer_Nick E c nickname w =
     (if nickname = [] then Ret (ErrNoNicknameGiven c w)
      else case IsNickname E nickname of
        None \<Rightarrow> Panic
      | Some ok \<Rightarrow>
          if \<not> ok then Ret (ErrErroneusNickname c nickname w)
          else if nickname = c_nick (cl w c) then Ret w
          else if nick_get E w nickname \<noteq> None \<and> nick_get E w nickname \<noteq> Some c
          then Ret (ErrNickNameInUse c nickname w)
          else ChangeNickname E c nickname w)"

definition HandleServer_OperNick ::
  "'t go_env \<Rightarrow> client_id \<Rightarrow> string \<Rightarrow> string \<Rightarrow> 't world \<Rightarrow> 't world outcome" where
  "HandleServer_OperNick E c target_nick nick w =
     (if \<not> has_mode E w c Operator then Ret (ErrNoPrivileges c w)
      else case IsNickname E nick of
        None \<Rightarrow> Panic
      | Some ok \<Rightarrow>
          if \<not> ok then Ret (ErrErroneusNickname c nick w)
          else if nick = c_nick (cl w c) then Ret w
          else (case nick_get E w target_nick of
            None \<Rightarrow> Ret (ErrNoSuchNick c target_nick w)
          | Some target \<Rightarrow>
              if nick_get E w nick \<noteq> None then Ret (ErrNickNameInUse c nick w)
              else ChangeNickname E target nick w))"

section \<open>User modes\<close>

text \<open>The loop of \<open>ModeCommand.HandleServer\<close>: the changes that were made.\<close>

fun apply_user_changes ::
  "'t go_env \<Rightarrow> client_id \<Rightarrow> ModeChange list \<Rightarrow> 't world \<Rightarrow> ModeChange list \<times> 't world" where
  "apply_user_changes E target [] w = ([], w)"
| "apply_user_changes E target (change # changes) w =
     (let mode = mc_mode change; op = mc_op change; has = has_mode E w target mode;
          listed = mode \<in> {Invisible, HostMask, WallOps, SecureOnly} in
      if listed \<and> op = AddOp \<and> \<not> has then
        (case apply_user_changes E target changes (upd_client target (set_mode E mode) w) of
           (cs, w') \<Rightarrow> (change # cs, w'))
      else if (listed \<or> mode = Operator) \<and> op = RemoveOp \<and> has then
        (case apply_user_changes E target changes (upd_client target (unset_mode E mode) w) of
           (cs, w') \<Rightarrow> (change # cs, w'))
      else apply_user_changes E target changes w)"

definition HandleServer_Mode ::
  "'t go_env \<Rightarrow> client_id \<Rightarrow> string \<Rightarrow> ModeChange list \<Rightarrow> 't world \<Rightarrow> 't world" where
  "HandleServer_Mode E c nickname changes w =
     (case nick_get E w nickname of
        None \<Rightarrow> ErrNoSuchNick c nickname w
      | Some target \<Rightarrow>
          if c \<noteq> target \<and> \<not> has_mode E w c Operator then ErrUsersDontMatch c w
          else (case apply_user_changes E target changes w of
            (applied, w1) \<Rightarrow>
              if applied \<noteq> [] then Reply c (RplModeChanges w1 c target applied) w1
              else if c = target then RplUModeIs E c c w1
              else w1))"

definition HandleServer_ChannelMode ::
  "'t go_env \<Rightarrow> client_id \<Rightarrow> string \<Rightarrow> ChannelModeChange list \<Rightarrow> 't world \<Rightarrow> 't world" where
  "HandleServer_ChannelMode E c chname changes w =
     (case get_channel E w chname of
        None \<Rightarrow> ErrNoSuchChannel c chname w
      | Some ch \<Rightarrow> channel_Mode E ch c changes w)"

section \<open>Channels\<close>

text \<open>One entry of the map of a JOIN.\<close>

definition join_one :: "'t go_env \<Rightarrow> client_id \<Rightarrow> string \<times> string \<Rightarrow> 't world \<Rightarrow> 't world" where
  "join_one E c entry w =
     (case entry of (name, key) \<Rightarrow>
        if \<not> IsChannel E name then ErrNoSuchChannel c name w
        else (case get_channel E w name of
          None \<Rightarrow> (case NewChannel E name True w of (ch, w1) \<Rightarrow> channel_Join E ch c key w1)
        | Some ch \<Rightarrow> channel_Join E ch c key w))"

definition HandleServer_Join ::
  "'t go_env \<Rightarrow> client_id \<Rightarrow> (string \<times> string) list \<Rightarrow> bool \<Rightarrow> 't world \<Rightarrow> 't world" where
  "HandleServer_Join E c channels zero w =
     (if zero
      then fold (\<lambda>ch w. channel_Part E ch c (Nick w c) w) (set_range (chan_sets E) (c_channels (cl w c))) w
      else fold (join_one E c) (go_range E channels) w)"

text \<open>\<open>PartCommand.Message\<close> and \<open>KickCommand.Comment\<close>: the nick of the sender when there is none.\<close>

definition part_message :: "'t world \<Rightarrow> client_id \<Rightarrow> string \<Rightarrow> string" where
  "part_message w c msg = (if msg = [] then Nick w c else msg)"

definition kick_comment :: "'t world \<Rightarrow> client_id \<Rightarrow> string \<Rightarrow> string" where
  "kick_comment w c comment = (if comment = [] then Nick w c else comment)"

definition HandleServer_Part :: "'t go_env \<Rightarrow> client_id \<Rightarrow> string list \<Rightarrow> string \<Rightarrow> 't world \<Rightarrow> 't world" where
  "HandleServer_Part E c channels msg w =
     fold (\<lambda>chname w. case get_channel E w chname of
              None \<Rightarrow> ErrNoSuchChannel c chname w
            | Some ch \<Rightarrow> channel_Part E ch c (part_message w c msg) w)
       channels w"

definition HandleServer_Topic ::
  "'t go_env \<Rightarrow> client_id \<Rightarrow> string \<Rightarrow> bool \<Rightarrow> string \<Rightarrow> 't world \<Rightarrow> 't world" where
  "HandleServer_Topic E c chname setTopic topic w =
     (case get_channel E w chname of
        None \<Rightarrow> ErrNoSuchChannel c chname w
      | Some ch \<Rightarrow> if setTopic then SetTopic E ch c topic w else GetTopic E ch c w)"

definition HandleServer_Kick ::
  "'t go_env \<Rightarrow> client_id \<Rightarrow> (string \<times> string) list \<Rightarrow> string \<Rightarrow> 't world \<Rightarrow> 't world" where
  "HandleServer_Kick E c kicks comment w =
     fold (\<lambda>(chname, nickname) w. case get_channel E w chname of
              None \<Rightarrow> ErrNoSuchChannel c chname w
            | Some ch \<Rightarrow> (case nick_get E w nickname of
                None \<Rightarrow> ErrNoSuchNick c nickname w
              | Some target \<Rightarrow> channel_Kick E ch c target (kick_comment w c comment) w))
       (go_range E kicks) w"

definition HandleServer_List :: "'t go_env \<Rightarrow> client_id \<Rightarrow> string list \<Rightarrow> string \<Rightarrow> 't world \<Rightarrow> 't world" where
  "HandleServer_List E c channels target w =
     (if target \<noteq> [] then ErrNoSuchServer c target w
      else if channels = []
      then RplListEnd c (fold (\<lambda>ch w. if CanSeeChannel E w c ch then RplList E c ch w else w) (all_channels E w) w)
      else RplListEnd c
             (fold (\<lambda>chname w. case get_channel E w chname of
                      None \<Rightarrow> ErrNoSuchChannel c chname w
                    | Some ch \<Rightarrow> if \<not> CanSeeChannel E w c ch then ErrNoSuchChannel c chname w
                                 else RplList E c ch w) channels w))"

definition HandleServer_Names :: "'t go_env \<Rightarrow> client_id \<Rightarrow> string list \<Rightarrow> 't world \<Rightarrow> 't world" where
  "HandleServer_Names E c channels w =
     (if cm_count (chan_map E) (srv_channels w) = 0
      then fold (\<lambda>ch. channel_Names E ch c) (all_channels E w) w
      else fold (\<lambda>chname w. case get_channel E w chname of
                   None \<Rightarrow> ErrNoSuchChannel c chname w
                 | Some ch \<Rightarrow> channel_Names E ch c w) channels w)"

definition HandleServer_Invite :: "'t go_env \<Rightarrow> client_id \<Rightarrow> string \<Rightarrow> string \<Rightarrow> 't world \<Rightarrow> 't world" where
  "HandleServer_Invite E c nickname chname w =
     (case nick_get E w nickname of
        None \<Rightarrow> ErrNoSuchNick c nickname w
      | Some target \<Rightarrow> (case get_channel E w chname of
          None \<Rightarrow> let w1 = RplInviting c target chname w in Reply target (RplInviteMsg w1 c target chname) w1
        | Some ch \<Rightarrow> channel_Invite E ch target c w))"

section \<open>Messages\<close>

definition HandleServer_PrivMsg :: "'t go_env \<Rightarrow> client_id \<Rightarrow> string \<Rightarrow> string \<Rightarrow> 't world \<Rightarrow> 't world" where
  "HandleServer_PrivMsg E c target_name msg w =
     (if IsChannel E target_name then
        (case get_channel E w target_name of
           None \<Rightarrow> ErrNoSuchChannel c target_name w
         | Some ch \<Rightarrow> channel_PrivMsg E ch c msg w)
      else case nick_get E w target_name of
        None \<Rightarrow> ErrNoSuchNick c target_name w
      | Some target \<Rightarrow>
          if \<not> client_can_speak E w c target
          then ErrCannotSendToUser c (c_nick (cl w target)) ''secure connection required'' w
          else
            let w1 = Reply target (RplPrivMsg (client_str w c) (Nick w target) msg) (count_message w)
            in if has_mode E w1 target Away then RplAway c target w1 else w1)"

definition HandleServer_Notice :: "'t go_env \<Rightarrow> client_id \<Rightarrow> string \<Rightarrow> string \<Rightarrow> 't world \<Rightarrow> 't world outcome" where
  "HandleServer_Notice E c target_name msg w =
     (if target_name = ''*'' \<and> has_mode E w c Operator then Global E msg w
      else if IsChannel E target_name then
        (case get_channel E w target_name of
           None \<Rightarrow> Ret (ErrNoSuchChannel c target_name w)
         | Some ch \<Rightarrow> Ret (channel_Notice E ch c msg w))
      else case nick_get E w target_name of
        None \<Rightarrow> Ret (ErrNoSuchNick c target_name w)
      | Some target \<Rightarrow>
          if \<not> client_can_speak E w c target
          then Ret (ErrCannotSendToUser c (c_nick (cl w target)) ''secure connection required'' w)
          else Ret (Reply target (RplNotice (client_str w c) (Nick w target) msg) (count_message w)))"

end
