(* ===== verification/Net.thy ===== *)
theory Net
  imports Prelude
begin

text \<open>
  src/internal/net.go: the name by which a connection is known. The address of a peer is printed by
  \<open>net.JoinHostPort\<close> and taken apart by \<open>net.SplitHostPort\<close>, both of Go's library; \<open>lookup\<close> is the
  resolver \<open>net.LookupAddr\<close>, with None for its error.
\<close>

section \<open>Addresses\<close>

definition first_index :: "char \<Rightarrow> string \<Rightarrow> nat option" where
  "first_index c s = (if c \<in> set s then Some (length (takeWhile (\<lambda>x. x \<noteq> c) s)) else None)"

definition last_index :: "char \<Rightarrow> string \<Rightarrow> nat option" where
  "last_index c s = (if c \<in> set s then Some (length s - 1 - length (takeWhile (\<lambda>x. x \<noteq> c) (rev s))) else None)"

definition SplitHostPort :: "string \<Rightarrow> (string \<times> string) option" where
  "SplitHostPort hostport =
     (case last_index (CHR '':'') hostport of
        None \<Rightarrow> None
      | Some i \<Rightarrow>
          let finish = (\<lambda>host j k.
                if CHR ''['' \<in> set (drop j hostport) then None
                else if CHR '']'' \<in> set (drop k hostport) then None
                else Some (host, drop (i + 1) hostport)) in
          if take 1 hostport = ''['' then
            (case first_index (CHR '']'') hostport of
               None \<Rightarrow> None
             | Some e \<Rightarrow>
                 if e + 1 = length hostport then None
                 else if e + 1 = i then finish (take (e - 1) (drop 1 hostport)) 1 (e + 1)
                 else None)
          else if CHR '':'' \<in> set (take i hostport) then None
          else finish (take i hostport) 0 0)"

definition JoinHostPort :: "string \<Rightarrow> string \<Rightarrow> string" where
  "JoinHostPort host port =
     (if CHR '':'' \<in> set host then ''['' @ host @ '']:'' @ port else host @ '':'' @ port)"

section \<open>Host names\<close>

definition IPString :: "string \<Rightarrow> string" where
  "IPString addr = (case SplitHostPort addr of None \<Rightarrow> addr | Some (ipaddr, _) \<Rightarrow> ipaddr)"

text \<open>\<open>names[0]\<close> panics if the resolver finds no name and reports no error.\<close>

definition LookupHostname :: "(string \<Rightarrow> string list option) \<Rightarrow> string \<Rightarrow> string outcome" where
  "LookupHostname lookup addr =
     (case lookup addr of
        None \<Rightarrow> Ret addr
      | Some [] \<Rightarrow> Panic
      | Some (name # _) \<Rightarrow> Ret (trim_suffix name ''.''))"

definition AddrLookupHostname :: "(string \<Rightarrow> string list option) \<Rightarrow> string \<Rightarrow> string outcome" where
  "AddrLookupHostname lookup addr = LookupHostname lookup (IPString addr)"

section \<open>The host of an address\<close>

lemma last_index_append: "c \<notin> set t \<Longrightarrow> last_index c (s @ c # t) = Some (length s)"
  by (simp add: last_index_def takeWhile_append1 takeWhile_append2) (simp add: takeWhile_append)

lemma first_index_append: "c \<notin> set s \<Longrightarrow> first_index c (s @ c # t) = Some (length s)"
  by (simp add: first_index_def takeWhile_append)

lemma split_join:
  assumes "CHR ''['' \<notin> set host" "CHR '']'' \<notin> set host"
    and "CHR '':'' \<notin> set port" "CHR ''['' \<notin> set port" "CHR '']'' \<notin> set port"
  shows "SplitHostPort (JoinHostPort host port) = Some (host, port)"
proof (cases "CHR '':'' \<in> set host")
  case True
  let ?s = "''['' @ host @ '']:'' @ port"
  have "last_index (CHR '':'') ((''['' @ host @ '']'') @ CHR '':'' # port) = Some (length host + 2)"
    by (subst last_index_append) (use assms in simp_all)
  moreover have "first_index (CHR '']'') ((''['' @ host) @ CHR '']'' # '':'' @ port) = Some (length host + 1)"
    by (subst first_index_append) (use assms in simp_all)
  ultimately have i: "last_index (CHR '':'') ?s = Some (length host + 2)" "first_index (CHR '']'') ?s = Some (length host + 1)"
    by simp_all
  have "SplitHostPort ?s = Some (host, port)"
    unfolding SplitHostPort_def i using assms by simp
  with True show ?thesis by (simp add: JoinHostPort_def)
next
  case False
  have i: "last_index (CHR '':'') (host @ '':'' @ port) = Some (length host)"
    using last_index_append [of "CHR '':''" port host] assms by simp
  have "take 1 (host @ '':'' @ port) \<noteq> ''[''" using assms(1) by (cases host) auto
  then have "SplitHostPort (host @ '':'' @ port) = Some (host, port)"
    unfolding SplitHostPort_def i using assms False by simp
  with False show ?thesis by (simp add: JoinHostPort_def)
qed

text \<open>The host name of a connection, IPv4 or IPv6: of the printed address the part before the port is
  looked up, without its brackets; the first name found counts, without the dot at its end, and the
  address itself if there is none.\<close>

lemma hostname_of_address:
  assumes "CHR ''['' \<notin> set host" "CHR '']'' \<notin> set host"
    and "CHR '':'' \<notin> set port" "CHR ''['' \<notin> set port" "CHR '']'' \<notin> set port"
  shows "AddrLookupHostname lookup (JoinHostPort host port) =
    (case lookup host of None \<Rightarrow> Ret host | Some [] \<Rightarrow> Panic | Some (name # _) \<Rightarrow> Ret (trim_suffix name ''.''))"
  by (simp add: AddrLookupHostname_def IPString_def LookupHostname_def split_join [OF assms])

end
