(* ===== verification/Dispatch.thy ===== *)
theory Dispatch
  imports Server Net
begin

text \<open>
  The remaining handlers of server.go, those that answer queries and those for operators, and the
  way of a line from the socket to its handler: \<open>readloop\<close> and \<open>processCommand\<close> of client.go, and
  the accepting of a connection.
\<close>

section \<open>Queries about clients\<close>

text \<open>
  \<open>WhoisChannelsNames\<close>: there is a place for each channel of the client, and those the asker may
  see fill the first ones. \<open>members.Get\<close> is nil when the client has left the channel; \<open>Has\<close> is called
  through the pointer all the same.
\<close>

definition modes_has :: "'t go_env \<Rightarrow> 't option \<Rightarrow> rune \<Rightarrow> bool outcome" where
  "modes_has E modes mode =
     (case modes of None \<Rightarrow> nil_modes_has E mode | Some s \<Rightarrow> Ret (set_has (chan_modes E) s mode))"

definition whois_channel_name :: "'t go_env \<Rightarrow> 't world \<Rightarrow> client_id \<Rightarrow> channel_id \<Rightarrow> string outcome" where
  "whois_channel_name E w client ch =
     (let modes = mem_get (members_ops E) (ch_members (chn w ch)) client
      in and_then (modes_has E modes ChannelOperator)
           (\<lambda>op. if op then Ret (''@'' @ chan_str w ch)
                 else and_then (modes_has E modes Voice)
                        (\<lambda>voice. Ret (if voice then ''+'' @ chan_str w ch else chan_str w ch))))"

definition WhoisChannelsNames :: "'t go_env \<Rightarrow> 't world \<Rightarrow> client_id \<Rightarrow> client_id \<Rightarrow> string list outcome" where
  "WhoisChannelsNames E w client target =
     and_then
       (iterate (\<lambda>ch chstrs. if \<not> CanSeeChannel E w target ch then Ret chstrs
                             else and_then (whois_channel_name E w client ch) (\<lambda>s. Ret (chstrs @ [s])))
          (set_range (chan_sets E) (c_channels (cl w client))) [])
       (\<lambda>chstrs. Ret (chstrs @ replicate (set_count (chan_sets E) (c_channels (cl w client)) - length chstrs) []))"

definition RplWhoisChannels :: "'t go_env \<Rightarrow> client_id \<Rightarrow> client_id \<Rightarrow> 't world \<Rightarrow> 't world outcome" where
  "RplWhoisChannels E target client w =
     and_then (WhoisChannelsNames E w client target)
       (\<lambda>names. Ret (MultilineReply target names RPL_WHOISCHANNELS ''%s :%s'' [Nick w client] w))"

definition RplWhois :: "'t go_env \<Rightarrow> client_id \<Rightarrow> client_id \<Rightarrow> 't world \<Rightarrow> 't world outcome" where
  "RplWhois E target client w =
     (let w1 = RplWhoisUser E target client w;
          w2 = (if has_mode E w1 client Operator then RplWhoisOperator target client w1 else w1);
          w3 = RplWhoisIdle target client w2
      in and_then (RplWhoisChannels E target client w3)
           (\<lambda>w4. let w5 = (if has_mode E w4 client SecureConn then RplWhoisSecure target client w4 else w4)
                 in Ret (RplEndOfWhois target client
                          (RplWhoisLoggedIn target client (RplWhoisServer target client w5)))))"

definition HandleServer_Whois :: "'t go_env \<Rightarrow> client_id \<Rightarrow> string list \<Rightarrow> 't world \<Rightarrow> 't world outcome" where
  "HandleServer_Whois E c mask_names w =
     iterate (\<lambda>m w. let matches = FindAll E w m in
                if set_count (client_sets E) matches = 0 then Ret (ErrNoSuchNick c m w)
                else iterate (\<lambda>mclient. RplWhois E c mclient) (set_range (client_sets E) matches) w)
       mask_names w"

definition whoChannel :: "'t go_env \<Rightarrow> client_id \<Rightarrow> channel_id \<Rightarrow> 't \<Rightarrow> 't world \<Rightarrow> 't world" where
  "whoChannel E client ch friends w =
     fold (\<lambda>member w. if \<not> has_mode E w client Invisible \<or> set_has (client_sets E) friends client
                      then RplWhoReply E client (Some ch) member w else w)
       (members E w ch) w"

definition HandleServer_Who :: "'t go_env \<Rightarrow> client_id \<Rightarrow> string \<Rightarrow> 't world \<Rightarrow> 't world" where
  "HandleServer_Who E c m w =
     (let friends = Friends E w c;
          w1 = (if m = [] then fold (\<lambda>ch. whoChannel E c ch friends) (all_channels E w) w
                else if IsChannel E m then
                  (case get_channel E w m of None \<Rightarrow> w | Some ch \<Rightarrow> whoChannel E c ch friends w)
                else fold (\<lambda>mclient. RplWhoReply E c None mclient)
                       (set_range (client_sets E) (FindAll E w m)) w)
      in RplEndOfWho c m w1)"

definition HandleServer_IsOn :: "'t go_env \<Rightarrow> client_id \<Rightarrow> string list \<Rightarrow> 't world \<Rightarrow> 't world" where
  "HandleServer_IsOn E c nicks w =
     RplIsOn c (concat (map (\<lambda>nick. case nick_get E w nick of None \<Rightarrow> [] | Some ic \<Rightarrow> [Nick w ic]) nicks)) w"

definition HandleServer_WhoWas ::
  "'t go_env \<Rightarrow> client_id \<Rightarrow> string list \<Rightarrow> int \<Rightarrow> 't world \<Rightarrow> 't world outcome" where
  "HandleServer_WhoWas E c nicknames lim w =
     iterate (\<lambda>nickname w.
         and_then (whowas_find (srv_whoWas w) nickname lim)
           (\<lambda>(results, l).
              let w1 = w\<lparr>srv_whoWas := l\<rparr>;
                  w2 = (if results = [] then ErrWasNoSuchNick c nickname w1
                        else fold (RplWhoWasUser E c) results w1)
              in Ret (RplEndOfWhoWas c nickname w2)))
       nicknames w"

section \<open>The client's own state, and the server\<close>

definition HandleServer_Ping :: "client_id \<Rightarrow> string \<Rightarrow> 't world \<Rightarrow> 't world" where
  "HandleServer_Ping c server_arg w = Reply c (RplPong w c server_arg) w"

definition HandleServer_Away :: "'t go_env \<Rightarrow> client_id \<Rightarrow> string \<Rightarrow> 't world \<Rightarrow> 't world" where
  "HandleServer_Away E c body w =
     upd_client c (\<lambda>r. (if length body > 0 then set_mode E Away r else unset_mode E Away r)
                         \<lparr>c_awayMessage := body\<rparr>) w"

definition HandleServer_Version :: "client_id \<Rightarrow> string \<Rightarrow> 't world \<Rightarrow> 't world" where
  "HandleServer_Version c target w =
     (if target \<noteq> [] \<and> target \<noteq> srv_name w then ErrNoSuchServer c target w else RplVersion c w)"

definition HandleServer_Time :: "'t go_env \<Rightarrow> client_id \<Rightarrow> string \<Rightarrow> 't world \<Rightarrow> 't world" where
  "HandleServer_Time E c target w =
     (if target \<noteq> [] \<and> target \<noteq> srv_name w then ErrNoSuchServer c target w else RplTime E c w)"

section \<open>Operators\<close>

definition HandleServer_Oper :: "'t go_env \<Rightarrow> client_id \<Rightarrow> string option \<Rightarrow> bool \<Rightarrow> 't world \<Rightarrow> 't world" where
  "HandleServer_Oper E c hash err w =
     (if hash = None \<or> err then ErrPasswdMismatch c w
      else
        let w1 = upd_client c (\<lambda>r. set_mode E WallOps (set_mode E Operator r)) w;
            w2 = RplYoureOper c w1
        in Reply c (RplModeChanges w2 c c
             [\<lparr>mc_mode = Operator, mc_op = AddOp\<rparr>, \<lparr>mc_mode = WallOps, mc_op = AddOp\<rparr>]) w2)"

text \<open>
  \<open>Config.Reload\<close>: its result is nil on every path, for None; what went wrong is lost. The new
  configuration is merged into the old one as \<open>mergo\<close> does it.
\<close>

definition Reload :: "'t go_env \<Rightarrow> 't world \<Rightarrow> (string option \<times> 't world) outcome" where
  "Reload E w =
     and_then (LoadConfig E (w_files w) (cfg_filename (srv_config w)))
       (\<lambda>r. case r of
              Inl _ \<Rightarrow> Ret (None, w)
            | Inr newconf \<Rightarrow> Ret (None, w\<lparr>srv_config := merge_config E (srv_config w) newconf\<rparr>))"

definition Rehash :: "'t go_env \<Rightarrow> 't world \<Rightarrow> (string option \<times> 't world) outcome" where
  "Rehash E w =
     and_then (Reload E w)
       (\<lambda>(err, w1). case err of
            Some e \<Rightarrow> Ret (Some e, w1)
          | None \<Rightarrow>
              let conf = srv_config w1 in
              and_then (Operators E conf)
                (\<lambda>ops. Ret (None, w1\<lparr>srv_motdFile := cfg_motd conf, srv_name := NewName E (cfg_name conf),
                                      srv_network := NewName E (cfg_network conf),
                                      srv_description := cfg_description conf, srv_operators := ops\<rparr>)))"

definition HandleServer_Rehash :: "'t go_env \<Rightarrow> client_id \<Rightarrow> 't world \<Rightarrow> 't world outcome" where
  "HandleServer_Rehash E c w =
     (if \<not> has_mode E w c Operator then Ret (ErrNoPrivileges c w)
      else
        and_then (Wallops E (Sprintf ''Rehashing server config (%s)'' [Nick w c]) w)
          (\<lambda>w1. and_then (Rehash E w1)
             (\<lambda>(err, w2). case err of
                 Some e \<Rightarrow> Wallops E (Sprintf ''ERROR: Rehashing config failed (%s)'' [e]) w2
               | None \<Rightarrow> Ret (RplRehashing c w2))))"

definition HandleServer_Wallops :: "'t go_env \<Rightarrow> client_id \<Rightarrow> string \<Rightarrow> 't world \<Rightarrow> 't world outcome" where
  "HandleServer_Wallops E c msg w =
     (if \<not> has_mode E w c Operator then Ret (ErrNoPrivileges c w) else Wallops E msg w)"

definition HandleServer_Kill ::
  "'t go_env \<Rightarrow> client_id \<Rightarrow> string \<Rightarrow> string \<Rightarrow> 't world \<Rightarrow> 't world outcome" where
  "HandleServer_Kill E c nickname comment w =
     (if \<not> has_mode E w c Operator then Ret (ErrNoPrivileges c w)
      else case nick_get E w nickname of
        None \<Rightarrow> Ret (ErrNoSuchNick c nickname w)
      | Some target \<Rightarrow>
          client_Quit E target (NewText E (Sprintf ''KILLed by %s: %s'' [Nick w c, comment])) w)"

section \<open>Dispatch\<close>

text \<open>
  \<open>LoadPassword\<close> and \<open>CheckPassword\<close>, which \<open>readloop\<close> calls on a command that has them: \<open>hash\<close> is
  set, and \<open>err\<close> if there is a hash that the password does not match.
\<close>

definition check_password :: "'t go_env \<Rightarrow> Command \<Rightarrow> 't world \<Rightarrow> Command" where
  "check_password E cmd w =
     (case cmd of
        PassCommand _ pw err \<Rightarrow>
          (case srv_password w of
             None \<Rightarrow> PassCommand None pw err
           | Some h \<Rightarrow> PassCommand (Some h) pw (\<not> ComparePassword E h pw))
      | OperCommand name _ pw err \<Rightarrow>
          (case map_of (srv_operators w) name of
             None \<Rightarrow> OperCommand name None pw err
           | Some h \<Rightarrow> OperCommand name (Some h) pw (\<not> ComparePassword E h pw))
      | _ \<Rightarrow> cmd)"

text \<open>
  The commands that are a \<open>RegServerCommand\<close>, with their \<open>HandleRegServer\<close>. \<open>OperCommand\<close> is one,
  because it embeds \<open>PassCommand\<close>, whose method is promoted.
\<close>

definition HandleRegServer ::
  "'t go_env \<Rightarrow> client_id \<Rightarrow> Command \<Rightarrow> ('t world \<Rightarrow> 't world outcome) option" where
  "HandleRegServer E c cmd =
     (case cmd of
        PassCommand _ _ err \<Rightarrow> Some (HandleRegServer_Pass E c err)
      | OperCommand _ _ _ err \<Rightarrow> Some (HandleRegServer_Pass E c err)
      | NickCommand nickname \<Rightarrow> Some (HandleRegServer_Nick E c nickname)
      | RFC1459UserCommand username realname _ _ \<Rightarrow> Some (HandleRegServer_RFC1459User E c username realname)
      | RFC2812UserCommand username realname mode _ \<Rightarrow>
          Some (HandleRegServer_RFC2812User E c username realname mode)
      | AuthenticateCommand arg \<Rightarrow> Some (HandleRegServer_Authenticate E c arg)
      | CapCommand subCommand caps \<Rightarrow> Some (HandleRegServer_Cap E c subCommand caps)
      | QuitCommand msg \<Rightarrow> Some (client_Quit E c msg)
      | _ \<Rightarrow> None)"

text \<open>The commands that are a \<open>ServerCommand\<close>, with their \<open>HandleServer\<close>.\<close>

definition HandleServer ::
  "'t go_env \<Rightarrow> client_id \<Rightarrow> Command \<Rightarrow> ('t world \<Rightarrow> 't world outcome) option" where
  "HandleServer E c cmd =
     (case cmd of
        PassCommand _ _ _ \<Rightarrow> Some (\<lambda>w. Ret (ErrAlreadyRegistered c w))
      | RFC1459UserCommand _ _ _ _ \<Rightarrow> Some (\<lambda>w. Ret (ErrAlreadyRegistered c w))
      | RFC2812UserCommand _ _ _ _ \<Rightarrow> Some (\<lambda>w. Ret (ErrAlreadyRegistered c w))
      | PingCommand server_arg _ \<Rightarrow> Some (\<lambda>w. Ret (HandleServer_Ping c server_arg w))
      | PongCommand _ _ \<Rightarrow> Some Ret
      | NickCommand nickname \<Rightarrow> Some (HandleServer_Nick E c nickname)
      | OperNickCommand target nick \<Rightarrow> Some (HandleServer_OperNick E c target nick)
      | QuitCommand msg \<Rightarrow> Some (client_Quit E c msg)
      | JoinCommand channels zero \<Rightarrow> Some (\<lambda>w. Ret (HandleServer_Join E c channels zero w))
      | PartCommand channels msg \<Rightarrow> Some (\<lambda>w. Ret (HandleServer_Part E c channels msg w))
      | TopicCommand chname setTopic topic \<Rightarrow> Some (\<lambda>w. Ret (HandleServer_Topic E c chname setTopic topic w))
      | PrivMsgCommand target msg \<Rightarrow> Some (\<lambda>w. Ret (HandleServer_PrivMsg E c target msg w))
      | NoticeCommand target msg \<Rightarrow> Some (HandleServer_Notice E c target msg)
      | ModeCommand nickname changes \<Rightarrow> Some (\<lambda>w. Ret (HandleServer_Mode E c nickname changes w))
      | ChannelModeCommand chname changes \<Rightarrow> Some (\<lambda>w. Ret (HandleServer_ChannelMode E c chname changes w))
      | WhoisCommand _ mask_names \<Rightarrow> Some (HandleServer_Whois E c mask_names)
      | WhoCommand m _ \<Rightarrow> Some (\<lambda>w. Ret (HandleServer_Who E c m w))
      | OperCommand _ hash _ err \<Rightarrow> Some (\<lambda>w. Ret (HandleServer_Oper E c hash err w))
      | RehashCommand \<Rightarrow> Some (HandleServer_Rehash E c)
      | AwayCommand body \<Rightarrow> Some (\<lambda>w. Ret (HandleServer_Away E c body w))
      | IsOnCommand nicks \<Rightarrow> Some (\<lambda>w. Ret (HandleServer_IsOn E c nicks w))
      | MOTDCommand _ \<Rightarrow> Some (\<lambda>w. Ret (MOTD c w))
      | KickCommand kicks comment \<Rightarrow> Some (\<lambda>w. Ret (HandleServer_Kick E c kicks comment w))
      | ListCommand channels target \<Rightarrow> Some (\<lambda>w. Ret (HandleServer_List E c channels target w))
      | NamesCommand channels _ \<Rightarrow> Some (\<lambda>w. Ret (HandleServer_Names E c channels w))
      | VersionCommand target \<Rightarrow> Some (\<lambda>w. Ret (HandleServer_Version c target w))
      | InviteCommand nickname chname \<Rightarrow> Some (\<lambda>w. Ret (HandleServer_Invite E c nickname chname w))
      | TimeCommand target \<Rightarrow> Some (\<lambda>w. Ret (HandleServer_Time E c target w))
      | LUsersCommand \<Rightarrow> Some (\<lambda>w. Ret (HandleServer_LUsers E c w))
      | KillCommand nickname comment \<Rightarrow> Some (HandleServer_Kill E c nickname comment)
      | WallopsCommand msg \<Rightarrow> Some (HandleServer_Wallops E c msg)
      | WhoWasCommand nicknames lim _ \<Rightarrow> Some (HandleServer_WhoWas E c nicknames lim)
      | UnknownCommand _ \<Rightarrow> None
      | AuthenticateCommand _ \<Rightarrow> None
      | CapCommand _ _ \<Rightarrow> None)"

text \<open>The switch of \<open>processCommand\<close> before the handler runs.\<close>

definition note_activity :: "client_id \<Rightarrow> Command \<Rightarrow> 't world \<Rightarrow> 't world" where
  "note_activity c cmd w =
     (case cmd of
        PingCommand _ _ \<Rightarrow> Touch c w
      | PongCommand _ _ \<Rightarrow> Touch c w
      | QuitCommand _ \<Rightarrow> w
      | _ \<Rightarrow> Touch c (Active c w))"

definition processCommand :: "'t go_env \<Rightarrow> client_id \<Rightarrow> string \<Rightarrow> Command \<Rightarrow> 't world \<Rightarrow> 't world outcome" where
  "processCommand E c code cmd w =
     (if \<not> c_registered (cl w c) then
        (case HandleRegServer E c cmd of
           None \<Rightarrow> client_Quit E c ''unexpected command'' w
         | Some h \<Rightarrow> h w)
      else case HandleServer E c cmd of
        None \<Rightarrow> Ret (ErrUnknownCommand c code w)
      | Some h \<Rightarrow> h (note_activity c cmd (w\<lparr>w_commands := w_commands w + 1\<rparr>)))"

text \<open>One turn of \<open>readloop\<close> with a line that was read, and its last one, when reading failed.\<close>

definition handle_line :: "'t go_env \<Rightarrow> client_id \<Rightarrow> string \<Rightarrow> 't world \<Rightarrow> 't world outcome" where
  "handle_line E c line w =
     (case ParseCommand E line of
        (code, Inl ErrParseCommand) \<Rightarrow>
          Ret (Reply c (RplNotice (srv_name w) (Nick w c) (NewText E ''failed to parse command'')) w)
      | (code, Inl NotEnoughArgsError) \<Rightarrow> Ret w
      | (code, Inr cmd) \<Rightarrow> processCommand E c code (check_password E cmd w) w)"

definition connection_closed :: "'t go_env \<Rightarrow> client_id \<Rightarrow> 't world \<Rightarrow> 't world outcome" where
  "connection_closed E c w = processCommand E c ''QUIT'' (QuitCommand ''connection closed'') w"

definition connectionTimeout :: "'t go_env \<Rightarrow> client_id \<Rightarrow> 't world \<Rightarrow> 't world outcome" where
  "connectionTimeout E c w = processCommand E c ''QUIT'' (QuitCommand ''connection timeout'') w"

section \<open>New connections\<close>

text \<open>\<open>SHA256\<close> (utils.go): the bytes of the sum, two lower case digits each.\<close>

definition hex_digits :: string where "hex_digits = ''0123456789abcdef''"

definition hex_byte :: "char \<Rightarrow> string" where
  "hex_byte b = [hex_digits ! (of_char b div 16), hex_digits ! (of_char b mod 16)]"

definition SHA256 :: "'t go_env \<Rightarrow> string \<Rightarrow> string" where
  "SHA256 E data = concat (map hex_byte (sha256_sum E data))"

text \<open>So the mask of a host has none of the characters that mean something in a source or a mask.\<close>

lemma SHA256_digits: "set (SHA256 E data) \<subseteq> set hex_digits"
proof -
  have "set (hex_byte b) \<subseteq> set hex_digits" for b
  proof -
    have "length hex_digits = 16" by (simp add: hex_digits_def)
    moreover have "(of_char b :: nat) div 16 < 16" using nat_of_char_less_256 [of b] by linarith
    ultimately show ?thesis by (simp add: hex_byte_def)
  qed
  then show ?thesis by (auto simp: SHA256_def)
qed

text \<open>
  \<open>acceptor\<close>, then \<open>NewClient\<close> and the first lines of \<open>readloop\<close>; \<open>hostname\<close> is what \<open>AddrLookupHostname\<close>
  (theory Net) returns for the address of the peer.
\<close>

definition count_connection :: "'t go_env \<Rightarrow> bool \<Rightarrow> 't world \<Rightarrow> 't world" where
  "count_connection E tls w =
     (if tls then w\<lparr>w_secure := w_secure w + 1\<rparr> else w\<lparr>w_insecure := w_insecure w + 1\<rparr>)
       \<lparr>srv_connections := counter_inc E (srv_connections w)\<rparr>"

definition NewClient :: "'t go_env \<Rightarrow> bool \<Rightarrow> string \<Rightarrow> 't world \<Rightarrow> client_id \<times> 't world" where
  "NewClient E tls hostname w =
     (let c = w_next_client w;
          now = w_clock w;
          client = \<lparr>c_atime = now, c_authorized = (case srv_password w of None \<Rightarrow> True | Some p \<Rightarrow> p = []),
                    c_awayMessage = [], c_capabilities = [], c_capState = CapNone,
                    c_channels = set_new (chan_sets E), c_ctime = now,
                    c_modes = (if tls then set_add (user_modes E) (set_new (user_modes E)) SecureConn
                               else set_new (user_modes E)),
                    c_hasQuit = False, c_hops = 0, c_hostname = hostname,
                    c_hostmask = NewName E (SHA256 E hostname), c_pingTime = 0, c_idleTimer = None,
                    c_nick = [], c_quitTimer = None, c_realname = [], c_registered = False,
                    c_sasl = NewSaslState, c_username = [], c_tls = tls,
                    c_replies_closed = False, c_socket_closed = False\<rparr>
      in (c, Touch c ((upd_client c (\<lambda>_. client) w)\<lparr>w_next_client := c + 1\<rparr>)))"

definition accept :: "'t go_env \<Rightarrow> bool \<Rightarrow> string \<Rightarrow> 't world \<Rightarrow> 't world" where
  "accept E tls hostname w = snd (NewClient E tls hostname (count_connection E tls w))"

end
