(* ===== verification/Invariant.thy ===== *)
theory Invariant
  imports Dispatch
begin

text \<open>
  What holds in every reachable state of the server: the table of nicks, the flags of the
  clients, and the membership of channels. The basic operations keep it, hence the handlers do,
  hence every step does.
\<close>

section \<open>The invariant\<close>

definition alive :: "'t world \<Rightarrow> client_id \<Rightarrow> bool" where
  "alive w c \<longleftrightarrow> c < w_next_client w \<and> \<not> c_hasQuit (cl w c)"

text \<open>The table holds exactly the live clients that have a nick, each under its nick in lower case.\<close>

definition nick_inv :: "'z text_env_scheme \<Rightarrow> 't world \<Rightarrow> bool" where
  "nick_inv E w \<longleftrightarrow> distinct (map fst (srv_nicks w)) \<and>
     (\<forall>k c. (k, c) \<in> set (srv_nicks w) \<longleftrightarrow>
        alive w c \<and> c_nick (cl w c) \<noteq> [] \<and> k = to_lower E (c_nick (cl w c)))"

text \<open>
  A channel that is found by a name has a valid one and has members, apart from those in \<open>X\<close>; a member is alive, lists the
  channel, and the channel is known by its name.
\<close>

definition chan_inv :: "'t go_env \<Rightarrow> channel_id set \<Rightarrow> 't world \<Rightarrow> bool" where
  "chan_inv E X w \<longleftrightarrow>
     (\<forall>n ch. get_channel E w n = Some ch \<longrightarrow>
        ch < w_next_chan w \<and> IsChannel E (chan_str w ch) \<and> chan_key (chan_map E) n = chan_key (chan_map E) (chan_str w ch) \<and>
        (ch \<in> X \<or> (\<exists>c. is_member E w ch c))) \<and>
     (\<forall>ch c. ch < w_next_chan w \<and> is_member E w ch c \<longrightarrow>
        alive w c \<and> set_has (chan_sets E) (c_channels (cl w c)) ch \<and> get_channel E w (chan_str w ch) = Some ch) \<and>
     (\<forall>c ch. c < w_next_client w \<and> set_has (chan_sets E) (c_channels (cl w c)) ch \<longrightarrow> ch < w_next_chan w)"

text \<open>
  The flags of one client. There are three things a client can be granted: to be a server operator,
  to be authorized, to be logged into an account; only the clients in \<open>A g\<close> may have been granted \<open>g\<close>.
  In the same way only the clients in \<open>A Fresh\<close> may not have connected yet, and only a client in
  \<open>A Unwatched\<close> may be connected without a timer that is running.
\<close>

datatype grant = Oper | Auth | Account | Fresh | Unwatched

type_synonym grants = "grant \<Rightarrow> client_id set"

definition watched :: "timer option \<Rightarrow> timer option \<Rightarrow> bool" where
  "watched idle quit \<longleftrightarrow> (\<exists>t. idle = Some (Armed t)) \<or> (\<exists>t. quit = Some (Armed t))"

lemma watched_armed [simp]: "watched (Some (Armed t)) q" "watched i (Some (Armed t))"
  by (simp_all add: watched_def)

definition client_ok :: "'t go_env \<Rightarrow> grants \<Rightarrow> client_id \<Rightarrow> 't Client \<Rightarrow> bool" where
  "client_ok E A c r \<longleftrightarrow>
     (c_nick r \<noteq> [] \<or> c_username r \<noteq> [] \<longrightarrow> c_authorized r) \<and>
     (c_nick r \<noteq> [] \<longrightarrow> IsNickname E (c_nick r) = Some True) \<and>
     (c_registered r \<longrightarrow> c_nick r \<noteq> [] \<and> c_username r \<noteq> []) \<and>
     c_replies_closed r = c_hasQuit r \<and> c_socket_closed r = c_hasQuit r \<and>
     set (c_capabilities r) \<subseteq> set SupportedCapabilities \<and>
     (set_has (user_modes E) (c_modes r) Operator \<longrightarrow> c \<in> A Oper) \<and>
     (c_authorized r \<longrightarrow> c \<in> A Auth) \<and>
     (set_has (user_modes E) (c_modes r) Registered \<longrightarrow> c \<in> A Account) \<and>
     (\<not> c_hasQuit r \<and> \<not> watched (c_idleTimer r) (c_quitTimer r) \<longrightarrow> c \<in> A Unwatched)"

definition inv :: "'t go_env \<Rightarrow> grants \<Rightarrow> channel_id set \<Rightarrow> 't world \<Rightarrow> bool" where
  "inv E A X w \<longleftrightarrow> nick_inv E w \<and> chan_inv E X w \<and> (\<forall>c < w_next_client w. client_ok E A c (cl w c)) \<and>
     (\<forall>c. c < w_next_client w \<or> c \<in> A Fresh)"

section \<open>What the invariant reads\<close>

definition same_state :: "'t world \<Rightarrow> 't world \<Rightarrow> bool" where
  "same_state w w' \<longleftrightarrow> w_clients w = w_clients w' \<and> w_chans w = w_chans w' \<and>
     w_next_client w = w_next_client w' \<and> w_next_chan w = w_next_chan w' \<and>
     srv_channels w = srv_channels w' \<and> srv_nicks w = srv_nicks w'"

lemma same_stateI:
  "w_clients w = w_clients w' \<Longrightarrow> w_chans w = w_chans w' \<Longrightarrow> w_next_client w = w_next_client w' \<Longrightarrow>
   w_next_chan w = w_next_chan w' \<Longrightarrow> srv_channels w = srv_channels w' \<Longrightarrow> srv_nicks w = srv_nicks w' \<Longrightarrow>
   same_state w w'"
  by (simp add: same_state_def)

lemma same_state_core: "core w = core w' \<Longrightarrow> same_state w w'"
  by (intro same_stateI) (auto dest: core_fields)

lemma alive_same: "same_state w w' \<Longrightarrow> alive w c = alive w' c"
  by (simp add: alive_def same_state_def)

lemma inv_same: "same_state w w' \<Longrightarrow> inv E A X w = inv E A X w'"
  unfolding inv_def nick_inv_def chan_inv_def get_channel_def alive_def same_state_def by simp

lemma inv_core: "core w = core w' \<Longrightarrow> inv E A X w = inv E A X w'"
  by (rule inv_same) (rule same_state_core)

lemma alive_core: "core w = core w' \<Longrightarrow> alive w c = alive w' c"
  by (rule alive_same) (rule same_state_core)

text \<open>The invariant, and that the acting client is still there.\<close>

definition act_inv :: "'t go_env \<Rightarrow> grants \<Rightarrow> client_id \<Rightarrow> 't world \<Rightarrow> bool" where
  "act_inv E A c w \<longleftrightarrow> inv E A {} w \<and> alive w c"

lemma act_inv_core: "core w = core w' \<Longrightarrow> act_inv E A c w = act_inv E A c w'"
  by (simp add: act_inv_def inv_core [of w w'] alive_core [of w w'])

lemma act_inv_keep: "core w' = core w \<Longrightarrow> act_inv E A c w \<Longrightarrow> act_inv E A c w'"
  using act_inv_core by blast

lemma chan_inv_named:
  "chan_inv E X w \<Longrightarrow> get_channel E w n = Some ch \<Longrightarrow>
   ch < w_next_chan w \<and> IsChannel E (chan_str w ch) \<and> chan_key (chan_map E) n = chan_key (chan_map E) (chan_str w ch) \<and>
   (ch \<in> X \<or> (\<exists>c. is_member E w ch c))"
  unfolding chan_inv_def by blast

lemma chan_inv_member:
  "chan_inv E X w \<Longrightarrow> ch < w_next_chan w \<Longrightarrow> is_member E w ch c \<Longrightarrow>
   alive w c \<and> set_has (chan_sets E) (c_channels (cl w c)) ch \<and> get_channel E w (chan_str w ch) = Some ch"
  unfolding chan_inv_def by blast

lemma chan_inv_listed:
  "chan_inv E X w \<Longrightarrow> c < w_next_client w \<Longrightarrow> set_has (chan_sets E) (c_channels (cl w c)) ch \<Longrightarrow>
   ch < w_next_chan w"
  unfolding chan_inv_def by blast

lemma chan_invI:
  assumes "\<And>n ch. get_channel E w n = Some ch \<Longrightarrow>
      ch < w_next_chan w \<and> IsChannel E (chan_str w ch) \<and> chan_key (chan_map E) n = chan_key (chan_map E) (chan_str w ch) \<and>
      (ch \<in> X \<or> (\<exists>c. is_member E w ch c))"
    and "\<And>ch c. ch < w_next_chan w \<Longrightarrow> is_member E w ch c \<Longrightarrow>
      alive w c \<and> set_has (chan_sets E) (c_channels (cl w c)) ch \<and> get_channel E w (chan_str w ch) = Some ch"
    and "\<And>c ch. c < w_next_client w \<Longrightarrow> set_has (chan_sets E) (c_channels (cl w c)) ch \<Longrightarrow> ch < w_next_chan w"
  shows "chan_inv E X w"
  unfolding chan_inv_def using assms by blast

section \<open>Changes of one client and of one channel\<close>

lemma nick_inv_cong:
  assumes "srv_nicks w' = srv_nicks w" "\<And>d. alive w' d = alive w d"
    and "\<And>d. c_nick (cl w' d) = c_nick (cl w d)"
  shows "nick_inv E w' = nick_inv E w"
  unfolding nick_inv_def assms ..

lemma chan_inv_cong:
  assumes "srv_channels w' = srv_channels w" "w_next_chan w' = w_next_chan w"
    and "w_next_client w' = w_next_client w" "\<And>d. alive w' d = alive w d"
    and "\<And>d. c_channels (cl w' d) = c_channels (cl w d)"
    and "\<And>d c. is_member E w' d c = is_member E w d c" "\<And>d. chan_str w' d = chan_str w d"
  shows "chan_inv E X w' = chan_inv E X w"
  unfolding chan_inv_def get_channel_def assms ..

lemma inv_upd_client:
  assumes "inv E A X w"
    and "c_nick (f (cl w c)) = c_nick (cl w c)" "c_hasQuit (f (cl w c)) = c_hasQuit (cl w c)"
      "c_channels (f (cl w c)) = c_channels (cl w c)"
    and "client_ok E A c (cl w c) \<Longrightarrow> client_ok E A c (f (cl w c))"
  shows "inv E A X (upd_client c f w)"
proof -
  let ?w = "upd_client c f w"
  have "nick_inv E ?w = nick_inv E w"
    by (rule nick_inv_cong) (use assms(2,3) in \<open>auto simp: alive_def\<close>)
  moreover have "chan_inv E X ?w = chan_inv E X w"
    by (rule chan_inv_cong) (use assms(3,4) in \<open>auto simp: alive_def\<close>)
  ultimately show ?thesis using assms(1,5) by (simp add: inv_def)
qed

lemma alive_upd_client:
  "c_hasQuit (f (cl w c)) = c_hasQuit (cl w c) \<Longrightarrow> alive (upd_client c f w) d = alive w d"
  by (simp add: alive_def)

lemma alive_upd_chan [simp]: "alive (upd_chan ch f w) c = alive w c"
  by (simp add: alive_def)

lemma inv_upd_chan:
  assumes "inv E A X w" "ch_name (f (chn w ch)) = ch_name (chn w ch)"
    and "\<And>c. mem_has (members_ops E) (ch_members (f (chn w ch))) c = is_member E w ch c"
  shows "inv E A X (upd_chan ch f w)"
proof -
  let ?w = "upd_chan ch f w"
  have "nick_inv E ?w = nick_inv E w" by (rule nick_inv_cong) auto
  moreover have "chan_inv E X ?w = chan_inv E X w" by (rule chan_inv_cong) (use assms(2,3) in auto)
  ultimately show ?thesis using assms(1) by (simp add: inv_def)
qed

section \<open>The table of nicks\<close>

lemma nick_get_iff:
  "distinct (map fst (srv_nicks w)) \<Longrightarrow> nick_get E w n = Some c \<longleftrightarrow> (to_lower E n, c) \<in> set (srv_nicks w)"
  by (simp add: nick_get_def)

lemma nick_inv_get:
  "nick_inv E w \<Longrightarrow> nick_get E w n = Some c \<longleftrightarrow>
    alive w c \<and> c_nick (cl w c) \<noteq> [] \<and> to_lower E n = to_lower E (c_nick (cl w c))"
  by (simp add: nick_inv_def nick_get_iff)

lemma update_new: "k \<notin> fst ` set xs \<Longrightarrow> AList.update k v xs = xs @ [(k, v)]"
  by (induction xs) auto

lemma delete_filter: "AList.delete k xs = filter (\<lambda>(k', _). k' \<noteq> k) xs"
  by (auto simp: AList.delete_eq intro!: filter_cong)

text \<open>In a table that is in order, removing a client removes its entry, if it has one.\<close>

lemma nick_remove_entry:
  assumes "distinct (map fst (srv_nicks w))"
    and "\<forall>(k, d) \<in> set (srv_nicks w). c_nick (cl w d) \<noteq> [] \<and> k = to_lower E (c_nick (cl w d))"
  shows "snd (nick_remove E c w) = w\<lparr>srv_nicks := filter (\<lambda>(_, d). d \<noteq> c) (srv_nicks w)\<rparr>"
proof (cases "nick_get E w (c_nick (cl w c)) = Some c \<and> HasNick w c")
  case True
  let ?k = "to_lower E (c_nick (cl w c))"
  have k: "(?k, c) \<in> set (srv_nicks w)" using True assms(1) by (simp add: nick_get_iff)
  have "filter (\<lambda>(k', _). k' \<noteq> ?k) (srv_nicks w) = filter (\<lambda>(_, d). d \<noteq> c) (srv_nicks w)"
  proof (rule filter_cong [OF refl])
    fix e assume e: "e \<in> set (srv_nicks w)"
    obtain k' d where kd: "e = (k', d)" by force
    with e assms(2) have "k' = to_lower E (c_nick (cl w d))" by auto
    moreover have "k' = ?k \<Longrightarrow> d = c"
      using e kd k eq_key_imp_eq_value [OF assms(1)] by blast
    ultimately show "(case e of (k', _) \<Rightarrow> k' \<noteq> ?k) = (case e of (_, d) \<Rightarrow> d \<noteq> c)"
      using kd by auto
  qed
  then show ?thesis using True by (simp add: nick_remove_def delete_filter)
next
  case False
  have "(k, c) \<notin> set (srv_nicks w)" for k
  proof
    assume "(k, c) \<in> set (srv_nicks w)"
    with assms have "(to_lower E (c_nick (cl w c)), c) \<in> set (srv_nicks w)" "c_nick (cl w c) \<noteq> []"
      by fastforce+
    with assms(1) False show False by (simp add: nick_get_iff HasNick_def)
  qed
  then have same: "filter (\<lambda>(_, d). d \<noteq> c) (srv_nicks w) = srv_nicks w"
    by (intro filter_True) auto
  from False have "snd (nick_remove E c w) = w" by (auto simp: nick_remove_def)
  with same show ?thesis by simp
qed

lemma nick_add_entry:
  assumes "c_nick (cl w c) \<noteq> []" "nick_get E w (c_nick (cl w c)) = None"
  shows "snd (nick_add E c w) = w\<lparr>srv_nicks := srv_nicks w @ [(to_lower E (c_nick (cl w c)), c)]\<rparr>"
  using assms by (simp add: nick_add_def HasNick_def Nick_def nick_get_def map_of_eq_None_iff update_new)

lemma nick_add_none: "c_nick (cl w c) = [] \<Longrightarrow> snd (nick_add E c w) = w"
  by (simp add: nick_add_def HasNick_def)

text \<open>The client is taken out of the table, changes, and is put in again.\<close>

definition without_nick :: "client_id \<Rightarrow> 't world \<Rightarrow> 't world" where
  "without_nick c w = w\<lparr>srv_nicks := filter (\<lambda>(_, d). d \<noteq> c) (srv_nicks w)\<rparr>"

lemma nick_remove_inv: "nick_inv E w \<Longrightarrow> snd (nick_remove E c w) = without_nick c w"
  unfolding without_nick_def by (rule nick_remove_entry) (auto simp: nick_inv_def)

lemma without_nick_fields [simp]:
  "w_clients (without_nick c w) = w_clients w" "w_chans (without_nick c w) = w_chans w"
  "w_next_client (without_nick c w) = w_next_client w" "w_next_chan (without_nick c w) = w_next_chan w"
  "srv_channels (without_nick c w) = srv_channels w" "srv_whoWas (without_nick c w) = srv_whoWas w"
  "set (srv_nicks (without_nick c w)) = {(k, d) \<in> set (srv_nicks w). d \<noteq> c}"
  by (auto simp: without_nick_def)

lemma without_nick_distinct:
  "distinct (map fst (srv_nicks w)) \<Longrightarrow> distinct (map fst (srv_nicks (without_nick c w)))"
  by (simp add: without_nick_def distinct_map_filter)

text \<open>The clients and the table are in order but for \<open>c\<close>, which has no entry.\<close>

definition nick_inv_but :: "'z text_env_scheme \<Rightarrow> client_id \<Rightarrow> 't world \<Rightarrow> bool" where
  "nick_inv_but E c w \<longleftrightarrow> distinct (map fst (srv_nicks w)) \<and>
     (\<forall>k d. (k, d) \<in> set (srv_nicks w) \<longleftrightarrow>
        d \<noteq> c \<and> alive w d \<and> c_nick (cl w d) \<noteq> [] \<and> k = to_lower E (c_nick (cl w d)))"

lemma nick_inv_but_remove: "nick_inv E w \<Longrightarrow> nick_inv_but E c (snd (nick_remove E c w))"
  unfolding nick_remove_inv
  by (auto simp: nick_inv_but_def nick_inv_def without_nick_distinct alive_def)

lemma nick_inv_but_upd: "nick_inv_but E c w \<Longrightarrow> nick_inv_but E c (upd_client c f w)"
  by (simp add: nick_inv_but_def alive_def)

lemma nick_inv_but_add:
  assumes "nick_inv_but E c w" "alive w c"
    and "c_nick (cl w c) \<noteq> [] \<Longrightarrow> nick_get E w (c_nick (cl w c)) = None"
  shows "nick_inv E (snd (nick_add E c w))"
proof (cases "c_nick (cl w c) = []")
  case True
  with assms(1) show ?thesis by (auto simp: nick_add_none nick_inv_def nick_inv_but_def)
next
  case False
  have d: "distinct (map fst (srv_nicks w))" using assms(1) by (simp add: nick_inv_but_def)
  have "to_lower E (c_nick (cl w c)) \<notin> fst ` set (srv_nicks w)"
    using assms(3) [OF False] by (simp add: nick_get_def map_of_eq_None_iff)
  with d False assms show ?thesis
    by (auto simp: nick_add_entry nick_inv_def nick_inv_but_def alive_def)
qed

section \<open>Joining and leaving\<close>

lemma get_channel_upd [simp]:
  "get_channel E (upd_client c f w) n = get_channel E w n" "get_channel E (upd_chan ch g w) n = get_channel E w n"
  by (simp_all add: get_channel_def)

lemma nick_inv_chans:
  "w_clients w' = w_clients w \<Longrightarrow> w_next_client w' = w_next_client w \<Longrightarrow> srv_nicks w' = srv_nicks w \<Longrightarrow>
   nick_inv E w' = nick_inv E w"
  by (rule nick_inv_cong) (simp_all add: alive_def)

context go_env_laws begin

lemma get_channel_known:
  assumes "chan_inv E X w" "get_channel E w n = Some ch"
  shows "ch < w_next_chan w \<and> get_channel E w (chan_str w ch) = Some ch"
proof -
  have "chan_key (chan_map E) n = chan_key (chan_map E) (chan_str w ch)" "ch < w_next_chan w"
    using assms by (auto simp: chan_inv_def)
  with assms(2) show ?thesis using cn.cm_get_key by (metis get_channel_def)
qed

lemma inv_joined:
  assumes "inv E A X w" "alive w c" "ch < w_next_chan w" "get_channel E w (chan_str w ch) = Some ch"
    and "\<not> is_member E w ch c"
  shows "inv E A (X - {ch}) (joined E ch c w)"
proof -
  let ?w = "joined E ch c w"
  have alive: "alive ?w d = alive w d" for d by (simp add: alive_def joined_next_client)
  have get: "get_channel E ?w n = get_channel E w n" for n by (simp add: get_channel_def)
  have name: "chan_str ?w d = chan_str w d" for d
    by (rule joined_name)
  have chans: "set_has (chan_sets E) (c_channels (cl ?w d)) e \<longleftrightarrow>
      set_has (chan_sets E) (c_channels (cl w d)) e \<or> d = c \<and> e = ch" for d e
    by (auto simp: cs.set_has_add)
  have inv: "nick_inv E w" "chan_inv E X w" "\<And>d. d < w_next_client w \<Longrightarrow> client_ok E A d (cl w d)"
    using assms(1) by (auto simp: inv_def)
  note member = joined_member [OF assms(5)]
  have "nick_inv E ?w = nick_inv E w" by (rule nick_inv_cong) (simp_all add: alive)
  moreover have "chan_inv E (X - {ch}) ?w"
  proof (rule chan_invI)
    show "d < w_next_chan ?w \<and> IsChannel E (chan_str ?w d) \<and> chan_key (chan_map E) n = chan_key (chan_map E) (chan_str ?w d) \<and>
        (d \<in> X - {ch} \<or> (\<exists>e. is_member E ?w d e))" if "get_channel E ?w n = Some d" for n d
    proof -
      have "get_channel E w n = Some d" using that by (simp only: get)
      from chan_inv_named [OF inv(2) this] show ?thesis
        unfolding name member joined_others(4) by blast
    qed
    show "alive ?w e \<and> set_has (chan_sets E) (c_channels (cl ?w e)) d \<and> get_channel E ?w (chan_str ?w d) = Some d"
      if "d < w_next_chan ?w" "is_member E ?w d e" for d e
    proof (cases "d = ch \<and> e = c")
      case True
      then show ?thesis using assms(2,4) unfolding alive chans get name by blast
    next
      case False
      then have "is_member E w d e" "d < w_next_chan w" using that unfolding member joined_others(4) by blast+
      with chan_inv_member [OF inv(2)] show ?thesis unfolding alive chans get name by blast
    qed
    show "d < w_next_chan ?w"
      if "e < w_next_client ?w" "set_has (chan_sets E) (c_channels (cl ?w e)) d" for e d
      using chan_inv_listed [OF inv(2), of e d] that assms(3)
      unfolding chans joined_others(4) joined_next_client by blast
  qed
  moreover have "client_ok E A d (cl ?w d)" if "d < w_next_client ?w" for d
    using inv(3) [of d] that by (auto simp: joined_next_client client_ok_def)
  ultimately show ?thesis using assms(1) by (simp add: inv_def joined_next_client)
qed

lemma act_inv_Join:
  assumes "act_inv E A c w" "get_channel E w n = Some ch"
  shows "act_inv E A c (channel_Join E ch c key w)"
proof -
  from assms have inv: "inv E A {} w" "alive w c" by (auto simp: act_inv_def)
  with assms(2) have ch: "ch < w_next_chan w" "get_channel E w (chan_str w ch) = Some ch"
    using get_channel_known by (auto simp: inv_def)
  have "act_inv E A c (joined E ch c w)" if "\<not> is_member E w ch c"
    using inv_joined [OF inv ch that] inv by (simp add: act_inv_def alive_def joined_next_client)
  with assms(1) show ?thesis by (subst act_inv_core [OF core_Join]) simp
qed

lemma NewChannel_admits:
  assumes "NewChannel E name True w = (ch, w')"
  shows "admits E w' ch c key" "\<not> is_member E w' ch d"
proof -
  have w': "ch = w_next_chan w" "chn w' ch = \<lparr>ch_flags = fold (\<lambda>m s. set_add (chan_modes E) s m) DefaultChannelModes (set_new (chan_modes E)),
      ch_lists = [BanMask \<mapsto> NewUserMaskSet, ExceptMask \<mapsto> NewUserMaskSet, InviteMask \<mapsto> NewUserMaskSet],
      ch_key = [], ch_members = mem_new (members_ops E), ch_name = name, ch_topic = [], ch_userLimit = 0\<rparr>"
    using assms by (auto simp: NewChannel_def Let_def upd_chan_def)
  have "\<not> set_has (chan_modes E) (ch_flags (chn w' ch)) InviteOnly"
    by (simp add: w'(2) DefaultChannelModes_def mem.cm.set_has_add mem.cm.set_has_new chan_mode_defs)
  moreover have "\<not> mask_match (mask_list (chn w' ch) BanMask) s" for s
    by (simp add: w'(2) mask_list_def mask_match_def NewUserMaskSet_def chan_mode_defs)
  moreover have "ch_userLimit (chn w' ch) = 0" "ch_key (chn w' ch) = []"
    by (simp_all add: w'(2))
  ultimately show "admits E w' ch c key"
    by (simp add: admits_def Let_def IsFull_def CheckKey_def)
  show "\<not> is_member E w' ch d" by (simp add: w'(2) mem.mem_has_new)
qed

lemma inv_NewChannel:
  assumes "inv E A {} w" "get_channel E w name = None" "NewChannel E name True w = (ch, w')" "IsChannel E name"
  shows "inv E A {ch} w'" "ch < w_next_chan w'" "get_channel E w' (chan_str w' ch) = Some ch"
    "w_clients w' = w_clients w" "w_next_client w' = w_next_client w"
proof -
  have ch: "ch = w_next_chan w" "w_next_chan w' = ch + 1" "chan_str w' ch = name"
    "w_clients w' = w_clients w" "srv_nicks w' = srv_nicks w" "w_next_client w' = w_next_client w"
    "srv_channels w' = cm_add (chan_map E) (srv_channels w) name ch"
    and old: "\<And>d. d \<noteq> ch \<Longrightarrow> chn w' d = chn w d"
    using assms(3) by (auto simp: NewChannel_def Let_def upd_chan_def)
  have get: "get_channel E w' n = (if chan_key (chan_map E) n = chan_key (chan_map E) name then Some ch
      else get_channel E w n)" for n
    using assms(2) by (simp add: get_channel_def ch(7) cn.cm_get_add)
  have none: "\<not> is_member E w' ch d" for d by (rule NewChannel_admits(2) [OF assms(3)])
  have alive: "alive w' d = alive w d" for d by (simp add: alive_def ch)
  have inv: "chan_inv E {} w" using assms(1) by (simp add: inv_def)
  have key: "get_channel E w n = None" if "chan_key (chan_map E) n = chan_key (chan_map E) name" for n
    using assms(2) cn.cm_get_key [OF that] by (simp add: get_channel_def)
  have named: "d < ch \<and> IsChannel E (chan_str w' d) \<and> chan_key (chan_map E) n = chan_key (chan_map E) (chan_str w' d) \<and> (\<exists>c. is_member E w' d c)"
    if "get_channel E w n = Some d" for n d
    using chan_inv_named [OF inv that] ch(1) old [of d] by simp
  have member: "d < ch \<Longrightarrow> is_member E w' d c \<Longrightarrow>
      alive w c \<and> set_has (chan_sets E) (c_channels (cl w c)) d \<and> get_channel E w (chan_str w' d) = Some d" for d c
    using chan_inv_member [OF inv, of d c] ch(1) old [of d] by simp
  have new: "get_channel E w' (chan_str w' d) = Some d" if "get_channel E w (chan_str w' d) = Some d" for d
    using that key by (auto simp: get)
  have "chan_inv E {ch} w'"
  proof (rule chan_invI)
    show "d < w_next_chan w' \<and> IsChannel E (chan_str w' d) \<and> chan_key (chan_map E) n = chan_key (chan_map E) (chan_str w' d) \<and>
        (d \<in> {ch} \<or> (\<exists>c. is_member E w' d c))" if g: "get_channel E w' n = Some d" for n d
    proof (cases "chan_key (chan_map E) n = chan_key (chan_map E) name")
      case True
      with g have "d = ch" unfolding get by (auto split: if_splits)
      with True show ?thesis by (simp add: ch(2,3) assms(4))
    next
      case False
      with g have "get_channel E w n = Some d" unfolding get by (auto split: if_splits)
      from named [OF this] show ?thesis unfolding ch(2) by auto
    qed
    show "alive w' c \<and> set_has (chan_sets E) (c_channels (cl w' c)) d \<and> get_channel E w' (chan_str w' d) = Some d"
      if d: "d < w_next_chan w'" "is_member E w' d c" for d c
    proof -
      have "d \<noteq> ch" using d(2) none by blast
      then have "d < ch" using d(1) unfolding ch(2) by simp
      from member [OF this d(2)] new show ?thesis unfolding alive ch(4) by blast
    qed
    show "d < w_next_chan w'"
      if "c < w_next_client w'" "set_has (chan_sets E) (c_channels (cl w' c)) d" for c d
      using chan_inv_listed [OF inv, of c d] that unfolding ch(2,4,6) ch(1) by simp
  qed
  moreover have "nick_inv E w'"
    using assms(1) nick_inv_chans [of w' w E] by (simp add: inv_def ch)
  ultimately show "inv E A {ch} w'" using assms(1) by (simp add: inv_def ch)
  show "get_channel E w' (chan_str w' ch) = Some ch" unfolding get ch(3) by simp
  show "ch < w_next_chan w'" "w_clients w' = w_clients w" "w_next_client w' = w_next_client w"
    unfolding ch(2,4,6) by simp_all
qed

lemma act_inv_join_one:
  assumes "act_inv E A c w"
  shows "act_inv E A c (join_one E c entry w)"
proof (cases entry)
  case (Pair name key)
  show ?thesis
  proof (cases "IsChannel E name")
    case True
    show ?thesis
    proof (cases "get_channel E w name")
      case None
      obtain ch w' where new: "NewChannel E name True w = (ch, w')" by force
      from assms have "inv E A {} w" "alive w c" by (auto simp: act_inv_def)
      note i = inv_NewChannel [OF this(1) None new True] and a = this(2)
      have alive: "alive w' c" using a i(4,5) by (simp add: alive_def)
      have "inv E A ({ch} - {ch}) (joined E ch c w')"
        by (rule inv_joined [OF i(1) alive i(2,3)]) (rule NewChannel_admits(2) [OF new])
      moreover have "alive (joined E ch c w') c" using alive by (simp add: alive_def joined_next_client)
      ultimately have "act_inv E A c (joined E ch c w')" by (simp add: act_inv_def)
      then have "act_inv E A c (channel_Join E ch c key w')"
        using NewChannel_admits [OF new] by (subst act_inv_core [OF core_Join]) simp
      with True None new Pair show ?thesis by (simp add: join_one_def)
    next
      case (Some ch)
      with True Pair act_inv_Join [OF assms Some] show ?thesis by (simp add: join_one_def)
    qed
  next
    case False
    with Pair show ?thesis by (intro act_inv_keep [OF _ assms]) (simp add: join_one_def core_simps)
  qed
qed

end

lemma Quit_next [simp]: "w_next_client (channel_Quit E ch c w) = w_next_client w"
  by (auto simp: channel_Quit_def set_members_def Let_def)

lemma alive_Quit [simp]: "alive (channel_Quit E ch c w) d = alive w d"
  by (simp add: alive_def)

context go_env_laws begin

lemma inv_Quit:
  assumes "inv E A {} w"
  shows "inv E A {} (channel_Quit E ch c w)"
proof -
  let ?w = "channel_Quit E ch c w"
  have inv: "nick_inv E w" "chan_inv E {} w" using assms by (auto simp: inv_def)
  have get: "get_channel E ?w n =
      (if (\<forall>e. \<not> is_member E ?w ch e) \<and> get_channel E w (chan_str w ch) = Some ch \<and>
          chan_key (chan_map E) n = chan_key (chan_map E) (chan_str w ch) then None else get_channel E w n)" for n
    unfolding get_channel_def Quit_channels ..
  have "nick_inv E ?w = nick_inv E w" by (rule nick_inv_cong) simp_all
  moreover have "chan_inv E {} ?w"
  proof (rule chan_invI)
    show "d < w_next_chan ?w \<and> IsChannel E (chan_str ?w d) \<and> chan_key (chan_map E) n = chan_key (chan_map E) (chan_str ?w d) \<and>
        (d \<in> {} \<or> (\<exists>e. is_member E ?w d e))" if g: "get_channel E ?w n = Some d" for n d
    proof -
      have g': "get_channel E w n = Some d" using g unfolding get by (auto split: if_splits)
      note named = chan_inv_named [OF inv(2) g']
      have "\<exists>e. is_member E ?w d e"
      proof (cases "d = ch")
        case True
        with g' get_channel_known [OF inv(2) g'] named g show ?thesis
          unfolding get by (auto split: if_splits)
      next
        case False
        with named show ?thesis unfolding Quit_member by blast
      qed
      with named show ?thesis by simp
    qed
    show "alive ?w e \<and> set_has (chan_sets E) (c_channels (cl ?w e)) d \<and> get_channel E ?w (chan_str ?w d) = Some d"
      if d: "d < w_next_chan ?w" "is_member E ?w d e" for d e
    proof -
      have m: "is_member E w d e" "d < w_next_chan w" using d unfolding Quit_member by simp_all
      note old = chan_inv_member [OF inv(2) m(2,1)]
      have "get_channel E ?w (chan_str w d) = Some d"
      proof (cases "d = ch")
        case True
        then show ?thesis using old d(2) unfolding get by auto
      next
        case False
        have "\<not> (get_channel E w (chan_str w ch) = Some ch \<and>
            chan_key (chan_map E) (chan_str w d) = chan_key (chan_map E) (chan_str w ch))"
          using old False cn.cm_get_key [of "chan_str w d" "chan_str w ch" "srv_channels w"]
          unfolding get_channel_def by auto
        then show ?thesis using old unfolding get by auto
      qed
      with old show ?thesis by simp
    qed
    show "d < w_next_chan ?w"
      if "e < w_next_client ?w" "set_has (chan_sets E) (c_channels (cl ?w e)) d" for e d
      using chan_inv_listed [OF inv(2), of e d] that by simp
  qed
  ultimately show ?thesis using assms by (simp add: inv_def)
qed

lemma act_inv_Quit: "act_inv E A c w \<Longrightarrow> act_inv E A c (channel_Quit E ch d w)"
  by (simp add: act_inv_def inv_Quit)

lemma act_inv_Part: "act_inv E A c w \<Longrightarrow> act_inv E A c (channel_Part E ch d msg w)"
proof (cases "is_member E w ch d")
  case True
  assume "act_inv E A c w"
  then show ?thesis using act_inv_keep [OF core_Part [OF True] act_inv_Quit] by blast
next
  case False
  assume i: "act_inv E A c w"
  from False show ?thesis by (intro act_inv_keep [OF _ i]) (simp add: channel_Part_def core_simps)
qed

lemma act_inv_Kick: "act_inv E A c w \<Longrightarrow> act_inv E A c (channel_Kick E ch client target comment w)"
proof -
  assume i: "act_inv E A c w"
  have "core (channel_Kick E ch client target comment w) = core w \<or>
      core (channel_Kick E ch client target comment w) = core (channel_Quit E ch target w)"
    by (simp add: channel_Kick_def core_simps core_Quit [OF core_to_members])
  then show ?thesis using act_inv_keep [OF _ i] act_inv_keep [OF _ act_inv_Quit [OF i]] by blast
qed

section \<open>Quitting\<close>

lemma fold_Quit_member:
  "is_member E (fold (\<lambda>ch. channel_Quit E ch c) chs w) d e \<longleftrightarrow> is_member E w d e \<and> \<not> (d \<in> set chs \<and> e = c)"
  by (induction chs arbitrary: w) (auto simp: Quit_member)

lemma inv_fold_Quit: "inv E A {} w \<Longrightarrow> inv E A {} (fold (\<lambda>ch. channel_Quit E ch c) chs w)"
  by (induction chs arbitrary: w) (auto intro: inv_Quit)

end

lemma fold_Quit_fields [simp]:
  "w_clients (fold (\<lambda>ch. channel_Quit E ch c) chs w) = w_clients w"
  "srv_nicks (fold (\<lambda>ch. channel_Quit E ch c) chs w) = srv_nicks w"
  "w_next_client (fold (\<lambda>ch. channel_Quit E ch c) chs w) = w_next_client w"
  "w_next_chan (fold (\<lambda>ch. channel_Quit E ch c) chs w) = w_next_chan w"
  "ch_name (chn (fold (\<lambda>ch. channel_Quit E ch c) chs w) d) = ch_name (chn w d)"
  by (induction chs arbitrary: w) auto

lemma Quit_chans_cong:
  "w_chans w = w_chans w' \<Longrightarrow> srv_channels w = srv_channels w' \<Longrightarrow>
   w_chans (channel_Quit E ch c w) = w_chans (channel_Quit E ch c w') \<and>
   srv_channels (channel_Quit E ch c w) = srv_channels (channel_Quit E ch c w')"
  by (simp add: channel_Quit_def Let_def set_members_def upd_chan_def IsEmpty_def)

lemma fold_Quit_cong:
  "w_chans w = w_chans w' \<Longrightarrow> srv_channels w = srv_channels w' \<Longrightarrow>
   w_chans (fold (\<lambda>ch. channel_Quit E ch c) chs w) = w_chans (fold (\<lambda>ch. channel_Quit E ch c) chs w') \<and>
   srv_channels (fold (\<lambda>ch. channel_Quit E ch c) chs w) = srv_channels (fold (\<lambda>ch. channel_Quit E ch c) chs w')"
proof (induction chs arbitrary: w w')
  case (Cons ch chs)
  have "w_chans (channel_Quit E ch c w) = w_chans (channel_Quit E ch c w')"
    "srv_channels (channel_Quit E ch c w) = srv_channels (channel_Quit E ch c w')"
    using Quit_chans_cong [OF Cons.prems] by blast+
  from Cons.IH [OF this] show ?case unfolding fold_Cons comp_apply .
qed simp

text \<open>What is left of the world when a client has quit.\<close>

definition departed :: "'t go_env \<Rightarrow> client_id \<Rightarrow> 't world \<Rightarrow> 't world" where
  "departed E c w = without_nick c (upd_client c
     (\<lambda>r. r\<lparr>c_hasQuit := True, c_replies_closed := True, c_socket_closed := True,
            c_idleTimer := map_option (\<lambda>_. Stopped) (c_idleTimer r),
            c_quitTimer := map_option (\<lambda>_. Stopped) (c_quitTimer r)\<rparr>)
     (fold (\<lambda>ch. channel_Quit E ch c) (set_range (chan_sets E) (c_channels (cl w c))) w))"

lemma append_whowas_Ret: "append_whowas c w = Ret w' \<Longrightarrow> \<exists>l. w' = w\<lparr>srv_whoWas := l\<rparr>"
  by (cases "whowas_append (srv_whoWas w) \<lparr>ww_nickname = Nick w c, ww_username = c_username (cl w c),
        ww_hostname = c_hostname (cl w c), ww_hostmask = c_hostmask (cl w c), ww_realname = c_realname (cl w c)\<rparr>")
    (auto simp: append_whowas_def)

text \<open>The table is in order for the client that quits, whatever flags it has.\<close>

lemma nick_remove_quitting:
  assumes "nick_inv E w" "srv_nicks w' = srv_nicks w" "\<And>d. c_nick (cl w' d) = c_nick (cl w d)"
  shows "snd (nick_remove E c w') = without_nick c w'"
  unfolding without_nick_def
  by (rule nick_remove_entry) (use assms in \<open>auto simp: nick_inv_def\<close>)

lemma destroy_same:
  assumes "nick_inv E w" "srv_nicks w' = srv_nicks w" "w_chans w' = w_chans w" "srv_channels w' = srv_channels w"
    "w_next_client w' = w_next_client w" "w_next_chan w' = w_next_chan w"
    "w_clients w' = (w_clients w)(c := (cl w c)\<lparr>c_hasQuit := True\<rparr>)"
    and "destroy E c w' = Ret v"
  shows "same_state v (departed E c w)"
proof -
  let ?chs = "set_range (chan_sets E) (c_channels (cl w c))"
  let ?u = "fold (\<lambda>ch. channel_Quit E ch c) ?chs w'" and ?v = "fold (\<lambda>ch. channel_Quit E ch c) ?chs w"
  have uv: "w_chans ?u = w_chans ?v" "srv_channels ?u = srv_channels ?v"
    using fold_Quit_cong [OF assms(3,4)] by blast+
  define u2 where "u2 = (if c_tls (cl ?u c) then ?u\<lparr>w_secure := w_secure ?u - 1\<rparr>
      else ?u\<lparr>w_insecure := w_insecure ?u - 1\<rparr>)"
  define u3 where "u3 = u2\<lparr>srv_connections := counter_dec E (srv_connections u2)\<rparr>"
  have u3: "w_clients u3 = w_clients w'" "w_chans u3 = w_chans ?v" "srv_channels u3 = srv_channels ?v"
    "srv_nicks u3 = srv_nicks w" "w_next_client u3 = w_next_client w" "w_next_chan u3 = w_next_chan w"
    using assms(2-6) by (simp_all add: u3_def u2_def uv)
  have nick: "c_nick (cl u3 d) = c_nick (cl w d)" for d by (simp add: u3(1) assms(7))
  have chs: "c_channels (cl w' c) = c_channels (cl w c)" by (simp add: assms(7))
  have "destroy E c w' =
      (let w5 = upd_client c (\<lambda>r. r\<lparr>c_idleTimer := map_option (\<lambda>_. Stopped) (c_idleTimer r),
                                  c_quitTimer := map_option (\<lambda>_. Stopped) (c_quitTimer r)\<rparr>)
                    (snd (nick_remove E c u3))
       in if c_replies_closed (cl w5 c) then Panic
          else Ret (upd_client c (\<lambda>r. r\<lparr>c_replies_closed := True, c_socket_closed := True\<rparr>) w5))"
    unfolding destroy_def Let_def chs u3_def u2_def ..
  with assms(8) have v: "v = upd_client c (\<lambda>r. r\<lparr>c_replies_closed := True, c_socket_closed := True\<rparr>)
      (upd_client c (\<lambda>r. r\<lparr>c_idleTimer := map_option (\<lambda>_. Stopped) (c_idleTimer r),
                          c_quitTimer := map_option (\<lambda>_. Stopped) (c_quitTimer r)\<rparr>) (without_nick c u3))"
    unfolding nick_remove_quitting [OF assms(1) u3(4) nick] by (simp add: Let_def split: if_splits)
  show ?thesis
    unfolding v departed_def same_state_def using u3 assms(7)
    by (simp add: fun_eq_iff upd_client_def without_nick_def)
qed

lemma departed_fields [simp]:
  "w_next_client (departed E c w) = w_next_client w" "w_next_chan (departed E c w) = w_next_chan w"
  "chan_str (departed E c w) d = chan_str w d"
  "cl (departed E c w) d = (if d = c then (cl w c)\<lparr>c_hasQuit := True, c_replies_closed := True,
     c_socket_closed := True, c_idleTimer := map_option (\<lambda>_. Stopped) (c_idleTimer (cl w c)),
     c_quitTimer := map_option (\<lambda>_. Stopped) (c_quitTimer (cl w c))\<rparr> else cl w d)"
  by (simp_all add: departed_def upd_client_def)

lemma departed_alive: "alive (departed E c w) d \<longleftrightarrow> alive w d \<and> d \<noteq> c"
  by (auto simp: alive_def)

context go_env_laws begin

lemma departed_member:
  assumes "inv E A {} w" "c < w_next_client w" "d < w_next_chan w"
  shows "is_member E (departed E c w) d e \<longleftrightarrow> is_member E w d e \<and> e \<noteq> c"
proof -
  have "is_member E (departed E c w) d e \<longleftrightarrow>
      is_member E w d e \<and> \<not> (d \<in> set (set_range (chan_sets E) (c_channels (cl w c))) \<and> e = c)"
    by (simp add: departed_def upd_client_def fold_Quit_member)
  moreover have "is_member E w d c \<Longrightarrow> d \<in> set (set_range (chan_sets E) (c_channels (cl w c)))"
    using assms(1,3) chan_inv_member [of E "{}" w d c] by (simp add: inv_def cs.set_range_has)
  ultimately show ?thesis by blast
qed

lemma inv_departed:
  assumes "inv E A {} w" "c < w_next_client w"
  shows "inv E A {} (departed E c w)"
proof -
  let ?u = "fold (\<lambda>ch. channel_Quit E ch c) (set_range (chan_sets E) (c_channels (cl w c))) w"
  let ?v = "departed E c w"
  have u: "inv E A {} ?u" by (rule inv_fold_Quit) (rule assms(1))
  then have inv: "nick_inv E w" "chan_inv E {} ?u" using assms(1) by (auto simp: inv_def)
  have ?thesis if "w_clients ?u = w_clients w" "srv_nicks ?u = srv_nicks w" "w_next_client ?u = w_next_client w"
    "w_next_chan ?u = w_next_chan w"
  proof -
    have get: "get_channel E ?v n = get_channel E ?u n" for n
      by (simp add: get_channel_def departed_def upd_client_def)
    have member: "is_member E ?v d e = is_member E ?u d e" for d e
      by (simp add: departed_def upd_client_def)
    have alive: "alive ?u d = alive w d" for d by (simp add: alive_def)
    have entries: "set (srv_nicks ?v) = {(k, d) \<in> set (srv_nicks w). d \<noteq> c}"
      "distinct (map fst (srv_nicks w)) \<Longrightarrow> distinct (map fst (srv_nicks ?v))"
      by (auto simp: departed_def without_nick_def distinct_map_filter)
    have "nick_inv E ?v"
      using inv(1) unfolding nick_inv_def departed_alive entries(1) by (auto simp: entries(2))
    moreover have "chan_inv E {} ?v"
    proof (rule chan_invI)
      show "d < w_next_chan ?v \<and> IsChannel E (chan_str ?v d) \<and> chan_key (chan_map E) n = chan_key (chan_map E) (chan_str ?v d) \<and>
          (d \<in> {} \<or> (\<exists>e. is_member E ?v d e))" if "get_channel E ?v n = Some d" for n d
        using chan_inv_named [OF inv(2), of n d] that unfolding get member by simp
      show "alive ?v e \<and> set_has (chan_sets E) (c_channels (cl ?v e)) d \<and> get_channel E ?v (chan_str ?v d) = Some d"
        if d: "d < w_next_chan ?v" "is_member E ?v d e" for d e
      proof -
        have "e \<noteq> c" using d departed_member [OF assms] by simp
        then show ?thesis
          using chan_inv_member [OF inv(2), of d e] d unfolding get member departed_alive alive by simp
      qed
      show "d < w_next_chan ?v"
        if "e < w_next_client ?v" "set_has (chan_sets E) (c_channels (cl ?v e)) d" for e d
        using chan_inv_listed [OF inv(2), of e d] that by (auto split: if_splits)
    qed
    moreover have "client_ok E A d (cl ?v d)" if "d < w_next_client ?v" for d
      using assms(1) that by (auto simp: inv_def client_ok_def)
    ultimately show ?thesis using assms(1) by (simp add: inv_def)
  qed
  then show ?thesis by simp
qed

lemma client_Quit_result:
  assumes "inv E A {} w" "client_Quit E c msg w = Ret v"
  shows "same_state v (if c_hasQuit (cl w c) then w else departed E c w)"
proof (cases "c_hasQuit (cl w c)")
  case True
  with assms(2) show ?thesis by (simp add: client_Quit_def same_state_def)
next
  case False
  define w2 where "w2 = Reply c (RplError ''quit'') (upd_client c (\<lambda>r. r\<lparr>c_hasQuit := True\<rparr>) w)"
  obtain l where l: "append_whowas c w2 = Ret (w2\<lparr>srv_whoWas := l\<rparr>)"
    using False assms(2) append_whowas_Ret [of c w2]
    by (cases "append_whowas c w2") (auto simp: client_Quit_def w2_def Let_def)
  define w3 where "w3 = w2\<lparr>srv_whoWas := l\<rparr>"
  have w3: "srv_nicks w3 = srv_nicks w" "w_chans w3 = w_chans w" "srv_channels w3 = srv_channels w"
    "w_next_client w3 = w_next_client w" "w_next_chan w3 = w_next_chan w"
    "w_clients w3 = (w_clients w)(c := (cl w c)\<lparr>c_hasQuit := True\<rparr>)"
    using same_state_core [OF core_Reply, of c "RplError ''quit''" "upd_client c (\<lambda>r. r\<lparr>c_hasQuit := True\<rparr>) w"]
    by (simp_all add: w3_def w2_def same_state_def upd_client_def)
  obtain w4 where w4: "destroy E c w3 = Ret w4" "core v = core w4"
    using False assms(2) l
    by (cases "destroy E c w3") (auto simp: client_Quit_def w2_def [symmetric] w3_def Let_def core_simps)
  have "nick_inv E w" using assms(1) by (simp add: inv_def)
  from destroy_same [OF this w3 w4(1)] have "same_state w4 (departed E c w)" .
  with same_state_core [OF w4(2)] False show ?thesis by (simp add: same_state_def)
qed

lemma inv_client_Quit:
  assumes "inv E A {} w" "c < w_next_client w"
  shows "on_ret (inv E A {}) (client_Quit E c msg w)"
  unfolding on_ret_iff
proof (intro allI impI)
  fix v assume "client_Quit E c msg w = Ret v"
  from client_Quit_result [OF assms(1) this] show "inv E A {} v"
    using inv_departed [OF assms] assms(1) by (simp add: inv_same split: if_splits)
qed

end

section \<open>Nicks\<close>

lemma inv_nickI:
  assumes "nick_inv E w'" "inv E A {} w" "srv_channels w' = srv_channels w" "w_chans w' = w_chans w"
    "w_next_client w' = w_next_client w" "w_next_chan w' = w_next_chan w"
    and "\<And>d. c_hasQuit (cl w' d) = c_hasQuit (cl w d)" "\<And>d. c_channels (cl w' d) = c_channels (cl w d)"
    and "\<And>d. d < w_next_client w \<Longrightarrow> client_ok E A d (cl w' d)"
  shows "inv E A {} w'"
proof -
  have "chan_inv E {} w' = chan_inv E {} w" by (rule chan_inv_cong) (simp_all add: assms alive_def)
  with assms show ?thesis by (simp add: inv_def)
qed

lemma nick_ops_fields [simp]:
  "w_clients (snd (nick_add E c w)) = w_clients w" "w_chans (snd (nick_add E c w)) = w_chans w"
  "srv_channels (snd (nick_add E c w)) = srv_channels w" "srv_whoWas (snd (nick_add E c w)) = srv_whoWas w"
  "w_next_client (snd (nick_add E c w)) = w_next_client w" "w_next_chan (snd (nick_add E c w)) = w_next_chan w"
  "w_clients (snd (nick_remove E c w)) = w_clients w" "w_chans (snd (nick_remove E c w)) = w_chans w"
  "srv_channels (snd (nick_remove E c w)) = srv_channels w" "srv_whoWas (snd (nick_remove E c w)) = srv_whoWas w"
  "w_next_client (snd (nick_remove E c w)) = w_next_client w"
  "w_next_chan (snd (nick_remove E c w)) = w_next_chan w"
  by (simp_all add: nick_add_def nick_remove_def)

lemma inv_SetNickname:
  assumes "inv E A {} w" "alive w c" "c_authorized (cl w c)" "nick \<noteq> []" "nick_get E w nick = None"
    and "IsNickname E nick = Some True"
  shows "inv E A {} (SetNickname E c nick w)"
proof (cases "c_nick (cl w c) = []")
  case True
  let ?w1 = "upd_client c (\<lambda>r. r\<lparr>c_nick := nick\<rparr>) w"
  have "nick_inv_but E c w"
    using assms(1) True by (auto simp: inv_def nick_inv_def nick_inv_but_def)
  then have "nick_inv E (snd (nick_add E c ?w1))"
    using assms by (intro nick_inv_but_add nick_inv_but_upd) (simp_all add: alive_def nick_get_def)
  moreover have "client_ok E A d (cl ?w1 d)" if "d < w_next_client w" for d
    using assms(1,3,4,6) that by (auto simp: inv_def client_ok_def)
  ultimately have "inv E A {} (snd (nick_add E c ?w1))"
    by - (rule inv_nickI [OF _ assms(1)], simp_all)
  then show ?thesis using True by (simp add: SetNickname_def)
next
  case False
  then show ?thesis using assms(1) by (simp add: SetNickname_def)
qed

text \<open>A new nick that nobody else has, up to case.\<close>

lemma inv_ChangeNickname:
  assumes "inv E A {} w" "alive w c" "c_authorized (cl w c)" "nick \<noteq> []"
    and free: "nick_get E w nick \<in> {None, Some c}" and valid: "IsNickname E nick = Some True"
  shows "on_ret (inv E A {}) (ChangeNickname E c nick w)"
proof (cases "append_whowas c (snd (nick_remove E c w))")
  case (Ret w1)
  let ?w0 = "snd (nick_remove E c w)"
  obtain l where w1: "w1 = ?w0\<lparr>srv_whoWas := l\<rparr>" using append_whowas_Ret [OF Ret] by blast
  let ?w2 = "upd_client c (\<lambda>r. r\<lparr>c_nick := nick\<rparr>) w1"
  have nick: "nick_inv E w" using assms(1) by (simp add: inv_def)
  have "nick_inv_but E c w1"
    using nick_inv_but_remove [OF nick, of c] by (simp add: w1 nick_inv_but_def alive_def)
  then have but: "nick_inv_but E c ?w2" by (rule nick_inv_but_upd)
  have "nick_get E ?w2 nick = None"
  proof (rule ccontr)
    assume "nick_get E ?w2 nick \<noteq> None"
    then obtain d where "nick_get E ?w2 nick = Some d" by blast
    then have d: "(to_lower E nick, d) \<in> set (srv_nicks ?w2)" by (simp add: nick_get_def map_of_SomeD)
    then have "d \<noteq> c" using but by (simp add: nick_inv_but_def)
    have "(to_lower E nick, d) \<in> set (srv_nicks w)"
      using d by (simp add: w1 nick_remove_inv [OF nick])
    then have "nick_get E w nick = Some d" using nick by (simp add: nick_inv_def nick_get_iff)
    with free \<open>d \<noteq> c\<close> show False by simp
  qed
  moreover have "alive ?w2 c" using assms(2) by (simp add: alive_def w1)
  ultimately have "nick_inv E (snd (nick_add E c ?w2))"
    using but by (intro nick_inv_but_add) simp_all
  moreover have "client_ok E A d (cl ?w2 d)" if "d < w_next_client w" for d
    using assms(1,3,4) valid that by (auto simp: inv_def client_ok_def w1)
  ultimately have "inv E A {} (snd (nick_add E c ?w2))"
    by - (rule inv_nickI [OF _ assms(1)], simp_all add: w1)
  then show ?thesis
    using Ret by (simp add: ChangeNickname_def Let_def inv_core [OF core_reply_all])
qed (simp_all add: ChangeNickname_def)

section \<open>Registration\<close>

lemma core_queries [core_simps]:
  "core (HandleServer_LUsers E c w) = core w" "core (MOTD c w) = core w"
  by (simp_all add: HandleServer_LUsers_def MOTD_def core_simps core_fold split: option.split)

lemma inv_Touch: "inv E A X w \<Longrightarrow> inv E A X (Touch c w)"
  unfolding Touch_def by (rule inv_upd_client) (simp_all add: client_ok_def)

lemma inv_Active: "inv E A X w \<Longrightarrow> inv E A X (Active c w)"
  unfolding Active_def by (rule inv_upd_client) (simp_all add: client_ok_def)

lemma alive_Touch [simp]: "alive (Touch c w) d = alive w d"
  by (simp add: Touch_def alive_def)

lemma alive_Active [simp]: "alive (Active c w) d = alive w d"
  by (simp add: Active_def alive_def)

context go_env_laws begin

lemma set_mode_ok:
  "client_ok E A c r \<Longrightarrow> m \<noteq> Operator \<Longrightarrow> m \<noteq> Registered \<Longrightarrow> client_ok E A c (set_mode E m r)"
  by (auto simp: client_ok_def set_mode_def um.set_has_add)

lemma unset_mode_ok: "client_ok E A c r \<Longrightarrow> client_ok E A c (unset_mode E m r)"
  by (auto simp: client_ok_def unset_mode_def um.set_has_remove)

lemma inv_set_mode:
  "inv E A X w \<Longrightarrow> m \<noteq> Operator \<Longrightarrow> m \<noteq> Registered \<Longrightarrow> inv E A X (upd_client c (set_mode E m) w)"
  by (rule inv_upd_client) (simp_all add: set_mode_ok, simp_all add: set_mode_def)

lemma inv_tryRegister: "inv E A X w \<Longrightarrow> inv E A X (tryRegister E c w)"
proof -
  assume i: "inv E A X w"
  show ?thesis
  proof (cases "c_registered (cl w c) \<or> \<not> HasNick w c \<or> \<not> HasUsername w c \<or> c_capState (cl w c) = CapNegotiating")
    case False
    have "inv E A X (upd_client c (\<lambda>r. set_mode E HostMask (r\<lparr>c_registered := True\<rparr>)) w)"
    proof (rule inv_upd_client [OF i])
      show "client_ok E A c (cl w c) \<Longrightarrow> client_ok E A c (set_mode E HostMask (cl w c\<lparr>c_registered := True\<rparr>))"
        using False by (intro set_mode_ok)
          (auto simp: client_ok_def HasNick_def HasUsername_def user_mode_defs)
    qed (simp_all add: set_mode_def)
    then have "inv E A X (Register E c w)" using False i by (simp add: Register_def inv_Touch)
    moreover have "core (tryRegister E c w) = core (Register E c w)"
      using False by (simp add: tryRegister_def core_simps)
    ultimately show ?thesis using inv_core by blast
  qed (use i in \<open>auto simp: tryRegister_def\<close>)
qed

lemma inv_setUserInfo:
  assumes "inv E A {} w" "alive w c" "c_authorized (cl w c)" "\<not> c_registered (cl w c)"
  shows "inv E A {} (setUserInfo E c username realname w)"
proof -
  let ?w1 = "snd (nick_remove E c w)"
  let ?w2 = "upd_client c (\<lambda>r. r\<lparr>c_username := username, c_realname := realname\<rparr>) ?w1"
  have nick: "nick_inv E w" using assms(1) by (simp add: inv_def)
  have but: "nick_inv_but E c ?w2" by (rule nick_inv_but_upd) (rule nick_inv_but_remove [OF nick])
  have "nick_get E ?w2 (c_nick (cl ?w2 c)) = None" if named: "c_nick (cl w c) \<noteq> []"
  proof (rule ccontr)
    assume "nick_get E ?w2 (c_nick (cl ?w2 c)) \<noteq> None"
    then obtain d where "nick_get E ?w2 (c_nick (cl ?w2 c)) = Some d" by blast
    then have d: "(to_lower E (c_nick (cl w c)), d) \<in> set (srv_nicks ?w2)" by (simp add: nick_get_def map_of_SomeD)
    then have "d \<noteq> c" using but by (simp add: nick_inv_but_def)
    have "(to_lower E (c_nick (cl w c)), d) \<in> set (srv_nicks w)" using d by (simp add: nick_remove_inv [OF nick])
    moreover have "(to_lower E (c_nick (cl w c)), c) \<in> set (srv_nicks w)"
      using nick assms(2) named by (simp add: nick_inv_def)
    ultimately show False using nick \<open>d \<noteq> c\<close> eq_key_imp_eq_value unfolding nick_inv_def by metis
  qed
  then have "nick_inv E (snd (nick_add E c ?w2))"
    using but assms(2) by (intro nick_inv_but_add) (simp_all add: alive_def)
  moreover have "client_ok E A d (cl ?w2 d)" if "d < w_next_client w" for d
    using assms(1,3,4) that by (auto simp: inv_def client_ok_def)
  ultimately have "inv E A {} (snd (nick_add E c ?w2))"
    by - (rule inv_nickI [OF _ assms(1)], simp_all)
  then show ?thesis by (simp add: setUserInfo_def Let_def inv_tryRegister)
qed

end

end
