(* ===== verification/Reachable.thy ===== *)
theory Reachable
  imports Invariant
begin

text \<open>
  Every handler keeps the invariant, and so does every step of the server: a new connection, a line
  from a client, the end of a connection, the timers, a change of the files. The steps of the
  server are the relation \<open>step\<close>, and \<open>reachable_inv\<close> is what its reachable states have.
\<close>

section \<open>Handlers that only answer\<close>

lemma core_answers [core_simps]:
  "core (HandleServer_List E c chs s w) = core w" "core (HandleServer_Names E c chs w) = core w"
  "core (HandleServer_Who E c s w) = core w" "core (HandleServer_IsOn E c chs w) = core w"
  "core (HandleServer_Ping c s w) = core w" "core (HandleServer_Version c s w) = core w"
  "core (HandleServer_Time E c s w) = core w"
proof -
  show "core (HandleServer_List E c chs s w) = core w"
    by (simp add: HandleServer_List_def core_simps core_fold split: option.split)
  show "core (HandleServer_Names E c chs w) = core w"
    by (simp add: HandleServer_Names_def core_simps core_fold split: option.split)
  have "core (whoChannel E c ch f w) = core w" for ch f and w :: "'a world"
    unfolding whoChannel_def by (rule core_fold) (simp add: core_simps)
  then show "core (HandleServer_Who E c s w) = core w"
    by (simp add: HandleServer_Who_def Let_def core_simps core_fold split: option.split)
qed (simp_all add: HandleServer_IsOn_def HandleServer_Ping_def HandleServer_Version_def
    HandleServer_Time_def core_simps)

lemma core_PrivMsg [core_simps]: "core (HandleServer_PrivMsg E c s m w) = core w"
  by (simp add: HandleServer_PrivMsg_def Let_def core_simps count_message_def split: option.split)

lemma on_ret_core: "on_ret (\<lambda>v. core v = core w) r \<Longrightarrow> act_inv E A c w \<Longrightarrow> on_ret (act_inv E A c) r"
  by (erule on_ret_mono) (rule act_inv_keep)

lemma on_ret_core_iterate:
  assumes "\<And>x w. on_ret (\<lambda>v. core v = core w) (f x w)"
  shows "on_ret (\<lambda>v. core v = core w) (iterate f xs w)"
proof (rule on_ret_iterate)
  show "on_ret (\<lambda>v. core v = core w) (f x s)" if "core s = core w" for x s
    using assms [of s x] by (rule on_ret_mono) (simp add: that)
qed simp

lemma core_send_direct: "on_ret (\<lambda>v. core v = core w) (send_direct c s w)"
  by (simp add: send_direct_def core_simps)

lemma core_Wallops: "on_ret (\<lambda>v. core v = core w) (Wallops E m w)"
  unfolding Wallops_def Let_def
proof (rule on_ret_core_iterate)
  show "on_ret (\<lambda>v. core v = core w) (if has_mode E w c WallOps
      then send_direct c (RplNotice (srv_name w) (Nick w c) (NewText E m)) (count_message w) else Ret w)"
    for c and w :: "'a world"
    using core_send_direct [of "count_message w"] by (simp add: count_message_def core_simps)
qed

lemma core_Global: "on_ret (\<lambda>v. core v = core w) (Global E m w)"
  unfolding Global_def Let_def
proof (rule on_ret_core_iterate)
  show "on_ret (\<lambda>v. core v = core w)
      (send_direct c (RplNotice (srv_global_id w) (Nick w c) (NewText E m)) (count_message w))"
    for c and w :: "'a world"
    using core_send_direct [of "count_message w"] by (simp add: count_message_def core_simps)
qed

lemma core_Notice: "on_ret (\<lambda>v. core v = core w) (HandleServer_Notice E c s m w)"
  by (simp add: HandleServer_Notice_def core_Global core_simps count_message_def split: option.split)

lemma core_Whois: "on_ret (\<lambda>v. core v = core w) (HandleServer_Whois E c ms w)"
  unfolding HandleServer_Whois_def Let_def
proof (rule on_ret_core_iterate)
  have "on_ret (\<lambda>v. core v = core w) (RplWhois E c d w)" for d and w :: "'a world"
  proof -
    have "on_ret (\<lambda>v. core v = core u) (RplWhoisChannels E c d u)" for u :: "'a world"
      by (cases "WhoisChannelsNames E u d c") (simp_all add: RplWhoisChannels_def core_simps)
    then show ?thesis
      unfolding RplWhois_def Let_def by (rule on_ret_and_then) (simp add: core_simps)
  qed
  then show "on_ret (\<lambda>v. core v = core w) (if set_count (client_sets E) (FindAll E w m) = 0
      then Ret (ErrNoSuchNick c m w)
      else iterate (RplWhois E c) (set_range (client_sets E) (FindAll E w m)) w)" for m and w :: "'a world"
    by (simp add: core_simps on_ret_core_iterate)
qed

lemmas act_simps = core_replies [THEN act_inv_core] core_Reply [THEN act_inv_core]
  core_reply_all [THEN act_inv_core] core_NumericReply [THEN act_inv_core]
  core_to_members [THEN act_inv_core] core_channel_talk [THEN act_inv_core]
  core_ShowMaskList [THEN act_inv_core] core_answers [THEN act_inv_core]
  core_PrivMsg [THEN act_inv_core] core_queries [THEN act_inv_core]

lemmas inv_simps = core_replies [THEN inv_core] core_Reply [THEN inv_core]
  core_reply_all [THEN inv_core] core_NumericReply [THEN inv_core] core_answers [THEN inv_core]
  core_PrivMsg [THEN inv_core] core_queries [THEN inv_core] core_out [THEN inv_core]

section \<open>Handlers that change a channel\<close>

context go_env_laws begin

lemma act_inv_upd_chan:
  assumes "act_inv E A c w" "ch_name (f (chn w ch)) = ch_name (chn w ch)"
    and "\<And>c. mem_has (members_ops E) (ch_members (f (chn w ch))) c = is_member E w ch c"
  shows "act_inv E A c (upd_chan ch f w)"
  using assms by (simp add: act_inv_def inv_upd_chan)

lemma act_inv_SetTopic: "act_inv E A c w \<Longrightarrow> act_inv E A c (SetTopic E ch d topic w)"
  by (simp add: SetTopic_def Let_def act_simps act_inv_upd_chan)

lemma act_inv_Topic: "act_inv E A c w \<Longrightarrow> act_inv E A c (HandleServer_Topic E d s b topic w)"
  by (simp add: HandleServer_Topic_def act_simps act_inv_SetTopic split: option.split)

lemma act_inv_applyMode: "act_inv E A c w \<Longrightarrow> act_inv E A c (snd (applyMode E ch d change w))"
proof (cases "cmc_mode change = UserLimit")
  case True
  assume "act_inv E A c w"
  then have "act_inv E A c (snd (applyModeLimit ch d (cmc_arg change) w))"
    by (simp add: applyModeLimit_def act_simps act_inv_upd_chan split: option.split)
  with True show ?thesis by (simp add: applyMode_def chan_mode_defs)
next
  case False
  assume i: "act_inv E A c w"
  show ?thesis
  proof (rule applyMode_cases [OF False])
    show "act_inv E A c (snd (applyModeMask E ch d m op s w))" for m op s
      using i by (simp add: applyModeMask_def set_mask_list_def act_simps act_inv_upd_chan
          split: option.split prod.split)
    show "act_inv E A c (snd (applyModeFlag E ch d m op w))" for m op
      using i by (simp add: applyModeFlag_def set_flags_def act_simps act_inv_upd_chan split: ModeOp.split)
    show "act_inv E A c (snd (applyModeKey E ch d op s w))" for op s
      using i by (simp add: applyModeKey_def Let_def act_simps act_inv_upd_chan split: ModeOp.split)
    show "act_inv E A c (snd (applyModeMember E ch d m op s w))" for m op s
      using i by (simp add: applyModeMember_def set_members_def act_simps act_inv_upd_chan member_set_has
          member_unset_has split: ModeOp.split option.split)
  qed (use i in \<open>simp add: act_simps\<close>)
qed

lemma act_inv_apply_changes:
  "act_inv E A c w \<Longrightarrow> act_inv E A c (snd (apply_changes E ch d changes w))"
proof (induction changes arbitrary: w)
  case (Cons change changes)
  obtain b w1 where m: "applyMode E ch d change w = (b, w1)" by force
  with act_inv_applyMode [OF Cons.prems, of ch d change] have "act_inv E A c w1" by simp
  from Cons.IH [OF this] show ?case by (simp add: m case_prod_beta)
qed simp

lemma act_inv_ChannelMode: "act_inv E A c w \<Longrightarrow> act_inv E A c (HandleServer_ChannelMode E d s changes w)"
proof -
  assume i: "act_inv E A c w"
  have "act_inv E A c (channel_Mode E ch d changes w)" for ch
    using i act_inv_apply_changes [OF i, of ch d changes]
    by (auto simp: channel_Mode_def act_simps split: prod.split)
  with i show ?thesis by (simp add: HandleServer_ChannelMode_def act_simps split: option.split)
qed

lemma act_inv_Invite: "act_inv E A c w \<Longrightarrow> act_inv E A c (HandleServer_Invite E d nick s w)"
  by (simp add: HandleServer_Invite_def channel_Invite_def Let_def set_mask_list_def act_simps
      act_inv_upd_chan split: option.split)

lemma act_inv_fold:
  "(\<And>x w. act_inv E A c w \<Longrightarrow> act_inv E A c (f x w)) \<Longrightarrow> act_inv E A c w \<Longrightarrow> act_inv E A c (fold f xs w)"
  by (induction xs arbitrary: w) auto

lemma act_inv_HandleJoin: "act_inv E A c w \<Longrightarrow> act_inv E A c (HandleServer_Join E c chs zero w)"
  by (simp add: HandleServer_Join_def act_inv_fold act_inv_Part act_inv_join_one)

lemma act_inv_HandlePart: "act_inv E A c w \<Longrightarrow> act_inv E A c (HandleServer_Part E d chs msg w)"
  unfolding HandleServer_Part_def
  by (rule act_inv_fold) (simp_all add: act_inv_Part act_simps split: option.split)

lemma act_inv_HandleKick: "act_inv E A c w \<Longrightarrow> act_inv E A c (HandleServer_Kick E d kicks comment w)"
  unfolding HandleServer_Kick_def
  by (rule act_inv_fold) (simp_all add: act_inv_Kick act_simps split: option.split prod.split)

section \<open>Handlers that change a client\<close>

lemma act_inv_upd_client:
  assumes "act_inv E A c w"
    and "c_nick (f (cl w d)) = c_nick (cl w d)" "c_hasQuit (f (cl w d)) = c_hasQuit (cl w d)"
      "c_channels (f (cl w d)) = c_channels (cl w d)"
    and "client_ok E A d (cl w d) \<Longrightarrow> client_ok E A d (f (cl w d))"
  shows "act_inv E A c (upd_client d f w)"
  using assms by (simp add: act_inv_def inv_upd_client alive_upd_client)

lemma mode_fields [simp]:
  "c_nick (set_mode E m r) = c_nick r" "c_hasQuit (set_mode E m r) = c_hasQuit r"
  "c_channels (set_mode E m r) = c_channels r" "c_nick (unset_mode E m r) = c_nick r"
  "c_hasQuit (unset_mode E m r) = c_hasQuit r" "c_channels (unset_mode E m r) = c_channels r"
  by (simp_all add: set_mode_def unset_mode_def)

lemma act_inv_user_changes:
  "act_inv E A c w \<Longrightarrow> act_inv E A c (snd (apply_user_changes E d changes w))"
proof (induction changes arbitrary: w)
  case (Cons change changes)
  have ne: "{Operator, Registered} \<inter> {Invisible, HostMask, WallOps, SecureOnly} = {}" by (simp add: user_mode_defs)
  have set: "act_inv E A c (upd_client d (set_mode E (mc_mode change)) w)"
    if "mc_mode change \<in> {Invisible, HostMask, WallOps, SecureOnly}"
    using Cons.prems that ne by (intro act_inv_upd_client) (auto intro!: set_mode_ok)
  have unset: "act_inv E A c (upd_client d (unset_mode E (mc_mode change)) w)"
    using Cons.prems by (intro act_inv_upd_client) (auto intro!: unset_mode_ok)
  show ?case
    using Cons.IH [OF set] Cons.IH [OF unset] Cons.IH [OF Cons.prems]
    by (auto simp: Let_def case_prod_beta)
qed simp

lemma act_inv_Mode: "act_inv E A c w \<Longrightarrow> act_inv E A c (HandleServer_Mode E d s changes w)"
proof -
  assume i: "act_inv E A c w"
  then show ?thesis
    by (simp add: HandleServer_Mode_def case_prod_beta act_simps act_inv_user_changes split: option.split)
qed

lemma act_inv_Away: "act_inv E A c w \<Longrightarrow> act_inv E A c (HandleServer_Away E d body w)"
proof -
  assume i: "act_inv E A c w"
  have keep: "client_ok E A d (r\<lparr>c_awayMessage := b\<rparr>) = client_ok E A d r" for r b
    by (simp add: client_ok_def)
  have "Away \<noteq> Operator" "Away \<noteq> Registered" by (simp_all add: user_mode_defs)
  with i show ?thesis unfolding HandleServer_Away_def
    by (intro act_inv_upd_client) (auto simp: keep intro: set_mode_ok unset_mode_ok)
qed

end

section \<open>Nicks, quitting, registration\<close>

lemma IsNickname_nonempty: "IsNickname E s = Some b \<Longrightarrow> s \<noteq> []"
  by (auto simp: IsNickname_def)

lemma inv_whowas: "inv E A X (w\<lparr>srv_whoWas := l\<rparr>) = inv E A X w"
  by (rule inv_same) (simp add: same_state_def)

context go_env_laws begin

lemma act_inv_authorized:
  "act_inv E A c w \<Longrightarrow> c_registered (cl w c) \<Longrightarrow> c_authorized (cl w c)"
  by (auto simp: act_inv_def inv_def alive_def client_ok_def)

lemma inv_get_target:
  assumes "inv E A {} w" "nick_get E w n = Some d"
  shows "alive w d" "c_authorized (cl w d)"
proof -
  have *: "alive w d" "c_nick (cl w d) \<noteq> []"
    using assms by (auto simp: inv_def nick_inv_get)
  then show "alive w d" "c_authorized (cl w d)"
    using assms(1) by (auto simp: inv_def client_ok_def alive_def)
qed

lemma inv_HandleNick:
  assumes "act_inv E A c w" "c_registered (cl w c)"
  shows "on_ret (inv E A {}) (HandleServer_Nick E c nick w)"
proof -
  have i: "inv E A {} w" "alive w c" using assms(1) by (auto simp: act_inv_def)
  note a = act_inv_authorized [OF assms]
  show ?thesis
    using i inv_ChangeNickname [OF i a, of nick]
    by (auto simp: HandleServer_Nick_def inv_simps dest: IsNickname_nonempty split: option.split)
qed

lemma inv_HandleOperNick:
  assumes "inv E A {} w"
  shows "on_ret (inv E A {}) (HandleServer_OperNick E c target_nick nick w)"
proof -
  have "on_ret (inv E A {}) (ChangeNickname E d nick w)"
    if "nick_get E w target_nick = Some d" "nick_get E w nick = None" "nick \<noteq> []" "IsNickname E nick = Some True" for d
    using that inv_get_target [OF assms that(1)] assms by (intro inv_ChangeNickname) auto
  then show ?thesis
    using assms by (auto simp: HandleServer_OperNick_def inv_simps dest: IsNickname_nonempty split: option.split)
qed

lemma inv_Kill: "inv E A {} w \<Longrightarrow> on_ret (inv E A {}) (HandleServer_Kill E c nick comment w)"
  using inv_get_target(1) inv_client_Quit [of A w]
  by (auto simp: HandleServer_Kill_def inv_simps alive_def split: option.split)

lemma inv_Oper:
  assumes "inv E A {} w"
  shows "inv E (if hash \<noteq> None \<and> \<not> err then A(Oper := insert c (A Oper)) else A) {} (HandleServer_Oper E c hash err w)"
proof (cases "hash = None \<or> err")
  case True
  then show ?thesis using assms by (auto simp: HandleServer_Oper_def inv_simps)
next
  case False
  have "inv E (A(Oper := insert c (A Oper))) {} w" using assms by (auto simp: inv_def client_ok_def)
  then have "inv E (A(Oper := insert c (A Oper))) {} (upd_client c (\<lambda>r. set_mode E WallOps (set_mode E Operator r)) w)"
    by (rule inv_upd_client) (auto simp: client_ok_def set_mode_def um.set_has_add user_mode_defs)
  with False show ?thesis by (auto simp: HandleServer_Oper_def Let_def inv_simps)
qed

lemma inv_WhoWas:
  assumes "inv E A {} w"
  shows "on_ret (inv E A {}) (HandleServer_WhoWas E c nicks lim w)"
  unfolding HandleServer_WhoWas_def
proof (rule on_ret_iterate)
  show "inv E A {} w" by (rule assms)
next
  fix nick and w :: "'t world" assume i: "inv E A {} w"
  have "inv E A {} (fold (RplWhoWasUser E c) rs w') = inv E A {} w'" for rs w'
    by (rule inv_core) (simp add: core_fold core_simps)
  with i show "on_ret (inv E A {}) (and_then (whowas_find (srv_whoWas w) nick lim) (\<lambda>(results, l).
      let w1 = w\<lparr>srv_whoWas := l\<rparr>; w2 = if results = [] then ErrWasNoSuchNick c nick w1
        else fold (RplWhoWasUser E c) results w1 in Ret (RplEndOfWhoWas c nick w2)))"
    by (cases "whowas_find (srv_whoWas w) nick lim") (auto simp: inv_simps inv_whowas Let_def)
qed

lemma inv_bundle: "on_ret (\<lambda>v. core v = core w) r \<Longrightarrow> inv E A {} w \<Longrightarrow> on_ret (inv E A {}) r"
  by (erule on_ret_mono) (use inv_core in blast)

lemma inv_Rehash:
  assumes "inv E A {} w"
  shows "on_ret (inv E A {}) (HandleServer_Rehash E c w)"
proof -
  have rehash: "on_ret (\<lambda>(err, v). inv E A {} v) (Rehash E u)" if i: "inv E A {} u" for u :: "'t world"
  proof -
    have keep: "inv E A {} (u\<lparr>srv_config := k, srv_motdFile := a, srv_name := b, srv_network := d,
        srv_description := e, srv_operators := g\<rparr>)"
      "inv E A {} (u\<lparr>srv_motdFile := a, srv_name := b, srv_network := d, srv_description := e, srv_operators := g\<rparr>)"
      for k a b d e g
    proof -
      have "same_state (u\<lparr>srv_config := k, srv_motdFile := a, srv_name := b, srv_network := d,
          srv_description := e, srv_operators := g\<rparr>) u"
        "same_state (u\<lparr>srv_motdFile := a, srv_name := b, srv_network := d, srv_description := e, srv_operators := g\<rparr>) u"
        by (simp_all add: same_state_def)
      with i show "inv E A {} (u\<lparr>srv_config := k, srv_motdFile := a, srv_name := b, srv_network := d,
          srv_description := e, srv_operators := g\<rparr>)"
        "inv E A {} (u\<lparr>srv_motdFile := a, srv_name := b, srv_network := d, srv_description := e, srv_operators := g\<rparr>)"
        by (simp_all add: inv_same)
    qed
    show ?thesis
      unfolding Rehash_def Reload_def
      by (cases "LoadConfig E (w_files u) (cfg_filename (srv_config u))")
        (auto simp: Let_def on_ret_iff and_then_Ret_iff keep split: sum.splits)
  qed
  have "on_ret (inv E A {}) (and_then (Wallops E s w) (\<lambda>w1. and_then (Rehash E w1)
      (\<lambda>(err, w2). case err of Some e \<Rightarrow> Wallops E (f e) w2 | None \<Rightarrow> Ret (RplRehashing c w2))))" for s f
    by (rule on_ret_and_then [OF inv_bundle [OF core_Wallops assms]],
        rule on_ret_and_then [OF rehash]) (auto simp: inv_simps split: option.split intro: inv_bundle [OF core_Wallops])
  with assms show ?thesis by (simp add: HandleServer_Rehash_def inv_simps)
qed

lemma inv_bad_password: "act_inv E A c w \<Longrightarrow> on_ret (inv E A {}) (bad_password E c w)"
proof -
  assume "act_inv E A c w"
  then have "act_inv E A c (ErrPasswdMismatch c w)" by (simp add: act_simps)
  then show ?thesis unfolding bad_password_def by (intro inv_client_Quit) (auto simp: act_inv_def alive_def)
qed

end

section \<open>Registration\<close>

text \<open>When the data of an AUTHENTICATE logs the client in.\<close>

definition blob_ok :: "'t go_env \<Rightarrow> 't world \<Rightarrow> string \<Rightarrow> bool" where
  "blob_ok E w blob =
     (case split_on (CHR 0x00) blob of
        [authcid, authzid, password] \<Rightarrow>
          (authzid = [] \<or> authzid = authcid) \<and> store_Verify E (srv_accounts w) authcid password
      | _ \<Rightarrow> False)"

definition logs_in :: "'t go_env \<Rightarrow> 't world \<Rightarrow> client_id \<Rightarrow> string \<Rightarrow> bool" where
  "logs_in E w c arg \<longleftrightarrow>
     c_authorized (cl w c) \<and> sasl_started (c_sasl (cl w c)) \<and> arg \<noteq> ''*'' \<and> length arg < 400 \<and>
     (case b64_decode (sasl_buffer (c_sasl (cl w c)) @ (if arg = ''+'' then [] else arg)) of
        None \<Rightarrow> False
      | Some blob \<Rightarrow> blob_ok E w blob)"

context go_env_laws begin

lemma act_inv_Pass:
  assumes "act_inv E A c w"
  shows "on_ret (inv E (if err then A else A(Auth := insert c (A Auth))) {}) (HandleRegServer_Pass E c err w)"
proof (cases err)
  case True
  with inv_bad_password [OF assms] show ?thesis by (simp add: HandleRegServer_Pass_def)
next
  case False
  have "inv E (A(Auth := insert c (A Auth))) {} w" using assms by (auto simp: act_inv_def inv_def client_ok_def)
  then have "inv E (A(Auth := insert c (A Auth))) {} (upd_client c (\<lambda>r. r\<lparr>c_authorized := True\<rparr>) w)"
    by (rule inv_upd_client) (auto simp: client_ok_def)
  with False show ?thesis by (simp add: HandleRegServer_Pass_def)
qed

lemma inv_RegNick:
  assumes "act_inv E A c w"
  shows "on_ret (inv E A {}) (HandleRegServer_Nick E c nick w)"
proof (cases "c_authorized (cl w c)")
  case True
  with assms have "inv E A {} (SetNickname E c nick w)"
    if "nick_get E w nick = None" "nick \<noteq> []" "IsNickname E nick = Some True"
    using that by (intro inv_SetNickname) (auto simp: act_inv_def)
  with assms True show ?thesis
    by (auto simp: HandleRegServer_Nick_def act_inv_def inv_simps inv_tryRegister split: option.split)
next
  case False
  with assms show ?thesis by (simp add: HandleRegServer_Nick_def inv_bad_password)
qed

lemma inv_RFC1459User:
  assumes "act_inv E A c w" "\<not> c_registered (cl w c)"
  shows "on_ret (inv E A {}) (HandleRegServer_RFC1459User E c username realname w)"
  using assms inv_setUserInfo [of A w c]
  by (auto simp: HandleRegServer_RFC1459User_def inv_bad_password act_inv_def)

lemma flags_inv:
  assumes "act_inv E A c w" "Operator \<notin> set ms" "Registered \<notin> set ms"
  shows "act_inv E A c (fold (\<lambda>m. upd_client c (set_mode E m)) ms w) \<and>
    c_authorized (cl (fold (\<lambda>m. upd_client c (set_mode E m)) ms w) c) = c_authorized (cl w c) \<and>
    c_registered (cl (fold (\<lambda>m. upd_client c (set_mode E m)) ms w) c) = c_registered (cl w c)"
  using assms
proof (induction ms arbitrary: w)
  case (Cons m ms)
  have "act_inv E A c (upd_client c (set_mode E m) w)"
    using Cons.prems by (intro act_inv_upd_client) (auto intro!: set_mode_ok)
  moreover have "c_authorized (set_mode E m r) = c_authorized r" "c_registered (set_mode E m r) = c_registered r"
    for r by (simp_all add: set_mode_def)
  ultimately show ?case using Cons by simp
qed simp

lemma inv_RFC2812User:
  assumes "act_inv E A c w" "\<not> c_registered (cl w c)"
  shows "on_ret (inv E A {}) (HandleRegServer_RFC2812User E c username realname mode w)"
proof (cases "c_authorized (cl w c)")
  case True
  define w1 where "w1 = (if Flags mode \<noteq> []
      then RplUModeIs E c c (fold (\<lambda>m. upd_client c (set_mode E m)) (Flags mode) w) else w)"
  have "Operator \<notin> set (Flags mode)" "Registered \<notin> set (Flags mode)" by (simp_all add: Flags_def user_mode_defs)
  note f = flags_inv [OF assms(1) this]
  have u: "w_clients (RplUModeIs E c c v) = w_clients v" for v :: "'t world"
    by (rule core_fields(1) [OF core_replies(5)])
  have "act_inv E A c w1" "c_authorized (cl w1 c)" "\<not> c_registered (cl w1 c)"
    using f assms True by (simp_all add: w1_def act_simps u)
  with True inv_setUserInfo [of A w1 c] show ?thesis
    by (simp add: HandleRegServer_RFC2812User_def Let_def w1_def act_inv_def)
next
  case False
  with assms show ?thesis by (simp add: HandleRegServer_RFC2812User_def inv_bad_password)
qed

lemma inv_sasl_upd: "inv E A X w \<Longrightarrow> inv E A X (upd_client c (\<lambda>r. r\<lparr>c_sasl := f (c_sasl r)\<rparr>) w)"
  by (rule inv_upd_client) (simp_all add: client_ok_def)

lemma inv_set_Registered:
  "inv E A X w \<Longrightarrow> inv E (A(Account := insert c (A Account))) X (upd_client c (set_mode E Registered) w)"
  by (rule inv_upd_client)
    (auto simp: inv_def client_ok_def set_mode_def um.set_has_add user_mode_defs)

lemma inv_sasl_authenticate:
  assumes "inv E A {} w"
  shows "inv E (if blob_ok E w blob then A(Account := insert c (A Account)) else A) {} (sasl_authenticate E c blob w)"
  using assms inv_set_Registered
  by (simp add: sasl_authenticate_def blob_ok_def Let_def inv_simps inv_sasl_upd split: list.split)

lemma inv_Authenticate:
  assumes "act_inv E A c w"
  shows "on_ret (inv E (if logs_in E w c arg then A(Account := insert c (A Account)) else A) {})
    (HandleRegServer_Authenticate E c arg w)"
proof -
  have i: "inv E A {} w" using assms by (simp add: act_inv_def)
  define w1 where "w1 = (if arg \<noteq> ''+'' then upd_client c (\<lambda>r. r\<lparr>c_sasl := sasl_write arg (c_sasl r)\<rparr>) w else w)"
  have w1: "inv E A {} w1" "srv_accounts w1 = srv_accounts w"
    "sasl_buffer (c_sasl (cl w1 c)) = sasl_buffer (c_sasl (cl w c)) @ (if arg = ''+'' then [] else arg)"
    using i inv_sasl_upd [OF i, of c "sasl_write arg"] by (simp_all add: w1_def sasl_write_def)
  have blob: "blob_ok E w1 = blob_ok E w" unfolding blob_ok_def w1(2) ..
  show ?thesis
  proof (cases "c_authorized (cl w c) \<and> arg \<noteq> ''*'' \<and> sasl_started (c_sasl (cl w c)) \<and> length arg < 400")
    case True
    then have "HandleRegServer_Authenticate E c arg w = (case b64_decode (sasl_buffer (c_sasl (cl w1 c))) of
        None \<Rightarrow> Ret (upd_client c (\<lambda>r. r\<lparr>c_sasl := sasl_reset (c_sasl r)\<rparr>) (ErrSaslFail c ''Invalid base64 encoding'' w1))
      | Some blob \<Rightarrow> Ret (sasl_authenticate E c blob w1))"
      unfolding HandleRegServer_Authenticate_def w1_def [symmetric] Let_def by simp
    moreover have "logs_in E w c arg = (case b64_decode (sasl_buffer (c_sasl (cl w1 c))) of None \<Rightarrow> False
        | Some blob \<Rightarrow> blob_ok E w blob)"
      using True unfolding logs_in_def w1(3) by simp
    ultimately show ?thesis
      using w1(1) inv_sasl_authenticate [OF w1(1), unfolded blob]
      by (cases "b64_decode (sasl_buffer (c_sasl (cl w1 c)))") (simp_all add: inv_simps inv_sasl_upd)
  next
    case False
    then have "\<not> logs_in E w c arg" by (auto simp: logs_in_def)
    with False show ?thesis
      using i inv_bad_password [OF assms]
      by (auto simp: HandleRegServer_Authenticate_def Let_def inv_simps inv_sasl_upd)
  qed
qed

lemma set_request: "set (fold (\<lambda>cap m. if cap \<in> set m then m else m @ [cap]) cs m) = set m \<union> set cs"
  by (induction cs arbitrary: m) auto

lemma inv_Cap:
  assumes "inv E A {} w"
  shows "on_ret (inv E A {}) (HandleRegServer_Cap E c sub caps w)"
proof -
  have state: "inv E A {} (upd_client c (\<lambda>r. r\<lparr>c_capState := s\<rparr>) w)" for s
    by (rule inv_upd_client [OF assms]) (simp_all add: client_ok_def)
  have clear: "inv E A {} (upd_client c (\<lambda>r. r\<lparr>c_capabilities := []\<rparr>) w)"
    by (rule inv_upd_client [OF assms]) (simp_all add: client_ok_def)
  have request: "inv E A {} (upd_client c (\<lambda>r. r\<lparr>c_capabilities :=
      fold (\<lambda>cap m. if cap \<in> set m then m else m @ [cap]) (go_range E caps) (c_capabilities r)\<rparr>) w)"
    if "\<forall>cap \<in> set caps. cap \<in> set SupportedCapabilities"
    using that by (intro inv_upd_client [OF assms]) (auto simp: client_ok_def set_request go_range_set)
  show ?thesis
    using assms state clear request by (simp add: HandleRegServer_Cap_def Let_def inv_simps inv_tryRegister)
qed

end

section \<open>Every command\<close>

text \<open>What a command, with its password checked, grants to the client that sends it.\<close>

definition granted :: "'t go_env \<Rightarrow> 't world \<Rightarrow> client_id \<Rightarrow> Command \<Rightarrow> grant \<Rightarrow> bool" where
  "granted E w c cmd g =
     (case cmd of
        PassCommand _ _ err \<Rightarrow> g = Auth \<and> \<not> c_registered (cl w c) \<and> \<not> err
      | OperCommand _ hash _ err \<Rightarrow>
          if c_registered (cl w c) then g = Oper \<and> hash \<noteq> None \<and> \<not> err else g = Auth \<and> \<not> err
      | AuthenticateCommand arg \<Rightarrow> g = Account \<and> \<not> c_registered (cl w c) \<and> logs_in E w c arg
      | _ \<Rightarrow> False)"

definition grants_after :: "'t go_env \<Rightarrow> 't world \<Rightarrow> client_id \<Rightarrow> Command \<Rightarrow> grants \<Rightarrow> grants" where
  "grants_after E w c cmd A = (\<lambda>g. if granted E w c cmd g then insert c (A g) else A g)"

definition grants_of_line ::
  "'t go_env \<Rightarrow> 't world \<Rightarrow> client_id \<Rightarrow> string \<Rightarrow> grants \<Rightarrow> grants" where
  "grants_of_line E w c line A =
     (case ParseCommand E line of
        (_, Inr cmd) \<Rightarrow> grants_after E w c (check_password E cmd w) A
      | _ \<Rightarrow> A)"

lemma grants_after_mono: "A \<le> grants_after E w c cmd A"
  by (auto simp: grants_after_def le_fun_def)

lemma inv_mono: "inv E A X w \<Longrightarrow> A \<le> B \<Longrightarrow> inv E B X w"
proof -
  assume i: "inv E A X w" and "A \<le> B"
  then have sub: "A g \<subseteq> B g" for g by (simp add: le_fun_def)
  then have "client_ok E A c r \<Longrightarrow> client_ok E B c r" for c r
    using sub [of Oper] sub [of Auth] sub [of Account] sub [of Unwatched] by (auto simp: client_ok_def)
  with i show ?thesis using sub [of Fresh] by (auto simp: inv_def)
qed

lemma note_activity_inv:
  "act_inv E A c w \<Longrightarrow> act_inv E A c (note_activity c cmd w)"
  by (auto simp: note_activity_def act_inv_def inv_Touch inv_Active split: Command.split)

lemma note_activity_registered: "c_registered (cl (note_activity c cmd w) c) = c_registered (cl w c)"
  by (simp add: note_activity_def Touch_def Active_def split: Command.split)

lemma on_ret_act: "on_ret (act_inv E A c) r \<Longrightarrow> on_ret (inv E A {}) r"
  by (erule on_ret_mono) (simp add: act_inv_def)

context go_env_laws begin

lemma grants_after_none: "(\<And>g. \<not> granted E w c cmd g) \<Longrightarrow> grants_after E w c cmd A = A"
  by (simp add: grants_after_def)

lemma grants_after_one:
  "grants_after E w c (PassCommand hash pw err) A =
    (if \<not> c_registered (cl w c) \<and> \<not> err then A(Auth := insert c (A Auth)) else A)"
  "grants_after E w c (OperCommand name hash pw err) A =
    (if err then A else if \<not> c_registered (cl w c) then A(Auth := insert c (A Auth))
     else if hash \<noteq> None then A(Oper := insert c (A Oper)) else A)"
  "grants_after E w c (AuthenticateCommand arg) A =
    (if \<not> c_registered (cl w c) \<and> logs_in E w c arg then A(Account := insert c (A Account)) else A)"
  by (auto simp: grants_after_def granted_def fun_eq_iff)

lemma inv_HandleRegServer:
  assumes i: "act_inv E A c w" and new: "\<not> c_registered (cl w c)" and h: "HandleRegServer E c cmd = Some h"
  shows "on_ret (inv E (grants_after E w c cmd A) {}) (h w)"
proof -
  have w: "inv E A {} w" "c < w_next_client w" using i by (auto simp: act_inv_def alive_def)
  have plain: "on_ret (inv E A {}) (h w)"
    if "\<forall>hash pw err. cmd \<noteq> PassCommand hash pw err" "\<forall>name hash pw err. cmd \<noteq> OperCommand name hash pw err"
      "\<forall>arg. cmd \<noteq> AuthenticateCommand arg"
    using that h w inv_RegNick [OF i] inv_RFC1459User [OF i new] inv_RFC2812User [OF i new] inv_Cap inv_client_Quit
    by (cases cmd) (auto simp: HandleRegServer_def)
  have none: "grants_after E w c cmd A = A"
    if "\<forall>hash pw err. cmd \<noteq> PassCommand hash pw err" "\<forall>name hash pw err. cmd \<noteq> OperCommand name hash pw err"
      "\<forall>arg. cmd \<noteq> AuthenticateCommand arg"
    using that by (intro grants_after_none) (cases cmd, auto simp: granted_def)
  have login: "on_ret (inv E (grants_after E w c (AuthenticateCommand arg) A) {}) (HandleRegServer_Authenticate E c arg w)"
    for arg
    using inv_Authenticate [OF i, of arg] new by (simp add: grants_after_one)
  have pass: "on_ret (inv E (grants_after E w c cmd A) {}) (HandleRegServer_Pass E c err w)"
    if "(\<exists>hash pw. cmd = PassCommand hash pw err) \<or> (\<exists>name hash pw. cmd = OperCommand name hash pw err)" for err
    using that act_inv_Pass [OF i, of err] new by (auto simp: grants_after_one)
  show ?thesis
    using h plain none login pass by (cases cmd) (auto simp: HandleRegServer_def)
qed

lemma act_invD: "act_inv E A c w \<Longrightarrow> inv E A {} w"
  by (simp add: act_inv_def)

lemma inv_HandleServer:
  assumes i: "act_inv E A c w" and reg: "c_registered (cl w c)" and h: "HandleServer E c cmd = Some h"
  shows "on_ret (inv E (grants_after E w c cmd A) {}) (h w)"
proof (cases "\<exists>name hash pw err. cmd = OperCommand name hash pw err")
  case True
  then obtain name hash pw err where cmd: "cmd = OperCommand name hash pw err" by blast
  show ?thesis
    using h reg inv_Oper [OF act_invD [OF i], of hash err c]
    by (auto simp: cmd HandleServer_def grants_after_one split: if_splits)
next
  case False
  then have "grants_after E w c cmd A = A"
    using reg by (intro grants_after_none) (cases cmd, auto simp: granted_def)
  moreover have w: "inv E A {} w" "c < w_next_client w" using i by (auto simp: act_inv_def alive_def)
  note changes = act_inv_HandleJoin [OF i, THEN act_invD] act_inv_HandlePart [OF i, THEN act_invD]
    act_inv_Topic [OF i, THEN act_invD] act_inv_Mode [OF i, THEN act_invD]
    act_inv_ChannelMode [OF i, THEN act_invD] act_inv_Away [OF i, THEN act_invD]
    act_inv_HandleKick [OF i, THEN act_invD] act_inv_Invite [OF i, THEN act_invD]
  note results = inv_HandleNick [OF i reg] inv_HandleOperNick [OF w(1)] inv_client_Quit [OF w]
    inv_bundle [OF core_Notice w(1)] inv_bundle [OF core_Whois w(1)] inv_Rehash [OF w(1)] inv_Kill [OF w(1)]
    inv_bundle [OF core_Wallops w(1)] inv_WhoWas [OF w(1)]
  have "on_ret (inv E A {}) (h w)"
    using h False w
    by (cases cmd) (auto simp: HandleServer_def inv_simps changes results HandleServer_Wallops_def)
  ultimately show ?thesis by simp
qed

lemma granted_registered:
  assumes "c_registered (cl w c) = c_registered (cl w' c)" "c_registered (cl w c)"
  shows "grants_after E w c cmd A = grants_after E w' c cmd A"
  using assms by (auto simp: grants_after_def granted_def fun_eq_iff split: Command.split)

lemma inv_processCommand:
  assumes "act_inv E A c w"
  shows "on_ret (inv E (grants_after E w c cmd A) {}) (processCommand E c code cmd w)"
proof (cases "c_registered (cl w c)")
  case True
  let ?w = "note_activity c cmd (w\<lparr>w_commands := w_commands w + 1\<rparr>)"
  have "act_inv E A c (w\<lparr>w_commands := w_commands w + 1\<rparr>)"
    using assms by (simp add: act_inv_core [OF core_out(3)])
  then have i: "act_inv E A c ?w" by (rule note_activity_inv)
  have reg: "c_registered (cl ?w c)" using True by (simp add: note_activity_registered)
  have same: "grants_after E ?w c cmd A = grants_after E w c cmd A"
    by (rule granted_registered) (simp_all add: note_activity_registered True)
  have "inv E (grants_after E w c cmd A) {} (ErrUnknownCommand c code w)"
    using assms inv_mono [OF _ grants_after_mono] by (auto simp: act_inv_def inv_simps)
  then show ?thesis
    using True inv_HandleServer [OF i reg, of cmd, unfolded same]
    by (simp add: processCommand_def split: option.split)
next
  case False
  have "on_ret (inv E A {}) (client_Quit E c ''unexpected command'' w)"
    using assms by (intro inv_client_Quit) (auto simp: act_inv_def alive_def)
  then have quit: "on_ret (inv E (grants_after E w c cmd A) {}) (client_Quit E c ''unexpected command'' w)"
    by (rule on_ret_mono) (rule inv_mono [OF _ grants_after_mono])
  show ?thesis
    using False quit inv_HandleRegServer [OF assms False, of cmd]
    by (simp add: processCommand_def split: option.split)
qed

lemma inv_handle_line:
  assumes "act_inv E A c w"
  shows "on_ret (inv E (grants_of_line E w c line A) {}) (handle_line E c line w)"
proof -
  obtain code p where p: "ParseCommand E line = (code, p)" by force
  have "inv E A {} w" using assms by (rule act_invD)
  then show ?thesis
    using inv_processCommand [OF assms]
    by (cases p) (auto simp: handle_line_def grants_of_line_def p inv_simps split: parse_error.split)
qed

end

section \<open>The steps of the server\<close>

text \<open>
  A line is read from an open socket; a socket that is closed reads as one that has ended. A timer that fires is no longer armed. \<open>files\<close> is a change
  of the configuration file or of the files of the server by somebody else.
\<close>

inductive step :: "'t go_env \<Rightarrow> 't world \<Rightarrow> 't world \<Rightarrow> bool" for E where
  connect: "step E w (accept E tls hostname w)"
| line: "c < w_next_client w \<Longrightarrow> \<not> c_socket_closed (cl w c) \<Longrightarrow> handle_line E c line w = Ret w' \<Longrightarrow> step E w w'"
| disconnect: "c < w_next_client w \<Longrightarrow> connection_closed E c w = Ret w' \<Longrightarrow> step E w w'"
| quit_timer: "c < w_next_client w \<Longrightarrow> c_quitTimer (cl w c) = Some (Armed t) \<Longrightarrow> t \<le> w_clock w \<Longrightarrow>
    connectionTimeout E c (upd_client c (\<lambda>r. r\<lparr>c_quitTimer := Some Stopped\<rparr>) w) = Ret w' \<Longrightarrow> step E w w'"
| idle_timer: "c < w_next_client w \<Longrightarrow> c_idleTimer (cl w c) = Some (Armed t) \<Longrightarrow> t \<le> w_clock w \<Longrightarrow>
    step E w (Idle c (upd_client c (\<lambda>r. r\<lparr>c_idleTimer := Some Stopped\<rparr>) w))"
| shutdown: "Global E ''shutting down...'' w = Ret w' \<Longrightarrow> step E w w'"
| clock: "w_clock w \<le> t \<Longrightarrow> step E w (w\<lparr>w_clock := t\<rparr>)"
| files: "step E w (w\<lparr>w_files := fs\<rparr>)"

text \<open>The server before its first connection.\<close>

definition initial :: "'t go_env \<Rightarrow> 't world \<Rightarrow> bool" where
  "initial E w \<longleftrightarrow> w_next_client w = 0 \<and> w_next_chan w = 0 \<and> srv_nicks w = [] \<and>
     srv_channels w = cm_new (chan_map E) \<and> srv_whoWas w = NewWhoWasList 100"

inductive reachable :: "'t go_env \<Rightarrow> 't world \<Rightarrow> bool" for E where
  start: "initial E w \<Longrightarrow> reachable E w"
| more: "reachable E w \<Longrightarrow> step E w w' \<Longrightarrow> reachable E w'"

text \<open>In a reachable state every grant may have been made, but every connected client has a timer that runs.\<close>

definition watched_grants :: grants where
  "watched_grants g = (if g = Unwatched then {} else UNIV)"

context go_env_laws begin

lemma inv_initial: "initial E w \<Longrightarrow> inv E watched_grants {} w"
  by (simp add: watched_grants_def initial_def inv_def nick_inv_def chan_inv_def get_channel_def alive_def cn.cm_get_new)

lemma inv_new_client:
  assumes "inv E A {} w" "w_clients w' = (w_clients w)(w_next_client w := r)"
    "w_next_client w' = Suc (w_next_client w)" "w_next_chan w' = w_next_chan w" "srv_nicks w' = srv_nicks w"
    "srv_channels w' = srv_channels w" "w_chans w' = w_chans w"
    and r: "c_nick r = []" "c_channels r = set_new (chan_sets E)" "client_ok E A (w_next_client w) r"
  shows "inv E A {} w'"
proof -
  have inv: "nick_inv E w" "chan_inv E {} w" "\<And>d. d < w_next_client w \<Longrightarrow> client_ok E A d (cl w d)"
    using assms(1) by (auto simp: inv_def)
  have alive: "alive w' d \<longleftrightarrow> (if d = w_next_client w then \<not> c_hasQuit r else alive w d)" for d
    by (auto simp: alive_def assms(2,3))
  have "nick_inv E w'"
    using inv(1) r(1) unfolding nick_inv_def alive assms(2,5) by (auto simp: alive_def)
  moreover have "chan_inv E {} w'"
  proof (rule chan_invI)
    show "ch < w_next_chan w' \<and> IsChannel E (chan_str w' ch) \<and> chan_key (chan_map E) n = chan_key (chan_map E) (chan_str w' ch) \<and>
        (ch \<in> {} \<or> (\<exists>c. is_member E w' ch c))" if "get_channel E w' n = Some ch" for n ch
      using chan_inv_named [OF inv(2), of n ch] that unfolding get_channel_def assms(4,6,7) .
    show "alive w' c \<and> set_has (chan_sets E) (c_channels (cl w' c)) ch \<and> get_channel E w' (chan_str w' ch) = Some ch"
      if "ch < w_next_chan w'" "is_member E w' ch c" for ch c
      using chan_inv_member [OF inv(2), of ch c] that
      unfolding get_channel_def alive assms(2,4,6,7) by (auto simp: alive_def)
    show "ch < w_next_chan w'"
      if "c < w_next_client w'" "set_has (chan_sets E) (c_channels (cl w' c)) ch" for c ch
      using chan_inv_listed [OF inv(2), of c ch] that r(2)
      by (auto simp: assms(2,3,4) cs.set_has_new less_Suc_eq split: if_splits)
  qed
  moreover have "client_ok E A d (cl w' d)" if "d < w_next_client w'" for d
    using inv(3) [of d] that r(3) by (auto simp: assms(2,3) less_Suc_eq)
  moreover have "c < w_next_client w' \<or> c \<in> A Fresh" for c
    using assms(1,3) by (auto simp: inv_def intro: less_SucI)
  ultimately show ?thesis by (simp add: inv_def)
qed

lemma inv_accept:
  assumes i: "inv E A {} w" and new: "w_next_client w \<in> A Auth"
  shows "inv E A {} (accept E tls hostname w)"
proof -
  let ?u = "count_connection E tls w"
  have u: "w_clients ?u = w_clients w" "w_next_client ?u = w_next_client w" "w_next_chan ?u = w_next_chan w"
    "srv_nicks ?u = srv_nicks w" "srv_channels ?u = srv_channels w" "w_chans ?u = w_chans w"
    by (simp_all add: count_connection_def)
  have ne: "SecureConn \<noteq> Operator" "SecureConn \<noteq> Registered" by (simp_all add: user_mode_defs)
  have "inv E A {} (snd (NewClient E tls hostname ?u))"
    by (rule inv_new_client [OF i])
      (auto simp: NewClient_def Let_def Touch_def upd_client_def u client_ok_def new ne ne [symmetric] um.set_has_add um.set_has_new
        split: if_splits)
  then show ?thesis by (simp add: accept_def)
qed

text \<open>A timer that fires leaves its client unwatched, until the client is pinged or quits.\<close>

lemma inv_timer:
  "inv E A {} w \<Longrightarrow> inv E (A(Unwatched := insert c (A Unwatched))) {} (upd_client c (\<lambda>r. r\<lparr>c_quitTimer := t\<rparr>) w)"
  "inv E A {} w \<Longrightarrow> inv E (A(Unwatched := insert c (A Unwatched))) {} (upd_client c (\<lambda>r. r\<lparr>c_idleTimer := t\<rparr>) w)"
proof -
  assume i: "inv E A {} w"
  have "inv E (A(Unwatched := insert c (A Unwatched))) {} w"
    by (rule inv_mono [OF i]) (auto simp: le_fun_def)
  then show "inv E (A(Unwatched := insert c (A Unwatched))) {} (upd_client c (\<lambda>r. r\<lparr>c_quitTimer := t\<rparr>) w)"
    "inv E (A(Unwatched := insert c (A Unwatched))) {} (upd_client c (\<lambda>r. r\<lparr>c_idleTimer := t\<rparr>) w)"
    by (rule inv_upd_client; simp add: client_ok_def)+
qed

lemma inv_watched:
  assumes "inv E (A(Unwatched := insert c (A Unwatched))) {} w"
    and "c_hasQuit (cl w c) \<or> watched (c_idleTimer (cl w c)) (c_quitTimer (cl w c))"
  shows "inv E A {} w"
proof -
  have "client_ok E A d (cl w d)" if "client_ok E (A(Unwatched := insert c (A Unwatched))) d (cl w d)" for d
    using that assms(2) by (cases "d = c") (auto simp: client_ok_def)
  then show ?thesis using assms(1) by (auto simp: inv_def)
qed

lemma inv_Idle:
  assumes "inv E A {} w"
  shows "inv E A {} (Idle c w)"
proof -
  have "inv E A {} (upd_client c (\<lambda>r. r\<lparr>c_pingTime := w_clock w\<rparr>) w)"
    by (rule inv_upd_client [OF assms]) (simp_all add: client_ok_def)
  then have "inv E A {} (Reply c s (upd_client c (\<lambda>r. r\<lparr>c_pingTime := w_clock w\<rparr>) w))" for s
    by (simp add: inv_simps)
  then show ?thesis
    unfolding Idle_def Let_def by (rule inv_upd_client) (simp_all add: client_ok_def)
qed

lemma inv_Idle_fired: "inv E A {} w \<Longrightarrow> inv E A {} (Idle c (upd_client c (\<lambda>r. r\<lparr>c_idleTimer := t\<rparr>) w))"
  by (rule inv_watched [OF inv_Idle [OF inv_timer(2)]]) (simp_all add: Idle_def Let_def)

lemma inv_quit_command:
  assumes "inv E A {} w" "c < w_next_client w"
  shows "on_ret (inv E A {}) (processCommand E c ''QUIT'' (QuitCommand s) w)"
proof -
  have "inv E A {} (w\<lparr>w_commands := n\<rparr>)" for n using assms(1) by (simp add: inv_simps)
  then have "on_ret (inv E A {}) (client_Quit E c s (w\<lparr>w_commands := n\<rparr>))" for n
    using assms(2) by (intro inv_client_Quit) simp_all
  moreover have "on_ret (inv E A {}) (client_Quit E c s w)" using assms by (rule inv_client_Quit)
  ultimately show ?thesis
    by (simp add: processCommand_def HandleServer_def HandleRegServer_def note_activity_def)
qed

lemma line_grants: "grants_of_line E w c line watched_grants \<le> watched_grants"
  by (auto simp: le_fun_def watched_grants_def grants_of_line_def grants_after_def granted_def
      split: prod.splits sum.splits Command.splits if_splits)

lemma quit_command_quits:
  assumes "inv E A {} w" "processCommand E c ''QUIT'' (QuitCommand s) w = Ret v"
  shows "c_hasQuit (cl v c)"
proof -
  define u where "u = (if c_registered (cl w c) then w\<lparr>w_commands := w_commands w + 1\<rparr> else w)"
  have q: "client_Quit E c s u = Ret v"
    using assms(2) by (auto simp: processCommand_def HandleServer_def HandleRegServer_def note_activity_def u_def)
  have "inv E A {} u" using assms(1) by (simp add: u_def inv_simps)
  from client_Quit_result [OF this q] show ?thesis by (auto simp: same_state_def)
qed

lemma inv_step:
  assumes "inv E watched_grants {} w" "step E w w'"
  shows "inv E watched_grants {} w'"
  using assms(2)
proof (cases rule: step.cases)
  case (connect tls hostname)
  then show ?thesis using inv_accept [OF assms(1)] by (simp add: watched_grants_def)
next
  case (line c s)
  have "client_ok E watched_grants c (cl w c)" using assms(1) line(1) by (simp add: inv_def)
  then have "act_inv E watched_grants c w"
    using assms(1) line by (simp add: act_inv_def alive_def client_ok_def)
  from inv_handle_line [OF this, of s] line have "inv E (grants_of_line E w c s watched_grants) {} w'"
    by (simp add: on_ret_iff)
  then show ?thesis by (rule inv_mono) (rule line_grants)
next
  case (disconnect c)
  then show ?thesis
    using inv_quit_command [OF assms(1) disconnect(1)] by (simp add: connection_closed_def on_ret_iff)
next
  case (quit_timer c t)
  have i: "inv E (watched_grants(Unwatched := insert c (watched_grants Unwatched))) {}
      (upd_client c (\<lambda>r. r\<lparr>c_quitTimer := Some Stopped\<rparr>) w)"
    by (rule inv_timer(1) [OF assms(1)])
  have q: "processCommand E c ''QUIT'' (QuitCommand ''connection timeout'')
      (upd_client c (\<lambda>r. r\<lparr>c_quitTimer := Some Stopped\<rparr>) w) = Ret w'"
    using quit_timer(4) by (simp add: connectionTimeout_def)
  have "inv E (watched_grants(Unwatched := insert c (watched_grants Unwatched))) {} w'"
    using inv_quit_command [OF i, of c] q quit_timer(1) by (simp add: on_ret_iff)
  then show ?thesis by (rule inv_watched) (use quit_command_quits [OF i q] in simp)
next
  case (idle_timer c t)
  then show ?thesis using assms(1) by (simp add: inv_Idle_fired)
next
  case shutdown
  then show ?thesis using inv_bundle [OF core_Global assms(1)] by (simp add: on_ret_iff)
next
  case (clock t)
  then have "same_state w' w" by (simp add: same_state_def)
  then show ?thesis using inv_same assms(1) by blast
next
  case (files fs)
  then have "same_state w' w" by (simp add: same_state_def)
  then show ?thesis using inv_same assms(1) by blast
qed

lemma reachable_watched_inv: "reachable E w \<Longrightarrow> inv E watched_grants {} w"
proof (induction rule: reachable.induct)
  case (start w)
  then show ?case by (rule inv_initial)
next
  case (more w w')
  then show ?case using inv_step by blast
qed

lemma reachable_inv: "reachable E w \<Longrightarrow> inv E (\<lambda>_. UNIV) {} w"
  by (rule inv_mono [OF reachable_watched_inv]) (auto simp: le_fun_def)

end

section \<open>Who is granted what\<close>

primrec has_grant :: "'t go_env \<Rightarrow> 't world \<Rightarrow> client_id \<Rightarrow> grant \<Rightarrow> bool" where
  "has_grant E w d Oper \<longleftrightarrow> has_mode E w d Operator"
| "has_grant E w d Auth \<longleftrightarrow> c_authorized (cl w d)"
| "has_grant E w d Account \<longleftrightarrow> has_mode E w d Registered"
| "has_grant E w d Fresh \<longleftrightarrow> w_next_client w \<le> d"
| "has_grant E w d Unwatched \<longleftrightarrow> alive w d \<and> \<not> watched (c_idleTimer (cl w d)) (c_quitTimer (cl w d))"

lemma granted_Oper: "granted E w c (check_password E cmd w) Oper \<longleftrightarrow>
    c_registered (cl w c) \<and> (\<exists>name hash pw err h. cmd = OperCommand name hash pw err \<and>
      map_of (srv_operators w) name = Some h \<and> bcrypt_ok E h pw)"
  by (cases cmd) (auto simp: granted_def check_password_def ComparePassword_def split: option.split)

text \<open>
  The commands that authorize: PASS with the right password (any is, when the server has none), OPER
  with the right password of an operator, and OPER with the name of no operator at all.
\<close>

lemma granted_Auth: "granted E w c (check_password E cmd w) Auth \<Longrightarrow>
    \<not> c_registered (cl w c) \<and>
    ((\<exists>hash0 pw err0. cmd = PassCommand hash0 pw err0 \<and>
        (case srv_password w of None \<Rightarrow> True | Some h \<Rightarrow> bcrypt_ok E h pw)) \<or>
     (\<exists>name hash0 pw err0 h. cmd = OperCommand name hash0 pw err0 \<and>
        map_of (srv_operators w) name = Some h \<and> bcrypt_ok E h pw) \<or>
     (\<exists>name hash0 pw err0. cmd = OperCommand name hash0 pw err0 \<and> map_of (srv_operators w) name = None))"
  by (cases cmd) (auto simp: granted_def check_password_def ComparePassword_def split: option.splits if_splits)

lemma granted_Account: "granted E w c (check_password E cmd w) Account \<longleftrightarrow>
    \<not> c_registered (cl w c) \<and> (\<exists>arg. cmd = AuthenticateCommand arg \<and> logs_in E w c arg)"
  by (cases cmd) (auto simp: granted_def check_password_def split: option.split)

lemma logs_inD: "logs_in E w c arg \<Longrightarrow> c_authorized (cl w c) \<and>
    (\<exists>blob user authzid pw.
      b64_decode (sasl_buffer (c_sasl (cl w c)) @ (if arg = ''+'' then [] else arg)) = Some blob \<and>
      split_on (CHR 0x00) blob = [user, authzid, pw] \<and> authzid \<in> {[], user} \<and>
      store_Verify E (srv_accounts w) user pw)"
  by (auto simp: logs_in_def blob_ok_def split: option.splits list.splits if_splits)

context go_env_laws begin

lemma line_keeps_clients:
  assumes "reachable E w" "c < w_next_client w" "\<not> c_socket_closed (cl w c)"
    and "handle_line E c line w = Ret w'"
  shows "w_next_client w \<le> w_next_client w'"
proof -
  let ?A = "\<lambda>g. if g = Fresh then {w_next_client w..} else UNIV"
  have "inv E (\<lambda>_. UNIV) {} w" by (rule reachable_inv [OF assms(1)])
  then have "inv E ?A {} w" "alive w c"
    using assms(2,3) by (auto simp: inv_def client_ok_def alive_def)
  then have "act_inv E ?A c w" by (simp add: act_inv_def)
  from inv_handle_line [OF this, of line] assms(4) have "inv E (grants_of_line E w c line ?A) {} w'" by simp
  moreover have "grants_of_line E w c line ?A Fresh = {w_next_client w..}"
    by (auto simp: grants_of_line_def grants_after_def granted_def split: prod.splits sum.splits Command.splits)
  ultimately have "d < w_next_client w' \<or> w_next_client w \<le> d" for d by (auto simp: inv_def)
  then show ?thesis using not_less by blast
qed

lemma grant_of_line:
  assumes "reachable E w" "c < w_next_client w" "\<not> c_socket_closed (cl w c)"
    and "handle_line E c line w = Ret w'" "d < w_next_client w'" "has_grant E w' d g"
  shows "has_grant E w d g \<or>
    d = c \<and> (\<exists>code cmd. ParseCommand E line = (code, Inr cmd) \<and> granted E w c (check_password E cmd w) g)"
proof -
  let ?A = "\<lambda>g. {e. has_grant E w e g}"
  have "inv E (\<lambda>_. UNIV) {} w" by (rule reachable_inv [OF assms(1)])
  then have "inv E ?A {} w" "alive w c"
    using assms(2,3) by (auto simp: inv_def client_ok_def alive_def)
  then have "act_inv E ?A c w" by (simp add: act_inv_def)
  from inv_handle_line [OF this, of line] assms(4) have "inv E (grants_of_line E w c line ?A) {} w'" by simp
  then have "d \<in> grants_of_line E w c line ?A g"
    using assms(5,6) by (cases g) (auto simp: inv_def client_ok_def alive_def)
  then show ?thesis
    by (auto simp: grants_of_line_def grants_after_def split: prod.splits sum.splits if_splits)
qed

end

section \<open>Friends, and what a stale channel does to WHOIS\<close>

lemma destroy_out: "destroy E c w = Ret v \<Longrightarrow> w_out v = w_out w"
proof -
  have "w_out (fold (\<lambda>ch. channel_Quit E ch c) chs u) = w_out u" for chs and u :: "'a world"
    by (induction chs arbitrary: u) auto
  moreover have "w_out (snd (nick_remove E c u)) = w_out u" for u :: "'a world"
    by (simp add: nick_remove_def)
  moreover have "w_out (upd_client c f u) = w_out u" for f and u :: "'a world" by simp
  ultimately show "destroy E c w = Ret v \<Longrightarrow> w_out v = w_out w"
    by (auto simp: destroy_def Let_def split: if_splits)
qed

context go_env_laws begin

lemma Friends_has:
  "set_has (client_sets E) (Friends E w c) d \<longleftrightarrow>
    d = c \<or> (\<exists>ch. set_has (chan_sets E) (c_channels (cl w c)) ch \<and> is_member E w ch d)"
proof -
  have inner: "set_has (client_sets E) (fold (\<lambda>m st. set_add (client_sets E) st m) ms s) d \<longleftrightarrow>
      d \<in> set ms \<or> set_has (client_sets E) s d" for ms s
    by (induction ms arbitrary: s) (auto simp: cl.set_has_add)
  have members: "set (members E w ch) = {d. is_member E w ch d}" for ch
    unfolding members_def by (rule mem.mem_range_fst)
  have outer: "set_has (client_sets E) (fold (\<lambda>ch st. fold (\<lambda>m st. set_add (client_sets E) st m) (members E w ch) st) chs s) d \<longleftrightarrow>
      (\<exists>ch \<in> set chs. is_member E w ch d) \<or> set_has (client_sets E) s d" for chs s
    by (induction chs arbitrary: s) (auto simp: inner members)
  show ?thesis
    unfolding Friends_def outer by (auto simp: cs.set_range_has cl.set_has_add cl.set_has_new)
qed

lemma whois_names_panic:
  assumes nil: "nil_receiver_panics E"
    and "set_has (chan_sets E) (c_channels (cl w d)) ch" "\<not> is_member E w ch d" "CanSeeChannel E w c ch"
  shows "WhoisChannelsNames E w d c = Panic"
proof -
  let ?f = "\<lambda>ch chstrs. if \<not> CanSeeChannel E w c ch then Ret chstrs
      else and_then (whois_channel_name E w d ch) (\<lambda>s. Ret (chstrs @ [s]))"
  have one: "whois_channel_name E w d ch = Panic"
    using assms(3) nil by (simp add: whois_channel_name_def modes_has_def nil_receiver_panics_def mem.mem_has_get)
  have "iterate ?f chs acc = Panic" if "ch \<in> set chs" for chs acc
    using that
  proof (induction chs arbitrary: acc)
    case (Cons ch' chs)
    show ?case
    proof (cases "ch' = ch")
      case True
      with one assms(4) show ?thesis by simp
    next
      case False
      with Cons have "iterate ?f chs a = Panic" for a by simp
      moreover have "whois_channel_name E w d ch' \<noteq> Blocked"
        using nil by (simp add: whois_channel_name_def modes_has_def nil_receiver_panics_def Let_def split: option.split)
      ultimately show ?thesis by (cases "whois_channel_name E w d ch'") auto
    qed
  qed simp
  moreover have "ch \<in> set (set_range (chan_sets E) (c_channels (cl w d)))"
    using assms(2) by (simp add: cs.set_range_has)
  ultimately show ?thesis by (simp add: WhoisChannelsNames_def)
qed

lemma whois_stale_panics:
  assumes nil: "nil_receiver_panics E"
    and "set_has (chan_sets E) (c_channels (cl w d)) ch" "\<not> is_member E w ch d" "CanSeeChannel E w c ch"
  shows "RplWhois E c d w = Panic"
proof -
  define w3 where "w3 = RplWhoisIdle c d (if has_mode E (RplWhoisUser E c d w) d Operator
      then RplWhoisOperator c d (RplWhoisUser E c d w) else RplWhoisUser E c d w)"
  have core: "core w3 = core w" by (simp add: w3_def core_simps)
  have "WhoisChannelsNames E w3 d c = Panic"
    using assms by (intro whois_names_panic [where ch = ch])
      (simp_all add: core_clients [OF core] core_chans [OF core] CanSeeChannel_def)
  then show ?thesis by (simp add: RplWhois_def Let_def w3_def [symmetric] RplWhoisChannels_def)
qed

end

end
