(* ===== verification/Progress.thy ===== *)
theory Progress
  imports Reachable
begin

text \<open>
  When the handling of a line comes to an end: the ring of departed clients stays well formed, and
  with that a command returns unless it is one of a few that can panic. What they are is the
  predicate \<open>risky\<close>.
\<close>

section \<open>The log of departed clients\<close>

text \<open>Most of this is about any property \<open>Q\<close> of the log that \<open>Append\<close> keeps.\<close>

definition log_in :: "(WhoWasList \<Rightarrow> bool) \<Rightarrow> 't world \<Rightarrow> bool" where
  "log_in Q w \<longleftrightarrow> Q (srv_whoWas w)"

abbreviation log_ok :: "'t world \<Rightarrow> bool" where
  "log_ok \<equiv> log_in whowas_wf"

definition log_free :: "WhoWasList \<Rightarrow> bool" where
  "log_free l \<longleftrightarrow> whowas_wf l \<and> whowas_free l"

lemma log_core: "core w' = core w \<Longrightarrow> log_in Q w' = log_in Q w"
  by (simp add: log_in_def core_fields(7) [of w' w])

lemmas log_simps = core_replies [THEN log_core] core_Reply [THEN log_core]
  core_reply_all [THEN log_core] core_NumericReply [THEN log_core]
  core_to_members [THEN log_core] core_channel_talk [THEN log_core]
  core_ShowMaskList [THEN log_core] core_answers [THEN log_core]
  core_PrivMsg [THEN log_core] core_queries [THEN log_core] core_out [THEN log_core]

lemma log_upd [simp]:
  "log_in Q (upd_client c f w) = log_in Q w" "log_in Q (upd_chan ch g w) = log_in Q w"
  "log_in Q (w\<lparr>srv_channels := s\<rparr>) = log_in Q w" "log_in Q (w\<lparr>w_next_chan := n\<rparr>) = log_in Q w"
  "log_in Q (snd (nick_add E c w)) = log_in Q w" "log_in Q (snd (nick_remove E c w)) = log_in Q w"
  by (simp_all add: log_in_def)

lemma log_fold: "(\<And>x w. log_in Q w \<Longrightarrow> log_in Q (f x w)) \<Longrightarrow> log_in Q w \<Longrightarrow> log_in Q (fold f xs w)"
  by (induction xs arbitrary: w) auto

lemma log_Quit [simp]: "log_in Q (channel_Quit E ch c w) = log_in Q w"
  by (simp add: channel_Quit_def set_members_def Let_def)

lemma log_Part [simp]: "log_in Q (channel_Part E ch c s w) = log_in Q w"
  by (simp add: channel_Part_def log_simps)

lemma log_Kick [simp]: "log_in Q (channel_Kick E ch c d s w) = log_in Q w"
  by (simp add: channel_Kick_def log_simps)

lemma log_joined: "log_in Q (joined E ch c w) = log_in Q w"
  by (simp add: log_in_def)

lemma log_Join [simp]: "log_in Q (channel_Join E ch c key w) = log_in Q w"
  using log_core [OF core_Join, of Q E ch c key w] by (simp add: log_joined split: if_splits)

lemma log_join_one: "log_in Q w \<Longrightarrow> log_in Q (join_one E c entry w)"
  by (simp add: join_one_def NewChannel_def Let_def log_simps case_prod_beta split: option.split)

lemma log_applyMode: "log_in Q (snd (applyMode E ch c change w)) = log_in Q w"
proof (cases "cmc_mode change = UserLimit")
  case True
  have "log_in Q (snd (applyModeLimit ch c s w)) = log_in Q w" for s
    by (simp add: applyModeLimit_def log_simps split: option.split)
  with True show ?thesis by (simp add: applyMode_def chan_mode_defs)
next
  case False
  show ?thesis
  proof (rule applyMode_cases [OF False])
    show "log_in Q (snd (applyModeMask E ch c m op s w)) = log_in Q w" for m op s
      by (simp add: applyModeMask_def set_mask_list_def log_simps split: option.split prod.split)
    show "log_in Q (snd (applyModeFlag E ch c m op w)) = log_in Q w" for m op
      by (simp add: applyModeFlag_def set_flags_def log_simps split: ModeOp.split)
    show "log_in Q (snd (applyModeKey E ch c op s w)) = log_in Q w" for op s
      by (simp add: applyModeKey_def Let_def log_simps split: ModeOp.split)
    show "log_in Q (snd (applyModeMember E ch c m op s w)) = log_in Q w" for m op s
      by (simp add: applyModeMember_def set_members_def log_simps split: ModeOp.split option.split)
  qed (simp add: log_simps)
qed

lemma log_apply_changes: "log_in Q (snd (apply_changes E ch c changes w)) = log_in Q w"
  by (induction changes arbitrary: w) (simp_all add: case_prod_beta Let_def log_applyMode)

lemma log_channel_handlers:
  assumes "log_in Q w"
  shows "log_in Q (HandleServer_Join E c chs zero w)" "log_in Q (HandleServer_Part E c names msg w)"
    "log_in Q (HandleServer_Kick E c kicks msg w)" "log_in Q (HandleServer_Topic E c name b topic w)"
    "log_in Q (HandleServer_ChannelMode E c name changes w)" "log_in Q (HandleServer_Invite E c nick name w)"
proof -
  show "log_in Q (HandleServer_Join E c chs zero w)"
    using assms by (simp add: HandleServer_Join_def log_fold log_join_one)
  show "log_in Q (HandleServer_Part E c names msg w)" unfolding HandleServer_Part_def
    by (rule log_fold [OF _ assms]) (simp add: log_simps split: option.split)
  show "log_in Q (HandleServer_Kick E c kicks msg w)" unfolding HandleServer_Kick_def
    by (rule log_fold [OF _ assms]) (simp add: log_simps case_prod_beta split: option.split)
  show "log_in Q (HandleServer_Topic E c name b topic w)"
    using assms by (simp add: HandleServer_Topic_def SetTopic_def Let_def log_simps split: option.split)
  show "log_in Q (HandleServer_ChannelMode E c name changes w)"
    using assms by (simp add: HandleServer_ChannelMode_def channel_Mode_def log_simps log_apply_changes
        case_prod_beta split: option.split)
  show "log_in Q (HandleServer_Invite E c nick name w)"
    using assms by (simp add: HandleServer_Invite_def channel_Invite_def set_mask_list_def Let_def log_simps
        split: option.split)
qed

lemma log_user_changes: "log_in Q (snd (apply_user_changes E c changes w)) = log_in Q w"
  by (induction changes arbitrary: w) (simp_all add: case_prod_beta Let_def)

lemma log_tryRegister [simp]: "log_in Q (tryRegister E c w) = log_in Q w"
  by (simp add: tryRegister_def Register_def Touch_def log_simps)

lemma log_SetNickname [simp]: "log_in Q (SetNickname E c nick w) = log_in Q w"
  by (simp add: SetNickname_def)

lemma log_setUserInfo [simp]: "log_in Q (setUserInfo E c u r w) = log_in Q w"
  by (simp add: setUserInfo_def Let_def)

lemma log_client_handlers:
  "log_in Q (HandleServer_Mode E c s changes w) = log_in Q w" "log_in Q (HandleServer_Away E c s w) = log_in Q w"
  "log_in Q (HandleServer_Oper E c hash err w) = log_in Q w" "log_in Q (note_activity c cmd w) = log_in Q w"
  "log_in Q (sasl_authenticate E c blob w) = log_in Q w" "log_in Q (Idle c w) = log_in Q w"
  by (simp_all add: HandleServer_Mode_def HandleServer_Away_def HandleServer_Oper_def note_activity_def
      sasl_authenticate_def Idle_def Touch_def Active_def Let_def log_simps log_user_changes case_prod_beta
      split: option.split Command.split list.split)

section \<open>Operations that write to the log\<close>

lemma on_ret_log: "on_ret (\<lambda>v. core v = core w) r \<Longrightarrow> log_in Q w \<Longrightarrow> on_ret (log_in Q) r"
  by (erule on_ret_mono) (use log_core in blast)

lemma append_returns:
  assumes "log_ok w" "whowas_free (srv_whoWas w)"
  shows "returns (\<lambda>v. \<exists>l. v = w\<lparr>srv_whoWas := l\<rparr>) (append_whowas c w)"
proof -
  obtain e where e: "append_whowas c w = and_then (whowas_append (srv_whoWas w) e) (\<lambda>l. Ret (w\<lparr>srv_whoWas := l\<rparr>))"
    by (rule that, rule append_whowas_def)
  have "whowas_wf (srv_whoWas w)" using assms(1) by (simp add: log_in_def)
  from whowas_log.append_returns [OF this assms(2), of e] show ?thesis unfolding e by auto
qed

lemma destroy_log: "on_ret (\<lambda>v. log_in Q v = log_in Q w) (destroy E c w)"
proof -
  have "srv_whoWas (fold (\<lambda>ch. channel_Quit E ch c) chs w) = srv_whoWas w" for chs and w :: "'a world"
    by (induction chs arbitrary: w) simp_all
  then show ?thesis by (auto simp: destroy_def Let_def log_in_def)
qed

text \<open>A property that \<open>Append\<close> keeps is kept by the commands, if WHOWAS keeps it.\<close>

locale kept_log =
  fixes Q :: "WhoWasList \<Rightarrow> bool"
  assumes append_keeps: "Q l \<Longrightarrow> whowas_append l e = Ret l' \<Longrightarrow> Q l'"
begin

lemma append_log: "log_in Q w \<Longrightarrow> on_ret (log_in Q) (append_whowas c w)"
  by (auto simp: append_whowas_def log_in_def on_ret_iff and_then_Ret_iff intro: append_keeps)

lemma log_ChangeNickname: "log_in Q w \<Longrightarrow> on_ret (log_in Q) (ChangeNickname E c nick w)"
  unfolding ChangeNickname_def Let_def
  by (rule on_ret_and_then [OF append_log]) (simp_all add: log_simps)

lemma log_client_Quit: "log_in Q w \<Longrightarrow> on_ret (log_in Q) (client_Quit E c msg w)"
proof -
  assume log: "log_in Q w"
  define w2 where "w2 = Reply c (RplError ''quit'') (upd_client c (\<lambda>r. r\<lparr>c_hasQuit := True\<rparr>) w)"
  have "log_in Q w2" using log by (simp add: w2_def log_simps)
  then have "on_ret (log_in Q) (and_then (append_whowas c w2)
      (\<lambda>w3. and_then (destroy E c w3) (\<lambda>w4. Ret (if set_count (client_sets E) (set_remove (client_sets E) (Friends E w3 c) c) > 0
        then reply_all (set_range (client_sets E) (set_remove (client_sets E) (Friends E w3 c) c)) (RplQuit w4 c msg) w4
        else w4))))"
    by (intro on_ret_and_then [OF append_log] on_ret_and_then [OF destroy_log]) (auto simp: log_simps)
  with log show ?thesis by (simp add: client_Quit_def Let_def w2_def)
qed

end

lemma find_wf: "whowas_wf l \<Longrightarrow> on_ret (\<lambda>(_, l'). whowas_wf l') (whowas_find l nick limit)"
proof -
  assume "whowas_wf l"
  then have "whowas_wf (l\<lparr>leaked := k\<rparr>)" for k by (simp add: whowas_wf_def ring_list_def)
  with \<open>whowas_wf l\<close> show ?thesis
    by (auto simp: whowas_find_def on_ret_iff and_then_Ret_iff split: option.splits)
qed

lemma log_WhoWas: "log_ok w \<Longrightarrow> returns log_ok (HandleServer_WhoWas E c nicks lim w)"
  unfolding HandleServer_WhoWas_def
proof (rule returns_iterate)
  fix nick and w :: "'a world" assume log: "log_ok w"
  have rs: "log_ok (fold (RplWhoWasUser E c) rs u) = log_ok u" for rs and u :: "'a world"
    by (rule log_core) (simp add: core_fold core_simps)
  obtain results l where "whowas_find (srv_whoWas w) nick lim = Ret (results, l)"
    using whowas_find_returns log unfolding log_in_def by blast
  with find_wf [of "srv_whoWas w" nick lim] log
  show "returns log_ok (and_then (whowas_find (srv_whoWas w) nick lim) (\<lambda>(results, l).
      let w1 = w\<lparr>srv_whoWas := l\<rparr>; w2 = if results = [] then ErrWasNoSuchNick c nick w1
        else fold (RplWhoWasUser E c) results w1 in Ret (RplEndOfWhoWas c nick w2)))"
    by (simp add: Let_def log_simps rs) (simp add: log_in_def)
qed

lemma log_Rehash: "log_in Q w \<Longrightarrow> on_ret (log_in Q) (HandleServer_Rehash E c w)"
proof -
  assume log: "log_in Q w"
  have rehash: "on_ret (\<lambda>(err, v). log_in Q v) (Rehash E u)" if "log_in Q u" for u :: "'a world"
    using that unfolding Rehash_def Reload_def
    by (cases "LoadConfig E (w_files u) (cfg_filename (srv_config u))")
      (auto simp: log_in_def Let_def on_ret_iff and_then_Ret_iff split: sum.splits)
  have "on_ret (log_in Q) (and_then (Wallops E s w) (\<lambda>w1. and_then (Rehash E w1)
      (\<lambda>(err, w2). case err of Some e \<Rightarrow> Wallops E (f e) w2 | None \<Rightarrow> Ret (RplRehashing c w2))))" for s f
    by (rule on_ret_and_then [OF on_ret_log [OF core_Wallops log]], rule on_ret_and_then [OF rehash])
      (auto simp: log_simps intro: on_ret_log [OF core_Wallops] split: option.split)
  with log show ?thesis by (simp add: HandleServer_Rehash_def log_simps)
qed

section \<open>The log in the reachable states\<close>

context kept_log begin

lemma log_HandleRegServer:
  assumes "log_in Q w" "HandleRegServer E c cmd = Some h"
  shows "on_ret (log_in Q) (h w)"
proof -
  have quit: "on_ret (log_in Q) (bad_password E c w)"
    using assms(1) unfolding bad_password_def by (intro log_client_Quit) (simp add: log_simps)
  have flags: "log_in Q (fold (\<lambda>m. upd_client c (set_mode E m)) ms w)" for ms
    using assms(1) by (intro log_fold) simp_all
  show ?thesis
    using assms quit log_client_Quit [OF assms(1)]
    by (cases cmd) (auto simp: HandleRegServer_def HandleRegServer_Pass_def HandleRegServer_Nick_def
        HandleRegServer_RFC1459User_def HandleRegServer_RFC2812User_def HandleRegServer_Authenticate_def
        HandleRegServer_Cap_def Let_def log_simps log_client_handlers flags split: option.split)
qed

lemma log_HandleServer:
  assumes "log_in Q w" "HandleServer E c cmd = Some h"
    and find: "\<And>nicks lim target u. cmd = WhoWasCommand nicks lim target \<Longrightarrow> log_in Q u \<Longrightarrow>
      on_ret (log_in Q) (HandleServer_WhoWas E c nicks lim u)"
  shows "on_ret (log_in Q) (h w)"
proof -
  note log = assms(1)
  note results = log_client_Quit [OF log] on_ret_log [OF core_Notice log] on_ret_log [OF core_Whois log]
    on_ret_log [OF core_Wallops log] log_Rehash [OF log] log_ChangeNickname [OF log]
  show ?thesis
    using assms(1,2) results find [OF _ log]
    by (cases cmd) (auto simp: HandleServer_def HandleServer_Nick_def HandleServer_OperNick_def HandleServer_Kill_def
        HandleServer_Wallops_def log_simps log_channel_handlers log_client_handlers split: option.split)
qed

lemma log_processCommand:
  assumes log: "log_in Q w"
    and find: "\<And>nicks lim target u. cmd = WhoWasCommand nicks lim target \<Longrightarrow> log_in Q u \<Longrightarrow>
      on_ret (log_in Q) (HandleServer_WhoWas E c nicks lim u)"
  shows "on_ret (log_in Q) (processCommand E c code cmd w)"
proof -
  have "log_in Q (note_activity c cmd (w\<lparr>w_commands := w_commands w + 1\<rparr>))"
    using log by (simp add: log_client_handlers log_simps)
  with log show ?thesis
    by (auto simp: processCommand_def log_simps log_client_Quit intro: log_HandleServer find log_HandleRegServer
        split: option.split)
qed

lemma log_handle_line:
  assumes log: "log_in Q w"
    and find: "\<And>code nicks lim target u. ParseCommand E line = (code, Inr (WhoWasCommand nicks lim target)) \<Longrightarrow>
      log_in Q u \<Longrightarrow> on_ret (log_in Q) (HandleServer_WhoWas E c nicks lim u)"
  shows "on_ret (log_in Q) (handle_line E c line w)"
proof -
  obtain code p where p: "ParseCommand E line = (code, p)" by force
  show ?thesis
  proof (cases p)
    case (Inl e)
    with p log show ?thesis by (cases e) (simp_all add: handle_line_def log_simps)
  next
    case (Inr cmd)
    have "cmd = WhoWasCommand nicks lim target" if "check_password E cmd w = WhoWasCommand nicks lim target"
      for nicks lim target
      using that by (cases cmd) (auto simp: check_password_def split: option.splits)
    then have "on_ret (log_in Q) (processCommand E c code (check_password E cmd w) w)"
      using find p Inr by (intro log_processCommand [OF log]) auto
    then show ?thesis by (simp add: handle_line_def p Inr)
  qed
qed

end

interpretation wf_log: kept_log whowas_wf
  by unfold_locales (rule append_wf)

interpretation free_log: kept_log log_free
  by unfold_locales (use whowas_log.append_keeps in \<open>auto simp: log_free_def\<close>)

lemma log_WhoWas_ret: "log_ok w \<Longrightarrow> on_ret log_ok (HandleServer_WhoWas E c nicks lim w)"
  using log_WhoWas [of w E c nicks lim] by (auto simp: returns_iff)

lemma log_step: "step E w w' \<Longrightarrow> log_ok w \<Longrightarrow> log_ok w'"
proof (induction rule: step.induct)
  case (connect tls hostname w)
  then show ?case by (simp add: accept_def NewClient_def count_connection_def Touch_def Let_def log_in_def upd_client_def)
next
  case (line c w s w')
  then show ?case using wf_log.log_handle_line [of w E s c, OF _ log_WhoWas_ret] by (simp add: on_ret_iff)
next
  case (disconnect c w w')
  then show ?case using wf_log.log_processCommand [of w "QuitCommand ''connection closed''"] by (simp add: connection_closed_def on_ret_iff)
next
  case (quit_timer c w t w')
  then show ?case
    using wf_log.log_processCommand [of "upd_client c (\<lambda>r. r\<lparr>c_quitTimer := Some Stopped\<rparr>) w" "QuitCommand ''connection timeout''"]
    by (simp add: connectionTimeout_def on_ret_iff)
next
  case (shutdown w w')
  then show ?case using on_ret_log [OF core_Global, of whowas_wf w E] by (simp add: on_ret_iff)
next
  case (clock w t)
  then show ?case by (simp add: log_in_def)
next
  case (files w fs)
  then show ?case by (simp add: log_in_def)
qed (simp add: log_client_handlers)

lemma log_reachable: "reachable E w \<Longrightarrow> log_ok w"
proof (induction rule: reachable.induct)
  case (start w)
  then show ?case by (simp add: initial_def log_in_def new_wf)
qed (rule log_step)

section \<open>Commands that return\<close>

text \<open>
  What can panic: WHOIS when a client that has a nick lists a channel it is no member of, ONICK
  with an empty nick, and REHASH when the file is an empty document or the configuration then has an
  operator without a password that can be decoded.
\<close>

definition bad_operators :: "Config \<Rightarrow> bool" where
  "bad_operators conf \<longleftrightarrow>
     (\<exists>(n, p) \<in> set (cfg_operators conf). case p of None \<Rightarrow> True | Some s \<Rightarrow> DecodePassword s = None)"

text \<open>\<open>Reload\<close> keeps the old configuration when the new one has an error.\<close>

definition bad_rehash :: "'t go_env \<Rightarrow> 't world \<Rightarrow> bool" where
  "bad_rehash E w =
     (case LoadConfig E (w_files w) (cfg_filename (srv_config w)) of
        Ret (Inl _) \<Rightarrow> bad_operators (srv_config w)
      | Ret (Inr newconf) \<Rightarrow> bad_operators (merge_config E (srv_config w) newconf)
      | _ \<Rightarrow> True)"

definition stale :: "'t go_env \<Rightarrow> 't world \<Rightarrow> client_id \<Rightarrow> bool" where
  "stale E w d \<longleftrightarrow> (\<exists>ch \<in> set (set_range (chan_sets E) (c_channels (cl w d))). \<not> is_member E w ch d)"

definition risky :: "'t go_env \<Rightarrow> 't world \<Rightarrow> Command \<Rightarrow> bool" where
  "risky E w cmd =
     (case cmd of
        WhoisCommand _ _ \<Rightarrow> \<exists>d \<in> set (nick_range E w). stale E w d
      | OperNickCommand _ nick \<Rightarrow> nick = []
      | RehashCommand \<Rightarrow> bad_rehash E w
      | _ \<Rightarrow> False)"

lemma returns_destroy: "\<not> c_replies_closed (cl w c) \<Longrightarrow> returns (\<lambda>_. True) (destroy E c w)"
  by (simp add: destroy_def Let_def)

lemma returns_client_Quit:
  assumes "log_ok w" "whowas_free (srv_whoWas w)" "c_replies_closed (cl w c) \<longrightarrow> c_hasQuit (cl w c)"
  shows "returns (\<lambda>_. True) (client_Quit E c msg w)"
proof (cases "c_hasQuit (cl w c)")
  case False
  define w2 where "w2 = Reply c (RplError ''quit'') (upd_client c (\<lambda>r. r\<lparr>c_hasQuit := True\<rparr>) w)"
  have w2: "log_ok w2" "whowas_free (srv_whoWas w2)" "\<not> c_replies_closed (cl w2 c)"
    using assms False by (simp_all add: w2_def log_simps)
  have "returns (\<lambda>_. True) (and_then (append_whowas c w2)
      (\<lambda>w3. and_then (destroy E c w3) (\<lambda>w4. Ret (if set_count (client_sets E) (set_remove (client_sets E) (Friends E w3 c) c) > 0
        then reply_all (set_range (client_sets E) (set_remove (client_sets E) (Friends E w3 c) c)) (RplQuit w4 c msg) w4
        else w4))))"
    using w2(3) by (intro returns_and_then [OF append_returns [OF w2(1,2)]] returns_and_then [OF returns_destroy]) auto
  with False show ?thesis by (simp add: client_Quit_def Let_def w2_def)
qed (simp add: client_Quit_def)

lemma returns_ChangeNickname:
  assumes "log_ok w" "whowas_free (srv_whoWas w)"
  shows "returns (\<lambda>_. True) (ChangeNickname E c nick w)"
  unfolding ChangeNickname_def Let_def
proof (rule returns_and_then [OF append_returns])
  show "log_ok (snd (nick_remove E c w))" "whowas_free (srv_whoWas (snd (nick_remove E c w)))"
    using assms by simp_all
qed simp

lemma bad_rehash_cong:
  assumes "w_files w = w_files w'" "srv_config w = srv_config w'"
  shows "bad_rehash E w = bad_rehash E w'"
  unfolding bad_rehash_def assms ..

lemma core_files: "core w = core w' \<Longrightarrow> w_files w = w_files w'"
  unfolding core_def by (cases w, cases w') simp

context go_env_laws begin

lemma returns_Operators: "\<not> bad_operators conf \<Longrightarrow> returns (\<lambda>_. True) (Operators E conf)"
  unfolding Operators_def
proof (rule returns_iterate)
  fix x :: "string \<times> string option" and m :: "(string \<times> string) list"
  assume "\<not> bad_operators conf" "x \<in> set (go_range E (cfg_operators conf))"
  then have "x \<in> set (cfg_operators conf)" by (simp add: go_range_set)
  with \<open>\<not> bad_operators conf\<close> have "case snd x of None \<Rightarrow> False | Some s \<Rightarrow> DecodePassword s \<noteq> None"
    by (auto simp: bad_operators_def split: option.splits)
  then obtain n s b where "x = (n, Some s)" "DecodePassword s = Some b"
    by (cases x) (auto split: option.splits)
  then show "returns (\<lambda>_. True) ((case x of (name, opConf) \<Rightarrow> \<lambda>m. (case opConf of None \<Rightarrow> Panic
      | Some password \<Rightarrow> and_then (PasswordBytes password) (\<lambda>pw. Ret (AList.update (NewName E name) pw m)))) m)"
    by (simp add: PasswordBytes_def)
qed simp

lemma returns_Rehash_config:
  assumes "\<not> bad_rehash E w"
  shows "returns (\<lambda>(err, _). err = None) (Rehash E w)"
proof (cases "LoadConfig E (w_files w) (cfg_filename (srv_config w))")
  case (Ret r)
  then have "\<not> bad_operators (case r of Inl _ \<Rightarrow> srv_config w | Inr newconf \<Rightarrow> merge_config E (srv_config w) newconf)"
    using assms by (auto simp: bad_rehash_def split: sum.splits)
  from returns_Operators [OF this] Ret show ?thesis
    by (cases r) (auto simp: Rehash_def Reload_def Let_def returns_iff)
qed (use assms in \<open>simp_all add: bad_rehash_def\<close>)

lemma inv_open:
  assumes "inv E A {} w" "d < w_next_client w"
  shows "c_replies_closed (cl w d) = c_hasQuit (cl w d)"
  using assms by (auto simp: inv_def client_ok_def)

lemma nick_range_open:
  assumes "inv E A {} w" "d \<in> set (nick_range E w)"
  shows "\<not> c_replies_closed (cl w d)"
proof -
  obtain k where "(k, d) \<in> set (srv_nicks w)" using assms(2) by (auto simp: nick_range_def go_range_set)
  then have "alive w d" using assms(1) by (simp add: inv_def nick_inv_def)
  then show ?thesis using inv_open [OF assms(1), of d] by (simp add: alive_def)
qed

lemma returns_to_all:
  assumes "inv E A {} w"
  shows "returns (\<lambda>v. core v = core w) (Wallops E m w)" "returns (\<lambda>v. core v = core w) (Global E m w)"
proof -
  have send: "returns (\<lambda>v. core v = core w) (send_direct c s (count_message u))"
    if "c \<in> set (nick_range E w)" "core u = core w" for c s u
    using nick_range_open [OF assms that(1)] that(2) core_clients [OF that(2)]
    by (simp add: send_direct_def count_message_def core_simps)
  show "returns (\<lambda>v. core v = core w) (Wallops E m w)" unfolding Wallops_def Let_def
    by (rule returns_iterate) (auto intro: send)
  show "returns (\<lambda>v. core v = core w) (Global E m w)" unfolding Global_def Let_def
    by (rule returns_iterate) (auto intro: send)
qed

lemma returns_whois_names:
  assumes "\<not> stale E w d"
  shows "returns (\<lambda>_. True) (WhoisChannelsNames E w d c)"
  unfolding WhoisChannelsNames_def
proof (rule returns_and_then [where Q = "\<lambda>_. True"])
  show "returns (\<lambda>_. True) (iterate (\<lambda>ch chstrs. if \<not> CanSeeChannel E w c ch then Ret chstrs
      else and_then (whois_channel_name E w d ch) (\<lambda>s. Ret (chstrs @ [s])))
      (set_range (chan_sets E) (c_channels (cl w d))) [])"
  proof (rule returns_iterate)
    fix ch and acc :: "string list" assume "ch \<in> set (set_range (chan_sets E) (c_channels (cl w d)))"
    with assms obtain m where "mem_get (members_ops E) (ch_members (chn w ch)) d = Some m"
      by (auto simp: stale_def mem.mem_has_get)
    then show "returns (\<lambda>_. True) (if \<not> CanSeeChannel E w c ch then Ret acc
        else and_then (whois_channel_name E w d ch) (\<lambda>s. Ret (acc @ [s])))"
      by (simp add: whois_channel_name_def modes_has_def)
  qed simp
qed simp

lemma stale_core: "core w = core w' \<Longrightarrow> stale E w d = stale E w' d"
  by (simp add: stale_def core_clients [of w w'] core_chans [of w w'])

lemma returns_RplWhois:
  assumes "\<not> stale E w d"
  shows "returns (\<lambda>v. core v = core w) (RplWhois E c d w)"
proof -
  define w3 where "w3 = RplWhoisIdle c d (if has_mode E (RplWhoisUser E c d w) d Operator
      then RplWhoisOperator c d (RplWhoisUser E c d w) else RplWhoisUser E c d w)"
  have core: "core w3 = core w" by (simp add: w3_def core_simps)
  then obtain names where "WhoisChannelsNames E w3 d c = Ret names"
    using returns_whois_names [of w3 d c] assms stale_core [OF core] by (auto simp: returns_iff)
  then show ?thesis
    using core by (simp add: RplWhois_def Let_def w3_def [symmetric] RplWhoisChannels_def core_simps)
qed

lemma FindAll_has:
  "set_has (client_sets E) (FindAll E w m) d \<longleftrightarrow>
    d \<in> set (nick_range E w) \<and> irc_match E (ExpandUserHost m) (UserHost w d False)"
proof -
  let ?f = "\<lambda>c st. if irc_match E (ExpandUserHost m) (UserHost w c False) then set_add (client_sets E) st c else st"
  have "set_has (client_sets E) (fold ?f cs st) d \<longleftrightarrow>
      d \<in> set cs \<and> irc_match E (ExpandUserHost m) (UserHost w d False) \<or> set_has (client_sets E) st d" for cs st
    by (induction cs arbitrary: st) (auto simp: cl.set_has_add)
  from this [of "nick_range E w" "set_new (client_sets E)"] show ?thesis
    by (simp add: FindAll_def Let_def cl.set_has_new)
qed

lemma FindAll_range: "set_has (client_sets E) (FindAll E w m) d \<Longrightarrow> d \<in> set (nick_range E w)"
  by (simp add: FindAll_has)

lemma Find_FindAll:
  "case Find E w m of None \<Rightarrow> \<forall>d. \<not> set_has (client_sets E) (FindAll E w m) d
   | Some d \<Rightarrow> set_has (client_sets E) (FindAll E w m) d"
  by (auto simp: Find_def Let_def FindAll_has find_None_iff find_Some_iff split: option.split)

lemma returns_Whois:
  assumes "\<And>d. d \<in> set (nick_range E w) \<Longrightarrow> \<not> stale E w d"
  shows "returns (\<lambda>v. core v = core w) (HandleServer_Whois E c ms w)"
  unfolding HandleServer_Whois_def Let_def
proof (rule returns_iterate)
  fix m u assume u: "core u = core w"
  have "returns (\<lambda>v. core v = core w) (iterate (RplWhois E c) (set_range (client_sets E) (FindAll E u m)) u)"
  proof (rule returns_iterate)
    fix d v assume d: "d \<in> set (set_range (client_sets E) (FindAll E u m))" and v: "core v = core w"
    have "nick_range E u = nick_range E w" by (simp add: nick_range_def core_nicks [OF u])
    with d FindAll_range [of u m d] assms have "\<not> stale E w d" by (simp add: cl.set_range_has)
    with stale_core [OF v] v show "returns (\<lambda>v. core v = core w) (RplWhois E c d v)"
      using returns_RplWhois [of v d c] by simp
  qed (rule u)
  with u show "returns (\<lambda>v. core v = core w)
      (if set_count (client_sets E) (FindAll E u m) = 0 then Ret (ErrNoSuchNick c m u)
       else iterate (RplWhois E c) (set_range (client_sets E) (FindAll E u m)) u)"
    by (simp add: core_simps)
qed simp

lemma returns_Rehash:
  assumes "inv E A {} w" "\<not> bad_rehash E w"
  shows "returns (\<lambda>_. True) (HandleServer_Rehash E c w)"
proof -
  define msg where "msg = Sprintf ''Rehashing server config (%s)'' [Nick w c]"
  obtain w1 where w1: "Wallops E msg w = Ret w1" "core w1 = core w"
    using returns_to_all(1) [OF assms(1), of msg] by (auto simp: returns_iff)
  have "\<not> bad_rehash E w1"
    using bad_rehash_cong [of w1 w E] assms(2) core_files [OF w1(2)] core_fields(13) [OF w1(2)] by simp
  from returns_Rehash_config [OF this] obtain w2 where "Rehash E w1 = Ret (None, w2)" by (auto simp: returns_iff)
  then show ?thesis
    unfolding HandleServer_Rehash_def msg_def [symmetric] w1(1) by simp
qed

lemma returns_Kill:
  assumes "inv E A {} w" "log_ok w" "whowas_free (srv_whoWas w)"
  shows "returns (\<lambda>_. True) (HandleServer_Kill E c nick comment w)"
proof -
  have "returns (\<lambda>_. True) (client_Quit E d msg w)" if "nick_get E w nick = Some d" for d msg
    using returns_client_Quit [OF assms(2,3)] inv_open [OF assms(1)] inv_get_target(1) [OF assms(1) that]
    by (simp add: alive_def)
  then show ?thesis by (simp add: HandleServer_Kill_def split: option.split)
qed

lemma IsNickname_some: "nick \<noteq> [] \<Longrightarrow> \<exists>b. IsNickname E nick = Some b"
  by (cases "IsNickname E nick") (simp_all add: IsNickname_def split: if_splits list.splits)

lemma returns_HandleRegServer:
  assumes "act_inv E A c w" "log_ok w" "whowas_free (srv_whoWas w)" "HandleRegServer E c cmd = Some h"
  shows "returns (\<lambda>_. True) (h w)"
proof -
  have open_: "c_replies_closed (cl w c) = c_hasQuit (cl w c)"
    using assms(1) inv_open by (auto simp: act_inv_def alive_def)
  define u where "u = ErrPasswdMismatch c w"
  have "core u = core w" by (simp add: u_def core_simps)
  from core_fields(1,7) [OF this] log_core [OF this]
  have "returns (\<lambda>_. True) (client_Quit E c ''bad password'' u)"
    using assms(2,3) open_ by (intro returns_client_Quit) simp_all
  then have bad: "returns (\<lambda>_. True) (bad_password E c w)" by (simp add: bad_password_def u_def)
  have quit: "returns (\<lambda>_. True) (client_Quit E c msg w)" for msg
    using assms(2,3) open_ by (intro returns_client_Quit) simp_all
  have nick: "returns (\<lambda>_. True) (HandleRegServer_Nick E c nick w)" for nick
    using bad IsNickname_some [of nick] by (auto simp: HandleRegServer_Nick_def)
  show ?thesis
    using assms(4) bad quit nick
    by (cases cmd) (auto simp: HandleRegServer_def HandleRegServer_Pass_def
        HandleRegServer_RFC1459User_def HandleRegServer_RFC2812User_def HandleRegServer_Authenticate_def
        HandleRegServer_Cap_def Let_def split: option.split)
qed

lemma returns_HandleServer:
  assumes "act_inv E A c w" "log_ok w" "whowas_free (srv_whoWas w)" "HandleServer E c cmd = Some h"
    and safe: "\<not> risky E w cmd"
  shows "returns (\<lambda>_. True) (h w)"
proof -
  have i: "inv E A {} w" and open_: "c_replies_closed (cl w c) = c_hasQuit (cl w c)"
    using assms(1) inv_open by (auto simp: act_inv_def alive_def)
  have weaken: "returns (\<lambda>_. True) r" if "returns Q r" for Q and r :: "'t world outcome"
    using that by (rule returns_mono) simp
  have quit: "returns (\<lambda>_. True) (client_Quit E c msg w)" for msg
    using assms(2,3) open_ by (intro returns_client_Quit) simp_all
  note change = returns_ChangeNickname [OF assms(2,3)]
  have nick: "returns (\<lambda>_. True) (HandleServer_Nick E c n w)" for n
    using change IsNickname_some [of n] by (auto simp: HandleServer_Nick_def)
  have opernick: "returns (\<lambda>_. True) (HandleServer_OperNick E c d n w)" if "n \<noteq> []" for d n
    using change IsNickname_some [OF that] by (auto simp: HandleServer_OperNick_def split: option.split)
  have notice: "returns (\<lambda>_. True) (HandleServer_Notice E c s m w)" for s m
    using weaken [OF returns_to_all(2) [OF i]] by (simp add: HandleServer_Notice_def split: option.split)
  have wallops: "returns (\<lambda>_. True) (HandleServer_Wallops E c m w)" for m
    using weaken [OF returns_to_all(1) [OF i]] by (simp add: HandleServer_Wallops_def)
  show ?thesis
    using assms(4) safe quit nick opernick notice wallops returns_Kill [OF i assms(2,3)]
      weaken [OF log_WhoWas [OF assms(2)]] weaken [OF returns_Whois] returns_Rehash [OF i]
    by (cases cmd) (auto simp: HandleServer_def risky_def)
qed

lemma returns_processCommand:
  assumes "act_inv E A c w" "log_ok w" "whowas_free (srv_whoWas w)" "\<not> risky E w cmd"
  shows "returns (\<lambda>_. True) (processCommand E c code cmd w)"
proof (cases "c_registered (cl w c)")
  case True
  define u where "u = note_activity c cmd (w\<lparr>w_commands := w_commands w + 1\<rparr>)"
  have "act_inv E A c (w\<lparr>w_commands := w_commands w + 1\<rparr>)"
    using assms(1) by (simp add: act_inv_core [OF core_out(3)])
  then have i: "act_inv E A c u" unfolding u_def by (rule note_activity_inv)
  have same: "srv_nicks u = srv_nicks w" "srv_whoWas u = srv_whoWas w" "w_chans u = w_chans w"
    "w_files u = w_files w" "srv_config u = srv_config w" "\<And>d. c_channels (cl u d) = c_channels (cl w d)"
    by (simp_all add: u_def note_activity_def Touch_def Active_def upd_client_def split: Command.split)
  then have "stale E u d = stale E w d" for d by (simp add: stale_def)
  moreover have "bad_rehash E u = bad_rehash E w"
    using same by (intro bad_rehash_cong) simp_all
  ultimately have "\<not> risky E u cmd"
    using assms(4) same(1) by (simp add: risky_def nick_range_def split: Command.splits)
  then have "returns (\<lambda>_. True) (h u)" if "HandleServer E c cmd = Some h" for h
    using returns_HandleServer [OF i _ _ that] assms(2,3) same(2) by (simp add: log_in_def)
  then show ?thesis
    using True unfolding processCommand_def u_def [symmetric] by (simp split: option.split)
next
  case False
  have "returns (\<lambda>_. True) (client_Quit E c ''unexpected command'' w)"
    using assms inv_open by (intro returns_client_Quit) (auto simp: act_inv_def alive_def)
  with False returns_HandleRegServer [OF assms(1-3)] show ?thesis
    by (simp add: processCommand_def split: option.split)
qed

lemma risky_check_password: "risky E w (check_password E cmd v) = risky E w cmd"
  by (cases cmd) (simp_all add: check_password_def risky_def split: option.split)

lemma returns_line:
  assumes "reachable E w" "c < w_next_client w" "\<not> c_socket_closed (cl w c)" "whowas_free (srv_whoWas w)"
    and "\<And>code cmd. ParseCommand E line = (code, Inr cmd) \<Longrightarrow> \<not> risky E w cmd"
  shows "\<exists>v. handle_line E c line w = Ret v"
proof -
  have i: "inv E (\<lambda>_. UNIV) {} w" by (rule reachable_inv [OF assms(1)])
  then have "client_ok E (\<lambda>_. UNIV) c (cl w c)" using assms(2) by (simp add: inv_def)
  with i have act: "act_inv E (\<lambda>_. UNIV) c w"
    using assms(2,3) by (simp add: act_inv_def alive_def client_ok_def)
  obtain code p where p: "ParseCommand E line = (code, p)" by force
  show ?thesis
  proof (cases p)
    case (Inl e)
    then show ?thesis by (cases e) (simp_all add: handle_line_def p)
  next
    case (Inr cmd)
    then have "\<not> risky E w (check_password E cmd w)" using assms(5) p by (simp add: risky_check_password)
    from returns_processCommand [OF act log_reachable [OF assms(1)] assms(4) this, of code]
    show ?thesis by (auto simp: handle_line_def p Inr returns_iff)
  qed
qed

lemma returns_closed:
  assumes "reachable E w" "c < w_next_client w" "whowas_free (srv_whoWas w)"
  shows "\<exists>v. connection_closed E c w = Ret v" "\<exists>v. Global E msg w = Ret v"
proof -
  have i: "inv E (\<lambda>_. UNIV) {} w" by (rule reachable_inv [OF assms(1)])
  have "returns (\<lambda>_. True) (client_Quit E c ''connection closed'' (w\<lparr>w_commands := n\<rparr>))" for n
    using log_reachable [OF assms(1)] assms(3) inv_open [OF i assms(2)]
    by (intro returns_client_Quit) (simp_all add: log_in_def)
  moreover have "returns (\<lambda>_. True) (client_Quit E c ''connection closed'' w)"
    using log_reachable [OF assms(1)] assms(3) inv_open [OF i assms(2)] by (intro returns_client_Quit) simp_all
  ultimately show "\<exists>v. connection_closed E c w = Ret v"
    by (simp add: connection_closed_def processCommand_def HandleServer_def HandleRegServer_def note_activity_def returns_iff)
  show "\<exists>v. Global E msg w = Ret v" using returns_to_all(2) [OF i] by (auto simp: returns_iff)
qed

end

end
