(* ===== verification/Waiting.thy ===== *)
theory Waiting
  imports Progress
begin

text \<open>
  Where a goroutine has to wait. \<open>Reply\<close> and the direct sends hand a line over on the channel \<open>replies\<close>
  of a client, which has no buffer: the sender goes on only when the write loop of this client comes
  back to receive. \<open>Socket.Close\<close> takes a lock that \<open>Socket.Read\<close> and \<open>Socket.Write\<close> hold while they wait for
  the peer. The operations of the other theories give the state that the shared data are in once this
  is over; \<open>w_out\<close> is only appended to, so the lines that a goroutine has sent can be read off, and so can
  the sockets that it has closed. \<open>goroutine\<close> adds that it gets stuck when one of them is not taken or one of
  these locks is not given back. The steps of the wait itself are those of the theory Connection.
\<close>

section \<open>The peers, and who waits for them\<close>

text \<open>
  \<open>takes_lines\<close>: the write loop of the client goes on receiving while this goroutine runs (its peer reads).
  \<open>lock_held\<close>: the lock of the socket of the client is not given back while this goroutine runs: its read loop
  waits for a line of a silent peer, or its write loop for a peer that does not read.
\<close>

record peers =
  takes_lines :: "client_id \<Rightarrow> bool"
  lock_held :: "client_id \<Rightarrow> bool"

definition sent_to :: "'t world \<Rightarrow> 't world \<Rightarrow> client_id list" where
  "sent_to w v = map fst (drop (length (w_out w)) (w_out v))"

definition newly_closed :: "'t world \<Rightarrow> 't world \<Rightarrow> client_id list" where
  "newly_closed w v = filter (\<lambda>d. c_socket_closed (cl v d) \<and> \<not> c_socket_closed (cl w d)) [0..<w_next_client v]"

definition must_wait :: "peers \<Rightarrow> 't world \<Rightarrow> 't world \<Rightarrow> bool" where
  "must_wait P w v \<longleftrightarrow>
     list_ex (\<lambda>d. \<not> takes_lines P d) (sent_to w v) \<or> list_ex (lock_held P) (newly_closed w v)"

definition goroutine :: "peers \<Rightarrow> ('t world \<Rightarrow> 't world outcome) \<Rightarrow> 't world \<Rightarrow> 't world outcome" where
  "goroutine P act w = and_then (act w) (\<lambda>v. if must_wait P w v then Blocked else Ret v)"

definition everybody_reads :: peers where
  "everybody_reads = \<lparr>takes_lines = (\<lambda>_. True), lock_held = (\<lambda>_. False)\<rparr>"

definition nobody_reads :: peers where
  "nobody_reads = \<lparr>takes_lines = (\<lambda>_. False), lock_held = (\<lambda>_. False)\<rparr>"

text \<open>Everybody reads and nobody holds a lock.\<close>

definition attentive :: "peers \<Rightarrow> bool" where
  "attentive P \<longleftrightarrow> (\<forall>d. takes_lines P d \<and> \<not> lock_held P d)"

lemma everybody_attentive: "attentive everybody_reads"
  by (simp add: attentive_def everybody_reads_def)

lemma attentive_waits: "attentive P \<Longrightarrow> \<not> must_wait P w v"
  by (simp add: attentive_def must_wait_def list_ex_iff)

lemma goroutine_Ret: "goroutine P act w = Ret v \<longleftrightarrow> act w = Ret v \<and> \<not> must_wait P w v"
  by (auto simp: goroutine_def and_then_Ret_iff)

lemma goroutine_attentive: "attentive P \<Longrightarrow> goroutine P act w = act w"
  by (cases "act w") (simp_all add: goroutine_def attentive_waits)

lemma goroutine_Panic [simp]: "goroutine P act w = Panic \<longleftrightarrow> act w = Panic"
  by (cases "act w") (simp_all add: goroutine_def)

text \<open>What returns without waiting does not panic, and returns if it does not have to wait.\<close>

lemma goroutine_outcome:
  assumes "act w = Ret v"
  shows "goroutine P act w = (if must_wait P w v then Blocked else Ret v)"
  using assms by (simp add: goroutine_def)

lemma goroutine_on_ret: "on_ret Q (act w) \<Longrightarrow> on_ret Q (goroutine P act w)"
  by (auto simp: on_ret_iff goroutine_Ret)

section \<open>Single operations\<close>

text \<open>A line for a client that has quit is not sent, so nobody waits.\<close>

lemma Reply_waits:
  "goroutine P (\<lambda>w. Ret (Reply c s w)) w =
     (if \<not> c_hasQuit (cl w c) \<and> \<not> takes_lines P c then Blocked else Ret (Reply c s w))"
  by (simp add: goroutine_def must_wait_def sent_to_def newly_closed_def Reply_def)

lemma Idle_waits:
  "goroutine P (\<lambda>w. Ret (Idle c w)) w =
     (if \<not> c_hasQuit (cl w c) \<and> \<not> takes_lines P c then Blocked else Ret (Idle c w))"
proof -
  have "newly_closed w (Idle c w) = []"
    by (auto simp: newly_closed_def Idle_def Let_def Reply_def filter_empty_conv)
  then show ?thesis
    by (simp add: goroutine_def must_wait_def sent_to_def) (simp add: Idle_def Let_def Reply_def)
qed

context go_env_laws begin

text \<open>Ending a client whose socket is locked waits in \<open>Socket.Close\<close>.\<close>

lemma quit_waits:
  assumes "reachable E w" "c < w_next_client w" "\<not> c_hasQuit (cl w c)" "lock_held P c"
    and "client_Quit E c msg w = Ret v"
  shows "goroutine P (client_Quit E c msg) w = Blocked"
proof -
  have i: "inv E (\<lambda>_. UNIV) {} w" by (rule reachable_inv [OF assms(1)])
  have same: "same_state v (departed E c w)" using client_Quit_result [OF i assms(5)] assms(3) by simp
  then have "c_socket_closed (cl v c)" "w_next_client v = w_next_client w"
    by (simp_all add: same_state_def departed_fields)
  moreover have "\<not> c_socket_closed (cl w c)" using i assms(2,3) by (auto simp: inv_def client_ok_def)
  ultimately have "must_wait P w v"
    using assms(2,4) by (auto simp: must_wait_def newly_closed_def list_ex_iff)
  then show ?thesis using assms(5) by (simp add: goroutine_outcome)
qed

section \<open>Lines, ends of connections, notices\<close>

lemma line_outcome:
  assumes "reachable E w" "c < w_next_client w" "\<not> c_socket_closed (cl w c)" "whowas_free (srv_whoWas w)"
    and "\<And>code cmd. ParseCommand E line = (code, Inr cmd) \<Longrightarrow> \<not> risky E w cmd"
  shows "goroutine P (handle_line E c line) w \<noteq> Panic"
    and "attentive P \<Longrightarrow> \<exists>v. goroutine P (handle_line E c line) w = Ret v"
proof -
  obtain v where "handle_line E c line w = Ret v" using returns_line [OF assms(1-4), of line] assms(5) by blast
  then show "goroutine P (handle_line E c line) w \<noteq> Panic"
    "attentive P \<Longrightarrow> \<exists>v. goroutine P (handle_line E c line) w = Ret v"
    by (simp_all add: goroutine_attentive)
qed

lemma closed_outcome:
  assumes "reachable E w" "c < w_next_client w" "whowas_free (srv_whoWas w)"
  shows "goroutine P (connection_closed E c) w \<noteq> Panic" "goroutine P (Global E msg) w \<noteq> Panic"
    and "attentive P \<Longrightarrow> \<exists>v. goroutine P (connection_closed E c) w = Ret v"
    and "attentive P \<Longrightarrow> \<exists>v. goroutine P (Global E msg) w = Ret v"
proof -
  obtain u v where "connection_closed E c w = Ret u" "Global E msg w = Ret v" using returns_closed [OF assms] by blast
  then show "goroutine P (connection_closed E c) w \<noteq> Panic" "goroutine P (Global E msg) w \<noteq> Panic"
    "attentive P \<Longrightarrow> \<exists>v. goroutine P (connection_closed E c) w = Ret v"
    "attentive P \<Longrightarrow> \<exists>v. goroutine P (Global E msg) w = Ret v"
    by (simp_all add: goroutine_attentive)
qed

end

end
