(* ===== verification/Socket.thy ===== *)
theory Socket
  imports Prelude
begin

text \<open>
  src/internal/socket.go: lines from and to a connection. A connection that is read is the string of
  the bytes the peer sends before it ends the connection. \<open>bufio.Scanner\<close>, with its default split
  function, cuts off lines and gives up on a line that does not fit its buffer of 64 KB; after an
  error \<open>Read\<close> is not called again (the read loop ends).
\<close>

section \<open>Reading\<close>

definition LF :: char where "LF = CHR 0x0A"

definition CR :: char where "CR = CHR 0x0D"

definition CRLF :: string where "CRLF = [CR, LF]"

definition MaxScanTokenSize :: nat where "MaxScanTokenSize = 65536"

definition drop_cr :: "string \<Rightarrow> string" where
  "drop_cr s = (if s \<noteq> [] \<and> last s = CR then butlast s else s)"

datatype scanned = Token string string | AtEOF | TooLong

definition scan_line :: "string \<Rightarrow> scanned" where
  "scan_line data =
     (let l = takeWhile (\<lambda>c. c \<noteq> LF) data in
      if MaxScanTokenSize \<le> length l then TooLong
      else if length l < length data then Token (drop_cr l) (drop (length l + 1) data)
      else if data = [] then AtEOF
      else Token (drop_cr l) [])"

lemma scan_line_shorter: "scan_line data = Token l rest \<Longrightarrow> length rest < length data"
  by (auto simp: scan_line_def Let_def split: if_splits)

datatype socket_read = ReadLine string string | ReadEOF | ReadError

text \<open>The loop of \<open>Socket.Read\<close> skips empty lines.\<close>

function read_line :: "string \<Rightarrow> socket_read" where
  "read_line data =
     (case scan_line data of
        Token line rest \<Rightarrow> if line = [] then read_line rest else ReadLine line rest
      | AtEOF \<Rightarrow> ReadEOF
      | TooLong \<Rightarrow> ReadError)"
  by pat_completeness auto

termination
  by (relation "measure length") (auto simp: scan_line_shorter)

declare read_line.simps [simp del]

definition Socket_Read :: "bool \<Rightarrow> string \<Rightarrow> socket_read" where
  "Socket_Read closed data = (if closed then ReadEOF else read_line data)"

lemma read_line_shorter: "read_line data = ReadLine l rest \<Longrightarrow> length rest < length data"
proof (induction data rule: read_line.induct)
  case (1 data)
  from "1.prems" show ?case
    by (subst (asm) read_line.simps)
      (auto dest: "1.IH" scan_line_shorter split: scanned.splits if_splits intro: less_trans)
qed

section \<open>Writing\<close>

text \<open>
  \<open>Write\<close> sends the line and CR LF. The write loop of a client (client.go) takes its replies until
  the channel is closed or a reply is empty, and ignores the errors of \<open>Write\<close>; here the
  connection takes every byte.
\<close>

definition Socket_Write :: "bool \<Rightarrow> string \<Rightarrow> string \<Rightarrow> string" where
  "Socket_Write closed line sent = (if closed then sent else sent @ line @ CRLF)"

fun writeloop :: "string list \<Rightarrow> string \<Rightarrow> string" where
  "writeloop [] sent = sent"
| "writeloop (reply # replies) sent =
     (if reply = [] then sent else writeloop replies (Socket_Write False reply sent))"

section \<open>What is written is read back\<close>

text \<open>All lines of a connection, as a reader gets them one after the other.\<close>

function read_all :: "string \<Rightarrow> string list" where
  "read_all data = (case read_line data of ReadLine l rest \<Rightarrow> l # read_all rest | _ \<Rightarrow> [])"
  by pat_completeness auto

termination
  by (relation "measure length") (auto simp: read_line_shorter)

declare read_all.simps [simp del]

definition line_ok :: "string \<Rightarrow> bool" where
  "line_ok l \<longleftrightarrow> l \<noteq> [] \<and> LF \<notin> set l \<and> last l \<noteq> CR \<and> length l + 1 < MaxScanTokenSize"

lemma takeWhile_line: "LF \<notin> set l \<Longrightarrow> takeWhile (\<lambda>c. c \<noteq> LF) (l @ CRLF @ rest) = l @ [CR]"
  by (induction l) (auto simp: CRLF_def LF_def CR_def)

lemma read_line_CRLF:
  assumes "line_ok l"
  shows "read_line (l @ CRLF @ rest) = ReadLine l rest"
proof -
  have "scan_line (l @ CRLF @ rest) = Token l rest"
    using assms unfolding scan_line_def line_ok_def
    by (subst takeWhile_line) (auto simp: Let_def drop_cr_def CRLF_def)
  then show ?thesis using assms by (simp add: read_line.simps line_ok_def)
qed

lemma writeloop_append: "writeloop rs sent = sent @ writeloop rs []"
proof (induction rs arbitrary: sent)
  case (Cons r rs)
  show ?case
    using Cons [of "sent @ r @ CRLF"] Cons [of "r @ CRLF"] by (simp add: Socket_Write_def)
qed simp

lemma read_line_nil: "read_line [] = ReadEOF"
  by (simp add: read_line.simps scan_line_def Let_def MaxScanTokenSize_def)

text \<open>C33: the lines the write loop sends are read back by a peer that reads lines as this server does,
  each of them and in order, when none is empty, holds a line feed, ends in a carriage return or is
  too long for the buffer.\<close>

theorem written_lines_read_back:
  assumes "\<forall>r \<in> set replies. line_ok r"
  shows "read_all (writeloop replies []) = replies"
  using assms
proof (induction replies)
  case Nil
  show ?case by (simp add: read_all.simps read_line_nil)
next
  case (Cons r rs)
  have "writeloop (r # rs) [] = r @ CRLF @ writeloop rs []"
    using Cons.prems writeloop_append [of rs "r @ CRLF"] by (simp add: line_ok_def Socket_Write_def)
  then show ?case using Cons by (simp add: read_all.simps read_line_CRLF)
qed

theorem written_lines_read_back_witness:
  "read_all (writeloop [''PING x'', '':s NOTICE a :hi''] []) = [''PING x'', '':s NOTICE a :hi'']"
  by (rule written_lines_read_back) (simp add: line_ok_def LF_def CR_def MaxScanTokenSize_def)

section \<open>What a reader can get\<close>

lemma drop_cr_subset: "set (drop_cr s) \<subseteq> set s" "length (drop_cr s) \<le> length s"
  by (auto simp: drop_cr_def dest: in_set_butlastD)

lemma scan_line_token:
  assumes "scan_line data = Token l rest"
  shows "LF \<notin> set l \<and> length l < MaxScanTokenSize"
proof -
  let ?l = "takeWhile (\<lambda>c. c \<noteq> LF) data"
  have "l = drop_cr ?l" "length ?l < MaxScanTokenSize"
    using assms by (auto simp: scan_line_def Let_def split: if_splits)
  moreover have "LF \<notin> set ?l" by (auto dest: set_takeWhileD)
  ultimately show ?thesis using drop_cr_subset [of ?l] by auto
qed

text \<open>Whatever a peer sends, every line that is read from it is not empty, has no line feed and
  fits the buffer, and at least one byte is taken off for it, so the reading of lines comes to an end.\<close>

theorem read_line_bounds:
  assumes "Socket_Read closed data = ReadLine l rest"
  shows "\<not> closed \<and> l \<noteq> [] \<and> LF \<notin> set l \<and> length l < MaxScanTokenSize \<and> length rest < length data"
proof -
  have "read_line data = ReadLine l rest" and open_: "\<not> closed"
    using assms by (auto simp: Socket_Read_def split: if_splits)
  then have "l \<noteq> [] \<and> LF \<notin> set l \<and> length l < MaxScanTokenSize \<and> length rest < length data"
  proof (induction data rule: read_line.induct)
    case (1 data)
    show ?case
    proof (cases "scan_line data")
      case (Token line rest')
      with scan_line_shorter [OF Token] scan_line_token [OF Token] 1 show ?thesis
        by (cases "line = []") (force simp: read_line.simps [of data])+
    qed (use "1.prems" in \<open>simp_all add: read_line.simps [of data]\<close>)
  qed
  with open_ show ?thesis by blast
qed

theorem read_line_bounds_witness:
  "Socket_Read False (CRLF @ ''NICK a'' @ CRLF) = ReadLine ''NICK a'' [] \<and>
   LF \<notin> set ''NICK a'' \<and> length ''NICK a'' < MaxScanTokenSize"
proof -
  have "Socket_Read False (CRLF @ ''NICK a'' @ CRLF) = ReadLine ''NICK a'' []"
    by (simp add: Socket_Read_def read_line.simps scan_line_def Let_def CRLF_def LF_def CR_def MaxScanTokenSize_def
        drop_cr_def)
  from read_line_bounds [OF this] this show ?thesis by blast
qed

end
