(* ===== verification/Readloop.thy ===== *)
theory Readloop
  imports Waiting Socket
begin

text \<open>
  The read loop of a client (client.go) over the whole of what its peer sends: it reads a line,
  handles it, and goes on until the socket gives no more lines; then it handles a QUIT. What other
  clients do in between is not part of this function. \<open>peers\<close> says which clients take what is sent to them
  in the course of it; the loop gets stuck at the first line that is not taken.
\<close>

lemma and_then_cong [fundef_cong]:
  "x = y \<Longrightarrow> (\<And>v. y = Ret v \<Longrightarrow> f v = g v) \<Longrightarrow> and_then x f = and_then y g"
  by (cases y) simp_all

function readloop :: "'t go_env \<Rightarrow> peers \<Rightarrow> client_id \<Rightarrow> string \<Rightarrow> 't world \<Rightarrow> 't world outcome" where
  "readloop E P c data w =
     (case Socket_Read (c_socket_closed (cl w c)) data of
        ReadLine line rest \<Rightarrow> and_then (goroutine P (handle_line E c line) w) (readloop E P c rest)
      | _ \<Rightarrow> goroutine P (connection_closed E c) w)"
  by pat_completeness auto

termination
  by (relation "measure (\<lambda>(E, P, c, data, w). length data)")
    (auto simp: Socket_Read_def read_line_shorter split: if_splits)

declare readloop.simps [simp del]

text \<open>
  Lines that cannot panic, whatever the state, and leave no reader of the departed clients behind.
\<close>

definition tame :: "Command \<Rightarrow> bool" where
  "tame cmd =
     (case cmd of
        WhoisCommand _ _ \<Rightarrow> False
      | WhoWasCommand _ _ _ \<Rightarrow> False
      | RehashCommand \<Rightarrow> False
      | OperNickCommand _ nick \<Rightarrow> nick \<noteq> []
      | _ \<Rightarrow> True)"

definition tame_line :: "'t go_env \<Rightarrow> string \<Rightarrow> bool" where
  "tame_line E line \<longleftrightarrow> (case ParseCommand E line of (_, Inr cmd) \<Rightarrow> tame cmd | _ \<Rightarrow> True)"

lemma tame_lineD: "tame_line E line \<Longrightarrow> ParseCommand E line = (code, Inr cmd) \<Longrightarrow> tame cmd"
  by (simp add: tame_line_def)

lemma tame_not_risky: "tame cmd \<Longrightarrow> \<not> risky E w cmd"
  by (cases cmd) (simp_all add: tame_def risky_def)

context go_env_laws begin

lemma connection_closed_quits:
  assumes "reachable E w" "c < w_next_client w" "connection_closed E c w = Ret v"
  shows "reachable E v \<and> c_hasQuit (cl v c) \<and> c < w_next_client v"
proof -
  have r: "reachable E v" by (rule reachable.more [OF assms(1) step.disconnect [OF assms(2,3)]])
  define u where "u = (if c_registered (cl w c) then w\<lparr>w_commands := w_commands w + 1\<rparr> else w)"
  have q: "client_Quit E c ''connection closed'' u = Ret v"
    using assms(3)
    by (auto simp: connection_closed_def processCommand_def HandleServer_def HandleRegServer_def note_activity_def u_def)
  have "core u = core w" by (simp add: u_def core_simps)
  then have i: "inv E (\<lambda>_. UNIV) {} u" using reachable_inv [OF assms(1)] inv_core by blast
  have same: "same_state v (if c_hasQuit (cl u c) then u else departed E c u)"
    by (rule client_Quit_result [OF i q])
  have n: "w_next_client u = w_next_client w" by (simp add: u_def)
  show ?thesis
  proof (cases "c_hasQuit (cl u c)")
    case True
    then show ?thesis using same r assms(2) n by (simp add: same_state_def)
  next
    case False
    then have s: "same_state v (departed E c u)" using same by simp
    have "w_next_client v = w_next_client w" using s n by (simp add: same_state_def departed_fields)
    moreover have "\<not> alive v c" using alive_same [OF s] by (simp add: departed_alive)
    ultimately show ?thesis using r assms(2) by (simp add: alive_def)
  qed
qed

lemma readloop_quits:
  assumes "reachable E w" "c < w_next_client w" "readloop E P c data w = Ret v"
  shows "reachable E v \<and> c_hasQuit (cl v c) \<and> c < w_next_client v"
  using assms
proof (induction "length data" arbitrary: data w rule: less_induct)
  case less
  show ?case
  proof (cases "Socket_Read (c_socket_closed (cl w c)) data")
    case (ReadLine line rest)
    then have open_: "\<not> c_socket_closed (cl w c)" and "read_line data = ReadLine line rest"
      by (auto simp: Socket_Read_def split: if_splits)
    then have shorter: "length rest < length data" by (simp add: read_line_shorter)
    from ReadLine less.prems(3) obtain u where u: "handle_line E c line w = Ret u" "readloop E P c rest u = Ret v"
      by (subst (asm) readloop.simps) (auto simp: and_then_Ret_iff goroutine_Ret)
    have "reachable E u" by (rule reachable.more [OF less.prems(1) step.line [OF less.prems(2) open_ u(1)]])
    moreover have "c < w_next_client u"
      using line_keeps_clients [OF less.prems(1,2) open_ u(1)] less.prems(2) by simp
    ultimately show ?thesis using less.hyps [OF shorter _ _ u(2)] by blast
  next
    case ReadEOF
    with less.prems(3) have "connection_closed E c w = Ret v" by (subst (asm) readloop.simps) (simp add: goroutine_Ret)
    with less.prems(1,2) show ?thesis by (rule connection_closed_quits)
  next
    case ReadError
    with less.prems(3) have "connection_closed E c w = Ret v" by (subst (asm) readloop.simps) (simp add: goroutine_Ret)
    with less.prems(1,2) show ?thesis by (rule connection_closed_quits)
  qed
qed

lemma tame_keeps_free:
  assumes "reachable E w" "whowas_free (srv_whoWas w)" "tame_line E line" "handle_line E c line w = Ret v"
  shows "whowas_free (srv_whoWas v)"
proof -
  have "log_in log_free w" using log_reachable [OF assms(1)] assms(2) by (simp add: log_in_def log_free_def)
  moreover have "False" if "ParseCommand E line = (code, Inr (WhoWasCommand nicks lim target))" for code nicks lim target
    using tame_lineD [OF assms(3) that] by (simp add: tame_def)
  ultimately have "on_ret (log_in log_free) (handle_line E c line w)"
    by (intro free_log.log_handle_line) blast+
  then show ?thesis using assms(4) by (simp add: log_in_def log_free_def)
qed

lemma readloop_outcome:
  assumes "reachable E w" "c < w_next_client w" "whowas_free (srv_whoWas w)"
    and "\<forall>line \<in> set (read_all data). tame_line E line"
  shows "readloop E P c data w \<noteq> Panic \<and> (attentive P \<longrightarrow> (\<exists>v. readloop E P c data w = Ret v))"
  using assms
proof (induction "length data" arbitrary: data w rule: less_induct)
  case less
  show ?case
  proof (cases "Socket_Read (c_socket_closed (cl w c)) data")
    case (ReadLine line rest)
    then have open_: "\<not> c_socket_closed (cl w c)" and read: "read_line data = ReadLine line rest"
      by (auto simp: Socket_Read_def split: if_splits)
    then have lines: "read_all data = line # read_all rest" by (simp add: read_all.simps [of data])
    then have tame: "tame_line E line" using less.prems(4) by simp
    have "\<And>code cmd. ParseCommand E line = (code, Inr cmd) \<Longrightarrow> \<not> risky E w cmd"
      using tame_lineD [OF tame] tame_not_risky by blast
    then have line: "goroutine P (handle_line E c line) w \<noteq> Panic"
      "attentive P \<Longrightarrow> \<exists>v. goroutine P (handle_line E c line) w = Ret v"
      using line_outcome [OF less.prems(1,2) open_ less.prems(3), of line P] by blast+
    have loop: "readloop E P c data w = and_then (goroutine P (handle_line E c line) w) (readloop E P c rest)"
      using ReadLine by (subst readloop.simps) simp
    show ?thesis
    proof (cases "goroutine P (handle_line E c line) w")
      case (Ret u)
      then have u: "handle_line E c line w = Ret u" by (simp add: goroutine_Ret)
      have "reachable E u" by (rule reachable.more [OF less.prems(1) step.line [OF less.prems(2) open_ u]])
      moreover have "c < w_next_client u"
        using line_keeps_clients [OF less.prems(1,2) open_ u] less.prems(2) by simp
      ultimately show ?thesis
        using less.hyps [OF read_line_shorter [OF read]] tame_keeps_free [OF less.prems(1,3) tame u] less.prems(4)
        by (simp add: loop Ret lines)
    next
      case Panic
      then show ?thesis using line(1) by blast
    next
      case Blocked
      then show ?thesis using line(2) by (auto simp: loop)
    qed
  next
    case ReadEOF
    with closed_outcome(1,3) [OF less.prems(1-3)] show ?thesis by (subst (1 2) readloop.simps) simp
  next
    case ReadError
    with closed_outcome(1,3) [OF less.prems(1-3)] show ?thesis by (subst (1 2) readloop.simps) simp
  qed
qed

text \<open>What has quit is in none of the shared tables.\<close>

lemma quit_client_gone:
  assumes "reachable E w" "c_hasQuit (cl w c)"
  shows "nick_get E w n \<noteq> Some c" "ch < w_next_chan w \<Longrightarrow> \<not> is_member E w ch c"
proof -
  have "nick_inv E w" "chan_inv E {} w" using reachable_inv [OF assms(1)] by (simp_all add: inv_def)
  then show "nick_get E w n \<noteq> Some c" "ch < w_next_chan w \<Longrightarrow> \<not> is_member E w ch c"
    using nick_inv_get [of E w n c] chan_inv_member [of E "{}" w ch c] assms(2) by (auto simp: alive_def)
qed

end

end
