(* ===== verification/Demo.thy ===== *)
theory Demo
  imports Readloop
begin

text \<open>
  A short session on the instance \<open>list_env\<close>: two clients connect, register and join a channel. Its
  worlds are reachable, and they are the concrete inputs of the properties that speak of reachable
  states.
\<close>

section \<open>The lines\<close>

lemmas eval_text = NewName_def NewText_def NewNames_def to_upper_def to_lower_def runes_ascii is_ascii_def
  rune_upper_def rune_lower_def ascii_upper_def ascii_lower_def encode_ascii go_simps

lemma parse_nick:
  "ParseCommand list_env ''NICK ann'' = (''NICK'', Inr (NickCommand ''ann''))"
  "ParseCommand list_env ''NICK bob'' = (''NICK'', Inr (NickCommand ''bob''))"
  by (simp_all add: ParseCommand_def ParseLine_def splitArg_def is_space_def parse_args.simps
      parseCommandFuncs_def ParseNickCommand_def eval_text)

lemma parse_user:
  "ParseCommand list_env ''USER u 0 0 :r'' = (''USER'', Inr (RFC2812UserCommand ''u'' ''r'' 0 ''0''))"
  by (simp add: ParseCommand_def ParseLine_def splitArg_def is_space_def parse_args.simps
      parseCommandFuncs_def ParseUserCommand_def parse_uint_def is_digit_def digits_val_def digit_val_def eval_text)

lemma parse_join:
  "ParseCommand list_env ''JOIN #c'' = (''JOIN'', Inr (JoinCommand [(''#c'', [])] False))"
  by (simp add: ParseCommand_def ParseLine_def splitArg_def is_space_def parse_args.simps
      parseCommandFuncs_def ParseJoinCommand_def eval_text)

lemma names_ok:
  "IsNickname list_env ''ann'' = Some True" "IsNickname list_env ''bob'' = Some True"
  "IsChannel list_env ''#c''"
  by (simp_all add: IsNickname_def IsHostname_def IsChannel_def nickname_expr_def nick_first_forbidden_def eval_text
      is_letter_def is_number_def is_punct_def is_symbol_def)

section \<open>The worlds\<close>

definition empty_server :: "rep world" where
  "empty_server = two_clients\<lparr>w_clients := (\<lambda>_. fresh_client), w_next_client := 0, srv_nicks := [],
     srv_connections := 0, w_insecure := 0\<rparr>"

definition connected :: "rep world" where
  "connected = accept list_env False ''host'' (accept list_env False ''host'' empty_server)"

definition new_client :: "rep Client" where
  "new_client = fresh_client\<lparr>c_hostmask := ''686f7374'', c_idleTimer := Some (Armed IDLE_TIMEOUT)\<rparr>"

lemma accept_list_env:
  assumes "srv_password w = None" "w_clock w = 0"
  shows "accept list_env False ''host'' w =
    w\<lparr>w_clients := (w_clients w)(w_next_client w := new_client), w_next_client := w_next_client w + 1,
      srv_connections := srv_connections w + 1, w_insecure := w_insecure w + 1\<rparr>"
  using assms
  by (simp add: accept_def NewClient_def count_connection_def Let_def Touch_def upd_client_def
      new_client_def fresh_client_def NewName_def SHA256_def hex_byte_def hex_digits_def fun_eq_iff)

lemma empty_server_simps [simp]:
  "cl empty_server c = fresh_client" "w_next_client empty_server = 0" "srv_nicks empty_server = []"
  "srv_channels empty_server = RNames []" "w_next_chan empty_server = 0"
  "w_chans empty_server = (\<lambda>_. blank_channel)" "srv_whoWas empty_server = NewWhoWasList 100"
  "w_clock empty_server = 0" "srv_operators empty_server = [(''root'', ''key'')]"
  "srv_accounts empty_server = []" "srv_password empty_server = None"
  by (simp_all add: empty_server_def two_clients_def)

lemma connected_simps [simp]:
  "cl connected c = (if c < 2 then new_client else fresh_client)" "w_next_client connected = 2"
  "srv_nicks connected = []" "srv_channels connected = RNames []" "w_next_chan connected = 0"
  "w_chans connected = (\<lambda>_. blank_channel)" "srv_whoWas connected = NewWhoWasList 100"
  "w_clock connected = 0" "srv_operators connected = [(''root'', ''key'')]" "srv_accounts connected = []"
  by (auto simp: connected_def accept_list_env less_Suc_eq numeral_2_eq_2)

lemma reachable_connected: "reachable list_env connected"
proof -
  have "initial list_env empty_server" by (simp add: initial_def empty_server_def two_clients_def)
  then show ?thesis unfolding connected_def
    by (rule reachable.more [OF reachable.more [OF reachable.start step.connect] step.connect])
qed

text \<open>What NICK, USER and JOIN do, up to the replies.\<close>

lemma nick_line:
  assumes "ParseCommand list_env line = (''NICK'', Inr (NickCommand nick))" "IsNickname list_env nick = Some True"
    and "cl w c = new_client" "nick_get list_env w nick = None" "nick \<noteq> []"
  shows "handle_line list_env c line w = Ret (w\<lparr>w_clients := (w_clients w)(c := new_client\<lparr>c_nick := nick\<rparr>),
      srv_nicks := srv_nicks w @ [(to_lower list_env nick, c)]\<rparr>)"
proof -
  have "snd (nick_add list_env c (upd_client c (\<lambda>r. r\<lparr>c_nick := nick\<rparr>) w)) =
      w\<lparr>w_clients := (w_clients w)(c := new_client\<lparr>c_nick := nick\<rparr>), srv_nicks := srv_nicks w @ [(to_lower list_env nick, c)]\<rparr>"
    using assms by (subst nick_add_entry) (simp_all add: nick_get_def upd_client_def)
  then show ?thesis
    using assms by (simp add: handle_line_def check_password_def processCommand_def HandleRegServer_def
        HandleRegServer_Nick_def SetNickname_def tryRegister_def HasUsername_def new_client_def fresh_client_def)
qed

definition registered_client :: "string \<Rightarrow> rep Client" where
  "registered_client nick = new_client\<lparr>c_nick := nick, c_username := ''u'', c_realname := ''r'',
     c_registered := True, c_modes := RSet [HostMask]\<rparr>"

text \<open>USER registers a client that has a nick.\<close>

lemma user_line:
  assumes "cl w c = new_client\<lparr>c_nick := nick\<rparr>" "nick \<noteq> []" "srv_nicks w = es @ [(to_lower list_env nick, c)]"
    "to_lower list_env nick \<notin> fst ` set es" "w_clock w = 0"
  shows "\<exists>w'. handle_line list_env c ''USER u 0 0 :r'' w = Ret w' \<and>
    core w' = core (w\<lparr>w_clients := (w_clients w)(c := registered_client nick)\<rparr>)"
proof -
  let ?k = "to_lower list_env nick"
  let ?w1 = "w\<lparr>srv_nicks := es\<rparr>"
  let ?w2 = "upd_client c (\<lambda>r. r\<lparr>c_username := ''u'', c_realname := ''r''\<rparr>) ?w1"
  let ?w3 = "w\<lparr>w_clients := (w_clients w)(c := (cl w c)\<lparr>c_username := ''u'', c_realname := ''r''\<rparr>)\<rparr>"
  have none: "map_of es ?k = None" using assms(4) by (simp add: map_of_eq_None_iff)
  have "filter (\<lambda>(k', _). k' \<noteq> ?k) es = es" using assms(4) by (intro filter_True) force
  then have "snd (nick_remove list_env c w) = ?w1"
    using assms(1-3) none
    by (simp add: nick_remove_def HasNick_def nick_get_def delete_filter map_add_def)
  moreover have "snd (nick_add list_env c ?w2) = ?w3"
    using assms(1-3) none by (subst nick_add_entry) (simp_all add: nick_get_def upd_client_def)
  ultimately have set: "setUserInfo list_env c ''u'' ''r'' w = tryRegister list_env c ?w3"
    by (simp add: setUserInfo_def Let_def)
  have "core (tryRegister list_env c ?w3) = core (Register list_env c ?w3)"
    using assms(1,2)
    by (simp add: tryRegister_def core_simps HasNick_def HasUsername_def new_client_def fresh_client_def)
  also have "Register list_env c ?w3 = w\<lparr>w_clients := (w_clients w)(c := registered_client nick)\<rparr>"
    using assms(1,5)
    by (simp add: Register_def Touch_def upd_client_def set_mode_def registered_client_def new_client_def
        fresh_client_def fun_eq_iff)
  finally have "core (tryRegister list_env c ?w3) = core (w\<lparr>w_clients := (w_clients w)(c := registered_client nick)\<rparr>)" .
  moreover have "handle_line list_env c ''USER u 0 0 :r'' w = Ret (tryRegister list_env c ?w3)"
    using assms(1)
    by (simp add: handle_line_def parse_user check_password_def processCommand_def HandleRegServer_def
        HandleRegServer_RFC2812User_def Flags_def set new_client_def fresh_client_def)
  ultimately show ?thesis by blast
qed

text \<open>JOIN by a registered client, when its list of channels is empty.\<close>

definition demo_chan :: "(nat \<times> rep) list \<Rightarrow> rep Channel" where
  "demo_chan ms =
     \<lparr>ch_flags = RSet [NoOutside, OpOnlyTopic],
      ch_lists = [BanMask \<mapsto> NewUserMaskSet, ExceptMask \<mapsto> NewUserMaskSet, InviteMask \<mapsto> NewUserMaskSet],
      ch_key = [], ch_members = RMem ms, ch_name = ''#c'', ch_topic = [], ch_userLimit = 0\<rparr>"

definition joined_client :: "string \<Rightarrow> rep Client" where
  "joined_client nick = (registered_client nick)\<lparr>c_channels := RSet [0]\<rparr>"

lemma demo_admits: "chn w ch = demo_chan ms \<Longrightarrow> admits list_env w ch c []"
  by (simp add: admits_def Let_def IsFull_def CheckKey_def demo_chan_def mask_list_def mask_match_def
      NewUserMaskSet_def chan_mode_defs)

lemma join_line:
  assumes "cl w c = registered_client nick" "w_clock w = 0"
  shows "\<exists>w1. core w1 = core w \<and>
    handle_line list_env c ''JOIN #c'' w = Ret (join_one list_env c (''#c'', []) w1)"
proof -
  let ?w1 = "note_activity c (JoinCommand [(''#c'', [])] False) (w\<lparr>w_commands := w_commands w + 1\<rparr>)"
  have "?w1 = w\<lparr>w_commands := w_commands w + 1\<rparr>"
    using assms
    by (simp add: note_activity_def Touch_def Active_def upd_client_def registered_client_def new_client_def
        fresh_client_def fun_eq_iff)
  then have "core ?w1 = core w" by (simp add: core_simps)
  moreover have "handle_line list_env c ''JOIN #c'' w = Ret (join_one list_env c (''#c'', []) ?w1)"
    using assms by (simp add: handle_line_def parse_join check_password_def processCommand_def HandleServer_def
        HandleServer_Join_def registered_client_def)
  ultimately show ?thesis by blast
qed

lemma join_new:
  assumes "cl w c = registered_client nick" "w_next_chan w = 0" "srv_channels w = RNames []"
  shows "core (join_one list_env c (''#c'', []) w) =
    core (w\<lparr>w_clients := (w_clients w)(c := joined_client nick),
      w_chans := (w_chans w)(0 := demo_chan [(c, RSet [ChannelCreator, ChannelOperator])]),
      w_next_chan := 1, srv_channels := RNames [(''#c'', 0)]\<rparr>)"
proof -
  let ?w1 = "snd (NewChannel list_env ''#c'' True w)"
  have w1: "NewChannel list_env ''#c'' True w = (0, ?w1)" "chn ?w1 0 = demo_chan []"
    "?w1 = w\<lparr>w_chans := (w_chans w)(0 := demo_chan []), w_next_chan := 1, srv_channels := RNames [(''#c'', 0)]\<rparr>"
    using assms(2,3) by (simp_all add: NewChannel_def Let_def upd_chan_def demo_chan_def DefaultChannelModes_def
        chan_mode_defs)
  have "\<not> is_member list_env ?w1 0 c" by (simp add: w1(2)) (simp add: demo_chan_def)
  then have "core (channel_Join list_env 0 c [] ?w1) = core (joined list_env 0 c ?w1)"
    using demo_admits [OF w1(2)] by (simp add: core_Join)
  moreover have "joined list_env 0 c ?w1 = w\<lparr>w_clients := (w_clients w)(c := joined_client nick),
      w_chans := (w_chans w)(0 := demo_chan [(c, RSet [ChannelCreator, ChannelOperator])]),
      w_next_chan := 1, srv_channels := RNames [(''#c'', 0)]\<rparr>"
    unfolding w1(3) using assms(1)
    by (simp add: joined_def Let_def set_members_def upd_chan_def upd_client_def demo_chan_def member_set_def
        joined_client_def registered_client_def new_client_def fresh_client_def fun_eq_iff chan_mode_defs)
  moreover have "join_one list_env c (''#c'', []) w = channel_Join list_env 0 c [] ?w1"
    using assms(3) by (simp add: join_one_def names_ok get_channel_def, subst w1(1), simp)
  ultimately show ?thesis by simp
qed

lemma join_known:
  assumes "cl w c = registered_client nick" "chn w 0 = demo_chan [(d, m)]" "srv_channels w = RNames [(''#c'', 0)]"
    "d \<noteq> c"
  shows "core (join_one list_env c (''#c'', []) w) =
    core (w\<lparr>w_clients := (w_clients w)(c := joined_client nick),
      w_chans := (w_chans w)(0 := demo_chan [(d, m), (c, RSet [])])\<rparr>)"
proof -
  have no: "\<not> is_member list_env w 0 c" using assms(2,4) by (simp add: demo_chan_def)
  then have "core (channel_Join list_env 0 c [] w) = core (joined list_env 0 c w)"
    using demo_admits [OF assms(2)] by (simp add: core_Join)
  moreover have "joined list_env 0 c w = w\<lparr>w_clients := (w_clients w)(c := joined_client nick),
      w_chans := (w_chans w)(0 := demo_chan [(d, m), (c, RSet [])])\<rparr>"
    using assms(1,2,4)
    by (simp add: joined_def Let_def set_members_def upd_chan_def upd_client_def demo_chan_def
        joined_client_def registered_client_def new_client_def fresh_client_def fun_eq_iff)
  ultimately show ?thesis
    using assms(3) by (simp add: join_one_def names_ok get_channel_def)
qed

section \<open>The session\<close>

lemma reachable_line:
  assumes "reachable E w" "c < w_next_client w" "\<not> c_socket_closed (cl w c)" "handle_line E c line w = Ret w'"
  shows "reachable E w'"
  using assms by (blast intro: reachable.more step.line)

lemma lower_names [simp]: "to_lower list_env ''ann'' = ''ann''" "to_lower list_env ''bob'' = ''bob''"
  by (simp_all add: eval_text)

lemma client_open [simp]:
  "\<not> c_socket_closed new_client" "\<not> c_socket_closed (new_client\<lparr>c_nick := n\<rparr>)"
  "\<not> c_socket_closed (registered_client n)" "\<not> c_socket_closed (joined_client n)"
  by (simp_all add: joined_client_def registered_client_def new_client_def fresh_client_def)

text \<open>Chaining the lines: only the part of the world that \<open>core\<close> keeps decides what the next line does.\<close>

definition reaches :: "rep world \<Rightarrow> bool" where
  "reaches s \<longleftrightarrow> (\<exists>w. reachable list_env w \<and> core w = core s)"

lemma reaches_line:
  assumes "reaches s" "c < w_next_client s" "\<not> c_socket_closed (cl s c)"
    and "\<And>w. core w = core s \<Longrightarrow> \<exists>w'. handle_line list_env c line w = Ret w' \<and> core w' = core s'"
  shows "reaches s'"
proof -
  obtain w where w: "reachable list_env w" "core w = core s" using assms(1) by (auto simp: reaches_def)
  obtain w' where w': "handle_line list_env c line w = Ret w'" "core w' = core s'"
    using assms(4) [OF w(2)] by blast
  have "reachable list_env w'"
    using reachable_line [OF w(1) _ _ w'(1)] assms(2,3) core_fields(1,15) [OF w(2)] by simp
  with w'(2) show ?thesis by (auto simp: reaches_def)
qed

lemma core_upds:
  assumes "core w = core s"
  shows "core (w\<lparr>w_clients := x\<rparr>) = core (s\<lparr>w_clients := x\<rparr>)"
    and "core (w\<lparr>w_clients := x, srv_nicks := y\<rparr>) = core (s\<lparr>w_clients := x, srv_nicks := y\<rparr>)"
    and "core (w\<lparr>w_clients := x, w_chans := z\<rparr>) = core (s\<lparr>w_clients := x, w_chans := z\<rparr>)"
    and "core (w\<lparr>w_clients := x, w_chans := z, w_next_chan := n, srv_channels := r\<rparr>) =
      core (s\<lparr>w_clients := x, w_chans := z, w_next_chan := n, srv_channels := r\<rparr>)"
  using assms unfolding core_def by (cases w, cases s, simp)+

lemma reaches_nick:
  assumes "reaches s" "c < w_next_client s" "cl s c = new_client"
    and "ParseCommand list_env line = (''NICK'', Inr (NickCommand nick))" "IsNickname list_env nick = Some True"
    and "nick_get list_env s nick = None" "nick \<noteq> []"
  shows "reaches (s\<lparr>w_clients := (w_clients s)(c := new_client\<lparr>c_nick := nick\<rparr>),
      srv_nicks := srv_nicks s @ [(to_lower list_env nick, c)]\<rparr>)"
proof (rule reaches_line [OF assms(1,2), where line = line])
  fix w assume w: "core w = core s"
  note f = core_fields [OF w]
  show "\<exists>w'. handle_line list_env c line w = Ret w' \<and>
      core w' = core (s\<lparr>w_clients := (w_clients s)(c := new_client\<lparr>c_nick := nick\<rparr>),
        srv_nicks := srv_nicks s @ [(to_lower list_env nick, c)]\<rparr>)"
    using nick_line [OF assms(4,5), of w c] assms(3,6,7) core_upds(2) [OF w] f(1,6)
    by (simp add: nick_get_def)
qed (simp add: assms(3))

lemma reaches_user:
  assumes "reaches s" "c < w_next_client s" "cl s c = new_client\<lparr>c_nick := nick\<rparr>" "nick \<noteq> []"
    and "srv_nicks s = es @ [(to_lower list_env nick, c)]" "to_lower list_env nick \<notin> fst ` set es" "w_clock s = 0"
  shows "reaches (s\<lparr>w_clients := (w_clients s)(c := registered_client nick)\<rparr>)"
proof (rule reaches_line [OF assms(1,2)])
  fix w assume w: "core w = core s"
  note f = core_fields [OF w]
  show "\<exists>w'. handle_line list_env c ''USER u 0 0 :r'' w = Ret w' \<and>
      core w' = core (s\<lparr>w_clients := (w_clients s)(c := registered_client nick)\<rparr>)"
    using user_line [of w c nick es] assms(3-7) core_upds(1) [OF w] f(1,6,14) by simp
qed (simp add: assms(3))

lemma reaches_join:
  assumes "reaches s" "c < w_next_client s" "cl s c = registered_client nick" "w_clock s = 0"
    and "\<And>w. core w = core s \<Longrightarrow> core (join_one list_env c (''#c'', []) w) = core s'"
  shows "reaches s'"
proof (rule reaches_line [OF assms(1,2)])
  fix w assume w: "core w = core s"
  obtain w1 where "core w1 = core w"
    "handle_line list_env c ''JOIN #c'' w = Ret (join_one list_env c (''#c'', []) w1)"
    using join_line [of w c nick] assms(3,4) core_fields(1,14) [OF w] by auto
  with assms(5) w show "\<exists>w'. handle_line list_env c ''JOIN #c'' w = Ret w' \<and> core w' = core s'" by simp
qed (simp add: assms(3))

lemma reaches_join_new:
  assumes "reaches s" "c < w_next_client s" "cl s c = registered_client nick" "w_clock s = 0"
    and "w_next_chan s = 0" "srv_channels s = RNames []"
  shows "reaches (s\<lparr>w_clients := (w_clients s)(c := joined_client nick),
      w_chans := (w_chans s)(0 := demo_chan [(c, RSet [ChannelCreator, ChannelOperator])]),
      w_next_chan := 1, srv_channels := RNames [(''#c'', 0)]\<rparr>)"
proof (rule reaches_join [OF assms(1-4)])
  fix w assume w: "core w = core s"
  note f = core_fields(1-4) [OF w]
  show "core (join_one list_env c (''#c'', []) w) = core (s\<lparr>w_clients := (w_clients s)(c := joined_client nick),
      w_chans := (w_chans s)(0 := demo_chan [(c, RSet [ChannelCreator, ChannelOperator])]),
      w_next_chan := 1, srv_channels := RNames [(''#c'', 0)]\<rparr>)"
    using join_new [of w c nick] assms(3,5,6) unfolding f core_upds(4) [OF w] by simp
qed

lemma reaches_join_known:
  assumes "reaches s" "c < w_next_client s" "cl s c = registered_client nick" "w_clock s = 0"
    and "chn s 0 = demo_chan [(d, m)]" "srv_channels s = RNames [(''#c'', 0)]" "d \<noteq> c"
  shows "reaches (s\<lparr>w_clients := (w_clients s)(c := joined_client nick),
      w_chans := (w_chans s)(0 := demo_chan [(d, m), (c, RSet [])])\<rparr>)"
proof (rule reaches_join [OF assms(1-4)])
  fix w assume w: "core w = core s"
  note f = core_fields(1-4) [OF w]
  show "core (join_one list_env c (''#c'', []) w) = core (s\<lparr>w_clients := (w_clients s)(c := joined_client nick),
      w_chans := (w_chans s)(0 := demo_chan [(d, m), (c, RSet [])])\<rparr>)"
    using join_known [of w c nick d m] assms(3,5-7) unfolding f core_upds(3) [OF w] by simp
qed

text \<open>The worlds of the session differ from \<open>connected\<close> in these fields only.\<close>

definition stage :: "(nat \<Rightarrow> rep Client) \<Rightarrow> (nat \<Rightarrow> rep Channel) \<Rightarrow> nat \<Rightarrow> rep \<Rightarrow> (string \<times> nat) list \<Rightarrow> rep world" where
  "stage cs chs n r ns = connected\<lparr>w_clients := cs, w_chans := chs, w_next_chan := n, srv_channels := r, srv_nicks := ns\<rparr>"

lemma stage_simps [simp]:
  "w_clients (stage cs chs n r ns) = cs" "w_chans (stage cs chs n r ns) = chs" "w_next_chan (stage cs chs n r ns) = n"
  "srv_channels (stage cs chs n r ns) = r" "srv_nicks (stage cs chs n r ns) = ns"
  "w_next_client (stage cs chs n r ns) = 2" "w_clock (stage cs chs n r ns) = 0"
  "(stage cs chs n r ns)\<lparr>w_clients := cs'\<rparr> = stage cs' chs n r ns"
  "(stage cs chs n r ns)\<lparr>w_chans := chs'\<rparr> = stage cs chs' n r ns"
  "(stage cs chs n r ns)\<lparr>w_next_chan := n'\<rparr> = stage cs chs n' r ns"
  "(stage cs chs n r ns)\<lparr>srv_channels := r'\<rparr> = stage cs chs n r' ns"
  "(stage cs chs n r ns)\<lparr>srv_nicks := ns'\<rparr> = stage cs chs n r ns'"
  by (simp_all add: stage_def)

abbreviation ann_bob :: "rep Client \<Rightarrow> rep Client \<Rightarrow> nat \<Rightarrow> rep Client" where
  "ann_bob a b \<equiv> (\<lambda>c. if c < 2 then new_client else fresh_client)(0 := a, 1 := b)"

definition session_world :: "rep world" where
  "session_world = stage (ann_bob (joined_client ''ann'') (joined_client ''bob''))
     ((\<lambda>_. blank_channel)(0 := demo_chan [(0, RSet [ChannelCreator, ChannelOperator]), (1, RSet [])]))
     1 (RNames [(''#c'', 0)]) [(''ann'', 0), (''bob'', 1)]"

theorem session: "\<exists>w. reachable list_env w \<and> core w = core session_world"
proof -
  let ?r = registered_client and ?chs = "\<lambda>_. blank_channel" and ?m = "RSet [ChannelCreator, ChannelOperator]"
  let ?s = "\<lambda>a b. stage (ann_bob a b) ?chs 0 (RNames [])"
  have "connected = ?s new_client new_client []"
    by (rule world.equality) (simp_all add: stage_def fun_eq_iff)
  then have "reaches (?s new_client new_client [])" using reachable_connected by (auto simp: reaches_def)
  from reaches_nick [OF this, of 0, OF _ _ parse_nick(1) names_ok(1)]
  have "reaches (?s (new_client\<lparr>c_nick := ''ann''\<rparr>) new_client [(''ann'', 0)])"
    by (simp add: nick_get_def fun_upd_twist)
  from reaches_user [OF this, of 0 "''ann''" "[]"]
  have "reaches (?s (?r ''ann'') new_client [(''ann'', 0)])" by (simp add: fun_upd_twist)
  from reaches_nick [OF this, of 1, OF _ _ parse_nick(2) names_ok(2)]
  have "reaches (?s (?r ''ann'') (new_client\<lparr>c_nick := ''bob''\<rparr>) [(''ann'', 0), (''bob'', 1)])"
    by (simp add: nick_get_def)
  from reaches_user [OF this, of 1 "''bob''" "[(''ann'', 0)]"]
  have "reaches (?s (?r ''ann'') (?r ''bob'') [(''ann'', 0), (''bob'', 1)])" by simp
  from reaches_join_new [OF this, of 0 "''ann''"]
  have "reaches (stage (ann_bob (joined_client ''ann'') (?r ''bob'')) (?chs(0 := demo_chan [(0, ?m)])) 1
      (RNames [(''#c'', 0)]) [(''ann'', 0), (''bob'', 1)])"
    by (simp add: fun_upd_twist)
  from reaches_join_known [OF this, of 1 "''bob''" 0 ?m]
  have "reaches session_world" by (simp add: session_world_def)
  then show ?thesis by (simp add: reaches_def)
qed

section \<open>What the session has\<close>

lemma session_simps:
  assumes "core w = core session_world"
  shows "cl w 0 = joined_client ''ann''" "cl w 1 = joined_client ''bob''" "w_next_client w = 2"
    "chn w 0 = demo_chan [(0, RSet [ChannelCreator, ChannelOperator]), (1, RSet [])]" "w_next_chan w = 1"
    "srv_channels w = RNames [(''#c'', 0)]" "srv_nicks w = [(''ann'', 0), (''bob'', 1)]"
    "srv_operators w = [(''root'', ''key'')]" "srv_whoWas w = NewWhoWasList 100"
  using core_fields [OF assms] by (simp_all add: session_world_def stage_def)

lemma joined_client_fields [simp]:
  "c_nick (joined_client n) = n" "c_hasQuit (joined_client n) = False" "c_registered (joined_client n)"
  "c_authorized (joined_client n)" "c_channels (joined_client n) = RSet [0]" "c_modes (joined_client n) = RSet [HostMask]"
  "c_replies_closed (joined_client n) = False" "c_username (joined_client n) = ''u''" "c_tls (joined_client n) = False"
  by (simp_all add: joined_client_def registered_client_def new_client_def fresh_client_def)

lemma demo_chan_fields [simp]:
  "ch_members (demo_chan ms) = RMem ms" "ch_flags (demo_chan ms) = RSet [NoOutside, OpOnlyTopic]"
  "ch_name (demo_chan ms) = ''#c''"
  by (simp_all add: demo_chan_def)

text \<open>The second client of the session can become an operator, and can quit.\<close>

lemma parse_oper:
  "ParseCommand list_env ''OPER root key'' = (''OPER'', Inr (OperCommand ''root'' None ''key'' False))"
  by (simp add: ParseCommand_def ParseLine_def splitArg_def is_space_def parse_args.simps
      parseCommandFuncs_def ParseOperCommand_def eval_text)

lemma session_oper:
  assumes "core w = core session_world"
  shows "\<exists>w'. handle_line list_env 1 ''OPER root key'' w = Ret w' \<and> has_mode list_env w' 1 Operator"
proof -
  note s = session_simps [OF assms]
  let ?cmd = "OperCommand ''root'' (Some ''key'') ''key'' False"
  let ?w1 = "note_activity 1 ?cmd (w\<lparr>w_commands := w_commands w + 1\<rparr>)"
  let ?w2 = "upd_client 1 (\<lambda>r. set_mode list_env WallOps (set_mode list_env Operator r)) ?w1"
  have "core (HandleServer_Oper list_env 1 (Some ''key'') False ?w1) = core ?w2"
    by (simp add: HandleServer_Oper_def Let_def core_simps)
  from core_fields(1) [OF this]
  have "has_mode list_env (HandleServer_Oper list_env 1 (Some ''key'') False ?w1) 1 Operator"
    by (simp add: set_mode_def user_mode_defs)
  moreover have "handle_line list_env 1 ''OPER root key'' w = Ret (HandleServer_Oper list_env 1 (Some ''key'') False ?w1)"
    using s by (simp add: handle_line_def parse_oper check_password_def ComparePassword_def processCommand_def HandleServer_def)
  ultimately show ?thesis by blast
qed

lemma quit_returns:
  assumes "\<not> c_hasQuit (cl w c)" "\<not> c_replies_closed (cl w c)" "srv_whoWas w = NewWhoWasList 100"
  shows "\<exists>v. client_Quit list_env c msg w = Ret v \<and> w_next_chan v = w_next_chan w"
proof -
  define w2 where "w2 = Reply c (RplError ''quit'') (upd_client c (\<lambda>r. r\<lparr>c_hasQuit := True\<rparr>) w)"
  have "core w2 = core (upd_client c (\<lambda>r. r\<lparr>c_hasQuit := True\<rparr>) w)" by (simp add: w2_def core_simps)
  note f = core_fields [OF this]
  obtain l where l: "append_whowas c w2 = Ret (w2\<lparr>srv_whoWas := l\<rparr>)"
    using f(7) assms(3) by (auto simp: append_whowas_def whowas_append_def NewWhoWasList_def upd_client_def Let_def)
  obtain w4 where w4: "destroy list_env c (w2\<lparr>srv_whoWas := l\<rparr>) = Ret w4" "w_next_chan w4 = w_next_chan w"
    using f(1,3) assms(2) by (cases "c_tls (cl w c)") (auto simp: destroy_def Let_def upd_client_def)
  show ?thesis
    unfolding client_Quit_def Let_def w2_def [symmetric] using l w4 assms(1) core_fields(3) [OF core_reply_all]
    by simp
qed

lemma session_quit:
  assumes "core w = core session_world"
  shows "\<exists>v. client_Quit list_env 1 ''bye'' w = Ret v \<and> w_next_chan v = 1"
  using quit_returns [of w 1] session_simps [OF assms] by simp

text \<open>What a peer may send: one NICK.\<close>

definition demo_input :: string where
  "demo_input = ''NICK ann'' @ CRLF"

lemma read_nick: "read_all demo_input = [''NICK ann'']"
proof -
  have "line_ok ''NICK ann''" by (simp add: line_ok_def LF_def CR_def MaxScanTokenSize_def)
  from read_line_CRLF [OF this, of "[]"] show ?thesis
    by (simp add: demo_input_def read_all.simps read_line_nil)
qed

lemma nick_tame: "\<forall>line \<in> set (read_all demo_input). tame_line list_env line"
  by (simp add: read_nick tame_line_def parse_nick tame_def)

section \<open>A server with a password and an account\<close>

definition guarded_server :: "rep world" where
  "guarded_server = accept list_env False ''host''
     (empty_server\<lparr>srv_password := Some ''key'', srv_accounts := [(''bob'', b64_encode ''key'')]\<rparr>)"

lemma guarded_server_simps [simp]:
  "cl guarded_server 0 = new_client\<lparr>c_authorized := False\<rparr>" "w_next_client guarded_server = 1"
  "srv_password guarded_server = Some ''key''" "srv_accounts guarded_server = [(''bob'', b64_encode ''key'')]"
  "srv_operators guarded_server = [(''root'', ''key'')]"
  by (simp_all add: guarded_server_def accept_def NewClient_def count_connection_def Let_def Touch_def upd_client_def
      new_client_def fresh_client_def NewName_def SHA256_def hex_byte_def hex_digits_def)

lemma reachable_guarded: "reachable list_env guarded_server"
proof -
  have "initial list_env (empty_server\<lparr>srv_password := Some ''key'', srv_accounts := [(''bob'', b64_encode ''key'')]\<rparr>)"
    by (simp add: initial_def empty_server_def two_clients_def)
  then show ?thesis unfolding guarded_server_def by (rule reachable.more [OF reachable.start step.connect])
qed

lemma parse_login:
  "ParseCommand list_env ''PASS key'' = (''PASS'', Inr (PassCommand None ''key'' False))"
  "ParseCommand list_env ''AUTHENTICATE PLAIN'' = (''AUTHENTICATE'', Inr (AuthenticateCommand ''PLAIN''))"
  "ParseCommand list_env ''AUTHENTICATE Ym9iAABrZXk='' = (''AUTHENTICATE'', Inr (AuthenticateCommand ''Ym9iAABrZXk=''))"
  "ParseCommand list_env ''CAP REQ :sasl'' = (''CAP'', Inr (CapCommand ''REQ'' [''sasl'']))"
  by (simp_all add: ParseCommand_def ParseLine_def splitArg_def is_space_def parse_args.simps parseCommandFuncs_def
      ParsePassCommand_def ParseAuthenticateCommand_def ParseCapCommand_def split_spaces.simps eval_text)

lemma parse_stranger:
  "ParseCommand list_env ''OPER nobody x'' = (''OPER'', Inr (OperCommand ''nobody'' None ''x'' False))"
  "ParseCommand list_env ''PASS x'' = (''PASS'', Inr (PassCommand None ''x'' False))"
  by (simp_all add: ParseCommand_def ParseLine_def splitArg_def is_space_def parse_args.simps parseCommandFuncs_def
      ParsePassCommand_def ParseOperCommand_def eval_text)

text \<open>PASS, the two steps of a login, and the request of a capability.\<close>

definition passed :: "rep world" where
  "passed = guarded_server\<lparr>w_clients := (w_clients guarded_server)(0 := new_client)\<rparr>"

lemma pass_line: "handle_line list_env 0 ''PASS key'' guarded_server = Ret passed"
proof -
  have "new_client\<lparr>c_authorized := True\<rparr> = new_client" by (simp add: new_client_def fresh_client_def)
  then show ?thesis
    by (simp add: handle_line_def parse_login check_password_def ComparePassword_def processCommand_def
        HandleRegServer_def HandleRegServer_Pass_def upd_client_def passed_def new_client_def fresh_client_def)
qed

lemma reachable_passed: "reachable list_env passed"
  by (rule reachable_line [OF reachable_guarded _ _ pass_line]) (simp_all add: new_client_def fresh_client_def)

lemma clients_replies [simp]:
  "w_clients (Reply c s w) = w_clients w" "w_next_client (Reply c s w) = w_next_client w"
  "w_next_client (RplSaslSuccess c w) = w_next_client w" "w_next_client (RplLoggedIn c s w) = w_next_client w"
  by (rule core_fields; simp add: core_simps)+

lemma passed_simps [simp]: "cl passed 0 = new_client" "w_next_client passed = 1"
  "srv_accounts passed = [(''bob'', b64_encode ''key'')]"
  by (simp_all add: passed_def)

lemma new_client_fields [simp]:
  "c_authorized new_client" "\<not> c_registered new_client" "c_sasl new_client = NewSaslState"
  "c_capabilities new_client = []" "c_modes new_client = RSet []"
  by (simp_all add: new_client_def fresh_client_def)

definition challenged :: "rep world" where
  "challenged = (let w = upd_client 0 (\<lambda>r. r\<lparr>c_sasl := sasl_start (c_sasl r)\<rparr>) passed
     in Reply 0 (RplAuthenticate w ''+'') w)"

lemma plain_line: "handle_line list_env 0 ''AUTHENTICATE PLAIN'' passed = Ret challenged"
  by (simp add: handle_line_def parse_login check_password_def processCommand_def HandleRegServer_def
      HandleRegServer_Authenticate_def challenged_def NewSaslState_def Let_def)

lemma challenged_simps [simp]:
  "cl challenged 0 = new_client\<lparr>c_sasl := sasl_start NewSaslState\<rparr>" "w_next_client challenged = 1"
  "srv_accounts challenged = [(''bob'', b64_encode ''key'')]"
  by (simp_all add: challenged_def Let_def Reply_def)

lemma login_line: "\<exists>w. handle_line list_env 0 ''AUTHENTICATE Ym9iAABrZXk='' challenged = Ret w \<and>
    has_mode list_env w 0 Registered \<and> w_next_client w = 1"
proof -
  let ?w = "upd_client 0 (\<lambda>r. r\<lparr>c_sasl := sasl_write ''Ym9iAABrZXk='' (c_sasl r)\<rparr>) challenged"
  have "b64_decode ''Ym9iAABrZXk='' = Some ([CHR ''b'', CHR ''o'', CHR ''b'', CHR 0x00, CHR 0x00] @ ''key'')"
    "split_on (CHR 0x00) ([CHR ''b'', CHR ''o'', CHR ''b'', CHR 0x00, CHR 0x00] @ ''key'') = [''bob'', [], ''key'']"
    by code_simp+
  moreover have "store_Verify list_env (srv_accounts ?w) ''bob'' ''key''"
    by (simp add: store_Verify_def store_Get_def hasher_Compare_def hasher_Decode_def b64_decode_encode b64_encode_length
        del: b64_encode.simps)
  ultimately show ?thesis
    by (simp add: handle_line_def parse_login check_password_def processCommand_def HandleRegServer_def
        HandleRegServer_Authenticate_def sasl_start_def sasl_write_def NewSaslState_def Let_def sasl_authenticate_def
        set_mode_def)
qed

lemma request_line: "\<exists>w. handle_line list_env 0 ''CAP REQ :sasl'' passed = Ret w \<and> c_capabilities (cl w 0) = [''sasl''] \<and>
    w_next_client w = 1"
  by (simp add: handle_line_def parse_login check_password_def processCommand_def HandleRegServer_def
      HandleRegServer_Cap_def SupportedCapabilities_def Let_def)

end
