(* ===== verification/Metrics.thy ===== *)
theory Metrics
  imports Prelude "HOL-Library.AList"
begin

text \<open>
  src/internal/metrics.go: the registry of the metrics of the server. The metrics themselves are
  objects of the Prometheus client, a library: what is modelled of one is its kind, and the number
  of its labels. The library is a record \<open>prom_env\<close>: which kinds of objects have the methods of an
  interface, when \<open>MustRegister\<close> accepts a name, and the name it makes of a namespace, a subsystem
  and a name. \<open>prom_laws\<close> says what the server relies on.
\<close>

section \<open>The library\<close>

datatype metric = CounterObj | CounterFuncObj | GaugeObj | GaugeFuncObj | SummaryObj

datatype interface = CounterI | GaugeI | SummaryI

record prom_env =
  implements :: "metric \<Rightarrow> interface \<Rightarrow> bool"
  can_register :: "string list \<Rightarrow> string \<Rightarrow> bool"
  fq_name :: "string \<Rightarrow> string \<Rightarrow> string \<Rightarrow> string"

locale prom_laws =
  fixes P :: prom_env
  assumes counter_law: "implements P CounterObj CounterI"
    and gauge_law: "implements P GaugeObj GaugeI"
    and summary_law: "implements P SummaryObj SummaryI"
    and register_law: "can_register P names n \<longleftrightarrow> n \<notin> set names"
    and name_law: "ns \<noteq> [] \<Longrightarrow> s \<noteq> [] \<Longrightarrow> n \<noteq> [] \<Longrightarrow> fq_name P ns s n = ns @ ''_'' @ s @ ''_'' @ n"

section \<open>The registry\<close>

text \<open>
  The three maps of the struct. A vector of the library is the number of labels it was made with.
  \<open>m_registered\<close> are the names the library's default registry holds, a global of the process.
\<close>

record Metrics =
  m_namespace :: string
  m_metrics :: "(string \<times> metric) list"
  m_guagevecs :: "(string \<times> nat) list"
  m_sumvecs :: "(string \<times> nat) list"
  m_registered :: "string list"

definition NewMetrics :: "string \<Rightarrow> string list \<Rightarrow> Metrics" where
  "NewMetrics namespace names =
     \<lparr>m_namespace = namespace, m_metrics = [], m_guagevecs = [], m_sumvecs = [], m_registered = names\<rparr>"

definition metric_key :: "string \<Rightarrow> string \<Rightarrow> string" where
  "metric_key subsystem name = Sprintf ''%s_%s'' [subsystem, name]"

text \<open>\<open>prometheus.MustRegister\<close>.\<close>

definition MustRegister :: "prom_env \<Rightarrow> string \<Rightarrow> string \<Rightarrow> Metrics \<Rightarrow> Metrics outcome" where
  "MustRegister P subsystem name m =
     (let n = fq_name P (m_namespace m) subsystem name in
      if can_register P (m_registered m) n then Ret (m\<lparr>m_registered := n # m_registered m\<rparr>) else Panic)"

definition add_metric :: "metric \<Rightarrow> string \<Rightarrow> string \<Rightarrow> Metrics \<Rightarrow> Metrics" where
  "add_metric k subsystem name m = m\<lparr>m_metrics := AList.update (metric_key subsystem name) k (m_metrics m)\<rparr>"

definition NewCounter :: "prom_env \<Rightarrow> string \<Rightarrow> string \<Rightarrow> Metrics \<Rightarrow> Metrics outcome" where
  "NewCounter P subsystem name m = MustRegister P subsystem name (add_metric CounterObj subsystem name m)"

definition NewCounterFunc :: "prom_env \<Rightarrow> string \<Rightarrow> string \<Rightarrow> Metrics \<Rightarrow> Metrics outcome" where
  "NewCounterFunc P subsystem name m = MustRegister P subsystem name (add_metric CounterFuncObj subsystem name m)"

definition NewGauge :: "prom_env \<Rightarrow> string \<Rightarrow> string \<Rightarrow> Metrics \<Rightarrow> Metrics outcome" where
  "NewGauge P subsystem name m = MustRegister P subsystem name (add_metric GaugeObj subsystem name m)"

definition NewGaugeFunc :: "prom_env \<Rightarrow> string \<Rightarrow> string \<Rightarrow> Metrics \<Rightarrow> Metrics outcome" where
  "NewGaugeFunc P subsystem name m = MustRegister P subsystem name (add_metric GaugeFuncObj subsystem name m)"

definition NewSummary :: "prom_env \<Rightarrow> string \<Rightarrow> string \<Rightarrow> Metrics \<Rightarrow> Metrics outcome" where
  "NewSummary P subsystem name m = MustRegister P subsystem name (add_metric SummaryObj subsystem name m)"

definition NewGaugeVec :: "prom_env \<Rightarrow> string \<Rightarrow> string \<Rightarrow> string list \<Rightarrow> Metrics \<Rightarrow> Metrics outcome" where
  "NewGaugeVec P subsystem name labels m = MustRegister P subsystem name
     (m\<lparr>m_guagevecs := AList.update (metric_key subsystem name) (length labels) (m_guagevecs m)\<rparr>)"

definition NewSummaryVec :: "prom_env \<Rightarrow> string \<Rightarrow> string \<Rightarrow> string list \<Rightarrow> Metrics \<Rightarrow> Metrics outcome" where
  "NewSummaryVec P subsystem name labels m = MustRegister P subsystem name
     (m\<lparr>m_sumvecs := AList.update (metric_key subsystem name) (length labels) (m_sumvecs m)\<rparr>)"

section \<open>Looking up\<close>

text \<open>
  A type assertion panics on the nil a missing key gives, and on an object without the methods of
  the interface. The vectors are pointers, nil for a missing key.
\<close>

definition assert_kind :: "prom_env \<Rightarrow> interface \<Rightarrow> metric option \<Rightarrow> metric outcome" where
  "assert_kind P i k = (case k of None \<Rightarrow> Panic | Some k \<Rightarrow> if implements P k i then Ret k else Panic)"

definition Metrics_Counter :: "prom_env \<Rightarrow> Metrics \<Rightarrow> string \<Rightarrow> string \<Rightarrow> metric outcome" where
  "Metrics_Counter P m subsystem name = assert_kind P CounterI (map_of (m_metrics m) (metric_key subsystem name))"

definition Metrics_Gauge :: "prom_env \<Rightarrow> Metrics \<Rightarrow> string \<Rightarrow> string \<Rightarrow> metric outcome" where
  "Metrics_Gauge P m subsystem name = assert_kind P GaugeI (map_of (m_metrics m) (metric_key subsystem name))"

definition Metrics_Summary :: "prom_env \<Rightarrow> Metrics \<Rightarrow> string \<Rightarrow> string \<Rightarrow> metric outcome" where
  "Metrics_Summary P m subsystem name = assert_kind P SummaryI (map_of (m_metrics m) (metric_key subsystem name))"

definition Metrics_GaugeVec :: "Metrics \<Rightarrow> string \<Rightarrow> string \<Rightarrow> nat option" where
  "Metrics_GaugeVec m subsystem name = map_of (m_guagevecs m) (metric_key subsystem name)"

definition Metrics_SummaryVec :: "Metrics \<Rightarrow> string \<Rightarrow> string \<Rightarrow> nat option" where
  "Metrics_SummaryVec m subsystem name = map_of (m_sumvecs m) (metric_key subsystem name)"

text \<open>\<open>WithLabelValues\<close> on a vector: it panics through nil and for another number of labels.\<close>

definition WithLabelValues :: "nat option \<Rightarrow> string list \<Rightarrow> unit outcome" where
  "WithLabelValues vec values =
     (case vec of None \<Rightarrow> Panic | Some n \<Rightarrow> if length values = n then Ret () else Panic)"

section \<open>What the server registers\<close>

text \<open>The calls at the end of \<open>NewServer\<close> (server.go), in their order.\<close>

definition register_metrics :: "prom_env \<Rightarrow> Metrics \<Rightarrow> Metrics outcome" where
  "register_metrics P m0 =
     and_then (NewCounterFunc P ''server'' ''uptime'' m0) (\<lambda>m.
     and_then (NewCounter P ''client'' ''commands'' m) (\<lambda>m.
     and_then (NewCounter P ''client'' ''messages'' m) (\<lambda>m.
     and_then (NewGaugeFunc P ''server'' ''connections'' m) (\<lambda>m.
     and_then (NewGaugeFunc P ''server'' ''registered'' m) (\<lambda>m.
     and_then (NewGaugeVec P ''server'' ''clients'' [''secure''] m) (\<lambda>m.
     and_then (NewGaugeFunc P ''server'' ''channels'' m) (\<lambda>m.
     and_then (NewSummaryVec P ''client'' ''command_duration_seconds'' [''command''] m) (\<lambda>m.
     NewSummary P ''client'' ''ping_latency_seconds'' m))))))))"

text \<open>
  Every way the server reads the registry: the gauge of the clients when a connection comes and goes
  (\<open>acceptor\<close>, \<open>destroy\<close>), the two counters and the durations in \<open>processCommand\<close> and where messages are
  sent, and the latency of a PONG.
\<close>

definition client_gauge :: "Metrics \<Rightarrow> bool \<Rightarrow> unit outcome" where
  "client_gauge m tls =
     WithLabelValues (Metrics_GaugeVec m ''server'' ''clients'') [if tls then ''secure'' else ''insecure'']"

definition command_duration :: "Metrics \<Rightarrow> string \<Rightarrow> unit outcome" where
  "command_duration m code = WithLabelValues (Metrics_SummaryVec m ''client'' ''command_duration_seconds'') [code]"

lemma metric_key_eq: "metric_key s n = s @ ''_'' @ n"
  by (simp add: metric_key_def)

context prom_laws begin

lemma MustRegister_new:
  assumes "fq_name P (m_namespace m) s n \<notin> set (m_registered m)"
  shows "MustRegister P s n m = Ret (m\<lparr>m_registered := fq_name P (m_namespace m) s n # m_registered m\<rparr>)"
  using assms by (simp add: MustRegister_def Let_def register_law)

lemma registered:
  assumes "ns \<noteq> []" "\<And>n. ns @ ''_'' @ n \<notin> set names"
  shows "\<exists>m. register_metrics P (NewMetrics ns names) = Ret m \<and>
    m_metrics m = [(''server_uptime'', CounterFuncObj), (''client_commands'', CounterObj),
      (''client_messages'', CounterObj), (''server_connections'', GaugeFuncObj),
      (''server_registered'', GaugeFuncObj), (''server_channels'', GaugeFuncObj),
      (''client_ping_latency_seconds'', SummaryObj)] \<and>
    m_guagevecs m = [(''server_clients'', 1)] \<and> m_sumvecs m = [(''client_command_duration_seconds'', 1)]"
  using assms
  by (simp add: register_metrics_def NewCounterFunc_def NewCounter_def NewGaugeFunc_def NewGaugeVec_def
      NewSummaryVec_def NewSummary_def add_metric_def MustRegister_new NewMetrics_def name_law metric_key_eq)

end

text \<open>The laws can hold: an instance that keeps the names apart and joins them with \<open>_\<close>.\<close>

definition plain_prom :: prom_env where
  "plain_prom = \<lparr>implements = (\<lambda>k i. (k, i) \<in> {(CounterObj, CounterI), (GaugeObj, CounterI), (GaugeObj, GaugeI),
       (SummaryObj, SummaryI)}),
     can_register = (\<lambda>names n. n \<notin> set names), fq_name = (\<lambda>ns s n. ns @ ''_'' @ s @ ''_'' @ n)\<rparr>"

interpretation plain_prom: prom_laws plain_prom
  by unfold_locales (simp_all add: plain_prom_def)

text \<open>C34: after the registrations of \<open>NewServer\<close> every look-up the server makes finds what it asks
  for: both counters, the summary of the latencies, and the vectors with the one label they are given.
  So counting never panics from then on; before, the first connection does.\<close>

theorem server_metrics_found:
  assumes "prom_laws P" "ns \<noteq> []" "\<And>n. ns @ ''_'' @ n \<notin> set names"
  shows "\<exists>m. register_metrics P (NewMetrics ns names) = Ret m \<and>
    Metrics_Counter P m ''client'' ''commands'' = Ret CounterObj \<and>
    Metrics_Counter P m ''client'' ''messages'' = Ret CounterObj \<and>
    Metrics_Summary P m ''client'' ''ping_latency_seconds'' = Ret SummaryObj \<and>
    client_gauge m tls = Ret () \<and> command_duration m code = Ret () \<and>
    client_gauge (NewMetrics ns names) tls = Panic"
proof -
  obtain m where m: "register_metrics P (NewMetrics ns names) = Ret m"
    "m_metrics m = [(''server_uptime'', CounterFuncObj), (''client_commands'', CounterObj),
      (''client_messages'', CounterObj), (''server_connections'', GaugeFuncObj),
      (''server_registered'', GaugeFuncObj), (''server_channels'', GaugeFuncObj),
      (''client_ping_latency_seconds'', SummaryObj)]"
    "m_guagevecs m = [(''server_clients'', 1)]" "m_sumvecs m = [(''client_command_duration_seconds'', 1)]"
    using prom_laws.registered [OF assms] by blast
  have "implements P CounterObj CounterI" "implements P SummaryObj SummaryI"
    by (rule prom_laws.counter_law [OF assms(1)], rule prom_laws.summary_law [OF assms(1)])
  with m show ?thesis
    by (simp add: Metrics_Counter_def Metrics_Summary_def assert_kind_def metric_key_eq client_gauge_def
        command_duration_def Metrics_GaugeVec_def Metrics_SummaryVec_def WithLabelValues_def NewMetrics_def)
qed

theorem server_metrics_found_witness:
  "\<exists>m. register_metrics plain_prom (NewMetrics ''eris'' [''go_info'']) = Ret m \<and>
     Metrics_Counter plain_prom m ''client'' ''messages'' = Ret CounterObj \<and>
     client_gauge m True = Ret () \<and> client_gauge (NewMetrics ''eris'' [''go_info'']) True = Panic"
  using server_metrics_found [OF plain_prom.prom_laws_axioms, of "''eris''" "[''go_info'']" True] by auto

section \<open>Any registrations\<close>

text \<open>A call of one of the seven functions, and whether the registry holds what it registered.\<close>

datatype registration = RegMetric metric string string | RegGaugeVec string string "string list"
  | RegSummaryVec string string "string list"

fun register :: "prom_env \<Rightarrow> registration \<Rightarrow> Metrics \<Rightarrow> Metrics outcome" where
  "register P (RegMetric CounterObj s n) m = NewCounter P s n m"
| "register P (RegMetric CounterFuncObj s n) m = NewCounterFunc P s n m"
| "register P (RegMetric GaugeObj s n) m = NewGauge P s n m"
| "register P (RegMetric GaugeFuncObj s n) m = NewGaugeFunc P s n m"
| "register P (RegMetric SummaryObj s n) m = NewSummary P s n m"
| "register P (RegGaugeVec s n labels) m = NewGaugeVec P s n labels m"
| "register P (RegSummaryVec s n labels) m = NewSummaryVec P s n labels m"

fun reg_key :: "registration \<Rightarrow> string" where
  "reg_key (RegMetric _ s n) = metric_key s n"
| "reg_key (RegGaugeVec s n _) = metric_key s n"
| "reg_key (RegSummaryVec s n _) = metric_key s n"

fun reg_named :: "registration \<Rightarrow> bool" where
  "reg_named (RegMetric _ s n) \<longleftrightarrow> s \<noteq> [] \<and> n \<noteq> []"
| "reg_named (RegGaugeVec s n _) \<longleftrightarrow> s \<noteq> [] \<and> n \<noteq> []"
| "reg_named (RegSummaryVec s n _) \<longleftrightarrow> s \<noteq> [] \<and> n \<noteq> []"

fun reg_found :: "Metrics \<Rightarrow> registration \<Rightarrow> bool" where
  "reg_found m (RegMetric k s n) \<longleftrightarrow> map_of (m_metrics m) (metric_key s n) = Some k"
| "reg_found m (RegGaugeVec s n labels) \<longleftrightarrow> Metrics_GaugeVec m s n = Some (length labels)"
| "reg_found m (RegSummaryVec s n labels) \<longleftrightarrow> Metrics_SummaryVec m s n = Some (length labels)"

context prom_laws begin

lemma register_effect:
  assumes "register P r m = Ret m'" "reg_named r" "m_namespace m \<noteq> []"
  shows "m_namespace m' = m_namespace m"
    and "m_registered m' = (m_namespace m @ ''_'' @ reg_key r) # m_registered m"
    and "m_namespace m @ ''_'' @ reg_key r \<notin> set (m_registered m)"
    and "reg_found m' r" and "reg_key q \<noteq> reg_key r \<Longrightarrow> reg_found m' q = reg_found m q"
proof -
  note defs = NewCounter_def NewCounterFunc_def NewGauge_def NewGaugeFunc_def NewSummary_def NewGaugeVec_def
    NewSummaryVec_def MustRegister_def add_metric_def Metrics_GaugeVec_def Metrics_SummaryVec_def register_law
    name_law metric_key_eq update_conv'
  have "m_namespace m' = m_namespace m \<and> m_registered m' = (m_namespace m @ ''_'' @ reg_key r) # m_registered m \<and>
    m_namespace m @ ''_'' @ reg_key r \<notin> set (m_registered m) \<and> reg_found m' r \<and>
    (reg_key q \<noteq> reg_key r \<longrightarrow> reg_found m' q = reg_found m q)" for q
  proof (cases r)
    case (RegMetric k s n)
    with assms show ?thesis by (cases k; cases q) (auto simp: defs Let_def split: if_splits)
  next
    case (RegGaugeVec s n labels)
    with assms show ?thesis by (cases q) (auto simp: defs Let_def split: if_splits)
  next
    case (RegSummaryVec s n labels)
    with assms show ?thesis by (cases q) (auto simp: defs Let_def split: if_splits)
  qed
  then show "m_namespace m' = m_namespace m" "m_registered m' = (m_namespace m @ ''_'' @ reg_key r) # m_registered m"
    "m_namespace m @ ''_'' @ reg_key r \<notin> set (m_registered m)" "reg_found m' r"
    "reg_key q \<noteq> reg_key r \<Longrightarrow> reg_found m' q = reg_found m q"
    by blast+
qed

lemma iterate_register:
  assumes "iterate (register P) rs m = Ret m'" "\<forall>r \<in> set rs. reg_named r" "m_namespace m \<noteq> []"
  shows "(\<forall>r \<in> set rs. reg_found m' r) \<and>
    (\<forall>q. m_namespace m @ ''_'' @ reg_key q \<in> set (m_registered m) \<longrightarrow> reg_found m' q = reg_found m q)"
  using assms
proof (induction rs arbitrary: m)
  case (Cons r rs)
  then obtain m1 where m1: "register P r m = Ret m1" "iterate (register P) rs m1 = Ret m'"
    by (auto simp: and_then_Ret_iff)
  have r: "reg_named r" using Cons.prems(2) by simp
  note e = register_effect [OF m1(1) r Cons.prems(3)]
  have IH: "(\<forall>q \<in> set rs. reg_found m' q) \<and>
      (\<forall>q. m_namespace m1 @ ''_'' @ reg_key q \<in> set (m_registered m1) \<longrightarrow> reg_found m' q = reg_found m1 q)"
    using Cons.IH [OF m1(2)] Cons.prems(2,3) e(1) by simp
  then have keep: "reg_found m' q = reg_found m1 q"
    if "m_namespace m @ ''_'' @ reg_key q \<in> set (m_registered m) \<or> reg_key q = reg_key r" for q
    using that unfolding e(1,2) by auto
  have "reg_found m' q = reg_found m q" if "m_namespace m @ ''_'' @ reg_key q \<in> set (m_registered m)" for q
    using keep [of q] e(3) e(5) [of q] that by fastforce
  moreover have "reg_found m' r" using keep [of r] e(4) by simp
  ultimately show ?case using IH by simp
qed simp

end

text \<open>Registering and looking up agree, for any registrations: when they all go through, each one
  is found afterwards under its subsystem and name, with its kind or its number of labels. Two of
  them that would share a key cannot both go through.\<close>

theorem registrations_found:
  assumes "prom_laws P" "ns \<noteq> []" "\<forall>r \<in> set rs. reg_named r"
    and "iterate (register P) rs (NewMetrics ns names) = Ret m" "r \<in> set rs"
  shows "reg_found m r"
  using prom_laws.iterate_register [OF assms(1,4,3)] assms(2,5) by (simp add: NewMetrics_def)

theorem registrations_found_witness:
  "\<exists>m. iterate (register plain_prom) [RegMetric GaugeObj ''foo'' ''gauge'', RegGaugeVec ''foo'' ''vec'' [''test'']]
      (NewMetrics ''test'' []) = Ret m \<and> reg_found m (RegMetric GaugeObj ''foo'' ''gauge'') \<and>
     Metrics_Gauge plain_prom m ''foo'' ''gauge'' = Ret GaugeObj"
proof -
  let ?rs = "[RegMetric GaugeObj ''foo'' ''gauge'', RegGaugeVec ''foo'' ''vec'' [''test'']]"
  obtain m where m: "iterate (register plain_prom) ?rs (NewMetrics ''test'' []) = Ret m"
    by (simp add: NewMetrics_def NewGauge_def NewGaugeVec_def MustRegister_def add_metric_def plain_prom_def
        metric_key_eq Let_def)
  have "reg_found m (RegMetric GaugeObj ''foo'' ''gauge'')"
    by (rule registrations_found [OF plain_prom.prom_laws_axioms _ _ m]) simp_all
  with m show ?thesis by (auto simp: Metrics_Gauge_def assert_kind_def plain_prom_def)
qed

end
