(* ===== verification/Listeners.thy ===== *)
theory Listeners
  imports Configuration
begin

text \<open>
  The listeners of src/internal/server.go: over TCP, TLS, I2P and Tor, for IRC and for the web page.
  The network and the libraries for I2P and Tor are the record \<open>net_env\<close>; a set of keys of I2P or
  Tor is a string. What a start writes to the disk and into the configuration is the state, and it
  stays when \<open>log.Fatal\<close> or a panic ends the process: an operation gives a flag, false when the
  process has ended, beside the state.
\<close>

section \<open>Disk, network, state\<close>

text \<open>What \<open>os.Stat\<close> and reading find at a path: \<open>NoStat\<close> is an error other than that nothing is there.\<close>

datatype disk_file = NoFile | NoStat | NoRead | Content string

type_synonym files = "string \<Rightarrow> disk_file"

record net_env =
  net_listen :: "string \<Rightarrow> bool"
  tls_keypair :: "string \<Rightarrow> string \<Rightarrow> bool"
  tls_listen :: "string \<Rightarrow> bool"
  can_create :: "string \<Rightarrow> bool"
  can_write :: "string \<Rightarrow> bool"
  sam_connect :: "string \<Rightarrow> bool"
  i2p_new_keys :: "string option"
  i2p_store :: "string \<Rightarrow> string"
  i2p_load :: "string \<Rightarrow> string option"
  i2p_addr :: "string \<Rightarrow> string"
  i2p_session :: "string \<Rightarrow> string \<Rightarrow> bool"
  i2p_listen :: "string \<Rightarrow> string \<Rightarrow> bool"
  tor_start :: "int \<Rightarrow> bool"
  tor_new_keys :: "string option"
  tor_private :: "string \<Rightarrow> string"
  tor_from_private :: "string \<Rightarrow> string option"
  tor_listen :: "string \<Rightarrow> string option"
  read_dir :: "string \<Rightarrow> string list option"
  path_join :: "string \<Rightarrow> string \<Rightarrow> string"

datatype service = IRC | WWW

datatype endpoint = Tcp | Tls | I2p | Tor

record startup =
  su_config :: Config
  su_listening :: "(service \<times> endpoint \<times> string) list"
  su_templates :: "(string \<times> string) list"
  su_files :: files

definition go_on :: "bool \<times> startup \<Rightarrow> (startup \<Rightarrow> bool \<times> startup) \<Rightarrow> bool \<times> startup" where
  "go_on r f = (if fst r then f (snd r) else r)"

primrec for_each :: "('a \<Rightarrow> startup \<Rightarrow> bool \<times> startup) \<Rightarrow> 'a list \<Rightarrow> startup \<Rightarrow> bool \<times> startup" where
  "for_each f [] st = (True, st)"
| "for_each f (x # xs) st = go_on (f x st) (for_each f xs)"

definition set_file :: "string \<Rightarrow> string \<Rightarrow> startup \<Rightarrow> startup" where
  "set_file path s st = st\<lparr>su_files := (su_files st)(path := Content s)\<rparr>"

text \<open>\<open>ioutil.WriteFile\<close>.\<close>

definition write_file :: "net_env \<Rightarrow> string \<Rightarrow> string \<Rightarrow> startup \<Rightarrow> bool \<times> startup" where
  "write_file N path s st =
     (if \<not> can_create N path then (False, st)
      else if \<not> can_write N path then (False, set_file path [] st)
      else (True, set_file path s st))"

text \<open>\<open>go s.acceptor(listener)\<close>: from here on connections to the address are taken.\<close>

definition start_acceptor :: "service \<Rightarrow> endpoint \<Rightarrow> string \<Rightarrow> startup \<Rightarrow> bool \<times> startup" where
  "start_acceptor s e addr st = (True, st\<lparr>su_listening := su_listening st @ [(s, e, addr)]\<rparr>)"

section \<open>TCP and TLS\<close>

definition listen :: "net_env \<Rightarrow> service \<Rightarrow> string \<Rightarrow> startup \<Rightarrow> bool \<times> startup" where
  "listen N s addr st = (if net_listen N addr then start_acceptor s Tcp addr st else (False, st))"

text \<open>A \<open>tlslistener\<close> that is given nil, or no usable pair of key and certificate, ends the process.\<close>

definition tlslistener :: "net_env \<Rightarrow> string \<Rightarrow> TLSConfig option \<Rightarrow> bool" where
  "tlslistener N addr tlsconfig =
     (case tlsconfig of
        None \<Rightarrow> False
      | Some c \<Rightarrow> tls_keypair N (tls_cert c) (tls_key c) \<and> tls_listen N addr)"

definition listentls :: "net_env \<Rightarrow> service \<Rightarrow> string \<times> TLSConfig option \<Rightarrow> startup \<Rightarrow> bool \<times> startup" where
  "listentls N s entry st =
     (if tlslistener N (fst entry) (snd entry) then start_acceptor s Tls (fst entry) st else (False, st))"

section \<open>I2P\<close>

text \<open>
  The keys: from the file of the keys, or new ones, which are stored in it. The file is created
  before the keys are made.
\<close>

definition i2p_key_path :: "I2PConfig \<Rightarrow> string" where
  "i2p_key_path c = i2p_keys c @ ''.i2p.private''"

definition i2p_get_keys :: "net_env \<Rightarrow> I2PConfig \<Rightarrow> startup \<Rightarrow> string option \<times> startup" where
  "i2p_get_keys N c st =
     (case su_files st (i2p_key_path c) of
        NoFile \<Rightarrow>
          if \<not> can_create N (i2p_key_path c) then (None, st)
          else (case i2p_new_keys N of
            None \<Rightarrow> (None, set_file (i2p_key_path c) [] st)
          | Some keys \<Rightarrow>
              if \<not> can_write N (i2p_key_path c) then (None, set_file (i2p_key_path c) [] st)
              else (Some keys, set_file (i2p_key_path c) (i2p_store N keys) st))
      | Content s \<Rightarrow> (i2p_load N s, st)
      | _ \<Rightarrow> (None, st))"

text \<open>
  \<open>i2plistener\<close>; \<open>put\<close> writes the struct the pointer of the configuration leads to. Without an
  error of \<open>stream.Listen\<close> the listener serves; with one, its callers end the process.
\<close>

definition i2plistener ::
  "net_env \<Rightarrow> (I2PConfig \<Rightarrow> Config \<Rightarrow> Config) \<Rightarrow> string \<Rightarrow> I2PConfig option \<Rightarrow> startup \<Rightarrow> bool \<times> startup" where
  "i2plistener N put addr i2pconfig st =
     (case i2pconfig of
        None \<Rightarrow> (False, st)
      | Some c \<Rightarrow>
          if \<not> sam_connect N (i2p_sam c) then (False, st)
          else (case i2p_get_keys N c st of
            (None, st1) \<Rightarrow> (False, st1)
          | (Some keys, st1) \<Rightarrow>
              let c1 = c\<lparr>i2p_base32 := i2p_addr N keys\<rparr>;
                  st2 = st1\<lparr>su_config := put c1 (su_config st1)\<rparr>
              in if \<not> i2p_session N addr keys then (False, st2)
                 else go_on (write_file N (i2p_keys c @ ''.i2p.public.txt'') (i2p_base32 c1) st2)
                        (\<lambda>st3. (i2p_listen N addr keys, st3))))"

definition put_i2p :: "service \<Rightarrow> string \<Rightarrow> I2PConfig \<Rightarrow> Config \<Rightarrow> Config" where
  "put_i2p s addr c conf =
     (case s of
        IRC \<Rightarrow> conf\<lparr>cfg_i2p_listen := AList.update addr (Some c) (cfg_i2p_listen conf)\<rparr>
      | WWW \<Rightarrow> conf\<lparr>cfg_www_i2p_listen := AList.update addr (Some c) (cfg_www_i2p_listen conf)\<rparr>)"

definition listeni2p :: "net_env \<Rightarrow> service \<Rightarrow> string \<times> I2PConfig option \<Rightarrow> startup \<Rightarrow> bool \<times> startup" where
  "listeni2p N s entry st =
     go_on (i2plistener N (put_i2p s (fst entry)) (fst entry) (snd entry) st) (start_acceptor s I2p (fst entry))"

section \<open>Tor\<close>

definition tor_key_path :: "TorConfig \<Rightarrow> string" where
  "tor_key_path c = tor_keys c @ ''.tor.private''"

text \<open>Here the keys are made before the file.\<close>

definition tor_get_keys :: "net_env \<Rightarrow> TorConfig \<Rightarrow> startup \<Rightarrow> string option \<times> startup" where
  "tor_get_keys N c st =
     (case su_files st (tor_key_path c) of
        NoFile \<Rightarrow>
          (case tor_new_keys N of
            None \<Rightarrow> (None, st)
          | Some keys \<Rightarrow>
              (case write_file N (tor_key_path c) (tor_private N keys) st of
                 (ok, st1) \<Rightarrow> (if ok then Some keys else None, st1)))
      | Content s \<Rightarrow> (tor_from_private N s, st)
      | _ \<Rightarrow> (None, st))"

definition torlistener ::
  "net_env \<Rightarrow> (TorConfig \<Rightarrow> Config \<Rightarrow> Config) \<Rightarrow> TorConfig option \<Rightarrow> startup \<Rightarrow> bool \<times> startup" where
  "torlistener N put torconfig st =
     (case torconfig of
        None \<Rightarrow> (False, st)
      | Some c \<Rightarrow>
          if \<not> tor_start N (tor_control c) then (False, st)
          else (case tor_get_keys N c st of
            (None, st1) \<Rightarrow> (False, st1)
          | (Some keys, st1) \<Rightarrow>
              (case tor_listen N keys of
                 None \<Rightarrow> (False, st1)
               | Some onion \<Rightarrow>
                   let c1 = c\<lparr>tor_onion := onion @ ''.onion''\<rparr>
                   in write_file N (tor_keys c @ ''.tor.public.txt'') (onion @ ''.onion'')
                        (st1\<lparr>su_config := put c1 (su_config st1)\<rparr>))))"

definition put_tor :: "service \<Rightarrow> string \<Rightarrow> TorConfig \<Rightarrow> Config \<Rightarrow> Config" where
  "put_tor s addr c conf =
     (case s of
        IRC \<Rightarrow> conf\<lparr>cfg_tor_listen := AList.update addr (Some c) (cfg_tor_listen conf)\<rparr>
      | WWW \<Rightarrow> conf\<lparr>cfg_www_tor_listen := AList.update addr (Some c) (cfg_www_tor_listen conf)\<rparr>)"

definition listentor :: "net_env \<Rightarrow> service \<Rightarrow> string \<times> TorConfig option \<Rightarrow> startup \<Rightarrow> bool \<times> startup" where
  "listentor N s entry st =
     go_on (torlistener N (put_tor s (fst entry)) (snd entry) st) (start_acceptor s Tor (fst entry))"

section \<open>What a listener leaves behind\<close>

lemma go_on_True: "go_on r f = (True, st) \<longleftrightarrow> (\<exists>st1. r = (True, st1) \<and> f st1 = (True, st))"
  by (cases r) (auto simp: go_on_def)

lemma write_file_True:
  "write_file N path s st = (True, st') \<longleftrightarrow> can_create N path \<and> can_write N path \<and> st' = set_file path s st"
  by (auto simp: write_file_def)

lemma set_file_simps [simp]:
  "su_config (set_file path s st) = su_config st" "su_listening (set_file path s st) = su_listening st"
  "su_templates (set_file path s st) = su_templates st" "su_files (set_file path s st) = (su_files st)(path := Content s)"
  by (simp_all add: set_file_def)

text \<open>A listener that serves adds its address to those that are listened on.\<close>

lemma i2plistener_True:
  assumes "i2plistener N put addr conf st = (True, st')"
  obtains c keys st1 where "conf = Some c" "i2p_get_keys N c st = (Some keys, st1)"
    "st' = set_file (i2p_keys c @ ''.i2p.public.txt'') (i2p_addr N keys)
       (st1\<lparr>su_config := put (c\<lparr>i2p_base32 := i2p_addr N keys\<rparr>) (su_config st1)\<rparr>)"
    "i2p_listen N addr keys"
  using assms
  by (auto simp: i2plistener_def Let_def go_on_True write_file_True split: option.splits if_splits prod.splits)

lemma i2p_get_keys_listening:
  "su_listening (snd (i2p_get_keys N c st)) = su_listening st" "su_config (snd (i2p_get_keys N c st)) = su_config st"
  "su_templates (snd (i2p_get_keys N c st)) = su_templates st"
  by (simp_all add: i2p_get_keys_def split: disk_file.split option.split)

lemma tor_get_keys_listening:
  "su_listening (snd (tor_get_keys N c st)) = su_listening st" "su_config (snd (tor_get_keys N c st)) = su_config st"
  "su_templates (snd (tor_get_keys N c st)) = su_templates st"
  by (simp_all add: tor_get_keys_def write_file_def split: disk_file.split option.split)

lemma torlistener_True:
  assumes "torlistener N put conf st = (True, st')"
  obtains c keys st1 onion where "conf = Some c" "tor_get_keys N c st = (Some keys, st1)" "tor_listen N keys = Some onion"
    "st' = set_file (tor_keys c @ ''.tor.public.txt'') (onion @ ''.onion'')
       (st1\<lparr>su_config := put (c\<lparr>tor_onion := onion @ ''.onion''\<rparr>) (su_config st1)\<rparr>)"
  using assms
  by (auto simp: torlistener_def Let_def write_file_True split: option.splits if_splits prod.splits)

lemma listen_adds:
  assumes "listen N s addr st = (True, st')"
  shows "su_listening st' = su_listening st @ [(s, Tcp, addr)]" "su_templates st' = su_templates st"
    "su_config st' = su_config st"
  using assms
  by (auto simp: listen_def start_acceptor_def split: if_splits)

lemma listentls_adds:
  assumes "listentls N s entry st = (True, st')"
  shows "su_listening st' = su_listening st @ [(s, Tls, fst entry)]" "su_templates st' = su_templates st"
    "su_config st' = su_config st"
  using assms
  by (auto simp: listentls_def start_acceptor_def split: if_splits)

lemma listeni2p_adds:
  assumes "listeni2p N s entry st = (True, st')"
  shows "su_listening st' = su_listening st @ [(s, I2p, fst entry)]" "su_templates st' = su_templates st"
    "\<exists>c. su_config st' = put_i2p s (fst entry) c (su_config st)"
proof -
  obtain st1 where st1: "i2plistener N (put_i2p s (fst entry)) (fst entry) (snd entry) st = (True, st1)"
    "start_acceptor s I2p (fst entry) st1 = (True, st')"
    using assms by (auto simp: listeni2p_def go_on_True)
  obtain c keys u where "i2p_get_keys N c st = (Some keys, u)" "su_listening st1 = su_listening u"
    "su_templates st1 = su_templates u" "su_config st1 = put_i2p s (fst entry) (c\<lparr>i2p_base32 := i2p_addr N keys\<rparr>) (su_config u)"
    by (rule i2plistener_True [OF st1(1)]) simp
  with i2p_get_keys_listening [of N c st] st1(2)
  show "su_listening st' = su_listening st @ [(s, I2p, fst entry)]" "su_templates st' = su_templates st"
    "\<exists>c. su_config st' = put_i2p s (fst entry) c (su_config st)"
    by (auto simp: start_acceptor_def)
qed

lemma listentor_adds:
  assumes "listentor N s entry st = (True, st')"
  shows "su_listening st' = su_listening st @ [(s, Tor, fst entry)]" "su_templates st' = su_templates st"
    "\<exists>c. su_config st' = put_tor s (fst entry) c (su_config st)"
proof -
  obtain st1 where st1: "torlistener N (put_tor s (fst entry)) (snd entry) st = (True, st1)"
    "start_acceptor s Tor (fst entry) st1 = (True, st')"
    using assms by (auto simp: listentor_def go_on_True)
  obtain c keys u onion where "tor_get_keys N c st = (Some keys, u)" "su_listening st1 = su_listening u"
    "su_templates st1 = su_templates u" "su_config st1 = put_tor s (fst entry) (c\<lparr>tor_onion := onion @ ''.onion''\<rparr>) (su_config u)"
    by (rule torlistener_True [OF st1(1)]) simp
  with tor_get_keys_listening [of N c st] st1(2)
  show "su_listening st' = su_listening st @ [(s, Tor, fst entry)]" "su_templates st' = su_templates st"
    "\<exists>c. su_config st' = put_tor s (fst entry) c (su_config st)"
    by (auto simp: start_acceptor_def)
qed

lemma for_each_adds:
  assumes "for_each f xs st = (True, st')" "\<And>x s s'. f x s = (True, s') \<Longrightarrow> su_listening s' = su_listening s @ [g x]"
  shows "su_listening st' = su_listening st @ map g xs"
  using assms(1)
proof (induction xs arbitrary: st)
  case (Cons x xs)
  then obtain st1 where "f x st = (True, st1)" "for_each f xs st1 = (True, st')" by (auto simp: go_on_True)
  with Cons.IH [OF this(2)] assms(2) [OF this(1)] show ?case by simp
qed simp

section \<open>The address of an I2P service\<close>

lemma i2p_paths: "a @ ''.i2p.private'' \<noteq> a @ ''.i2p.public.txt''"
  by simp

text \<open>C35: an I2P service keeps its address: once it has been started, a start with the keys on the
  disk left alone announces the same address, whatever new keys the library would make by then, if
  loading gives back the keys that were stored.\<close>

theorem i2p_address_kept:
  assumes "\<And>k. i2p_load N (i2p_store N k) = Some k"
    and "i2plistener N put addr (Some c) st = (True, st1)"
    and "i2p_load N' = i2p_load N" "i2p_addr N' = i2p_addr N"
    and "su_files st2 (i2p_key_path c) = su_files st1 (i2p_key_path c)"
    and "i2plistener N' put' addr' (Some c) st2 = (True, st3)"
  shows "su_files st3 (i2p_keys c @ ''.i2p.public.txt'') = su_files st1 (i2p_keys c @ ''.i2p.public.txt'')"
proof -
  from assms(2) obtain keys u where first: "i2p_get_keys N c st = (Some keys, u)"
    "st1 = set_file (i2p_keys c @ ''.i2p.public.txt'') (i2p_addr N keys)
       (u\<lparr>su_config := put (c\<lparr>i2p_base32 := i2p_addr N keys\<rparr>) (su_config u)\<rparr>)"
    by (auto elim: i2plistener_True)
  from assms(6) obtain keys' v where second: "i2p_get_keys N' c st2 = (Some keys', v)"
    "st3 = set_file (i2p_keys c @ ''.i2p.public.txt'') (i2p_addr N' keys')
       (v\<lparr>su_config := put' (c\<lparr>i2p_base32 := i2p_addr N' keys'\<rparr>) (su_config v)\<rparr>)"
    by (auto elim: i2plistener_True)
  have "\<exists>s. su_files u (i2p_key_path c) = Content s \<and> i2p_load N s = Some keys"
    using first(1) assms(1) by (auto simp: i2p_get_keys_def split: disk_file.splits option.splits if_splits)
  then obtain s where "su_files st2 (i2p_key_path c) = Content s" "i2p_load N s = Some keys"
    using assms(5) by (auto simp: first(2) i2p_key_path_def)
  then have "keys' = keys" using second(1) by (simp add: i2p_get_keys_def assms(3))
  then show ?thesis by (simp add: first(2) second(2) assms(4))
qed

definition quiet_net :: net_env where
  "quiet_net =
     \<lparr>net_listen = (\<lambda>_. True), tls_keypair = (\<lambda>_ _. True), tls_listen = (\<lambda>_. True), can_create = (\<lambda>_. True),
      can_write = (\<lambda>_. True), sam_connect = (\<lambda>_. True), i2p_new_keys = Some ''k1'', i2p_store = (\<lambda>k. ''k'' @ k),
      i2p_load = (\<lambda>s. case s of [] \<Rightarrow> None | _ # k \<Rightarrow> Some k), i2p_addr = (\<lambda>k. k @ ''.b32''), i2p_session = (\<lambda>_ _. True),
      i2p_listen = (\<lambda>_ _. True), tor_start = (\<lambda>_. True), tor_new_keys = Some ''t1'', tor_private = id,
      tor_from_private = Some, tor_listen = Some, read_dir = (\<lambda>_. None), path_join = (\<lambda>d f. d @ ''/'' @ f)\<rparr>"

text \<open>When the library cannot make keys, the start that asks it for them ends with an empty file of
  keys on the disk; if an empty file holds no keys, every later start that finds it ends too.\<close>

theorem i2p_failed_keys_stay:
  assumes "su_files st (i2p_key_path c) = NoFile" "sam_connect N (i2p_sam c)"
    and "can_create N (i2p_key_path c)" "i2p_new_keys N = None"
    and "i2plistener N put addr (Some c) st = (ok, st1)"
    and "i2p_load N' [] = None" "su_files st2 (i2p_key_path c) = su_files st1 (i2p_key_path c)"
  shows "\<not> ok \<and> fst (i2plistener N' put' addr' (Some c) st2) = False"
proof -
  have st1: "\<not> ok" "st1 = set_file (i2p_key_path c) [] st"
    using assms(1-5) by (auto simp: i2plistener_def i2p_get_keys_def)
  then have "i2p_get_keys N' c st2 = (None, st2)" using assms(6,7) by (simp add: i2p_get_keys_def)
  with st1(1) show ?thesis by (simp add: i2plistener_def)
qed

definition no_files :: startup where
  "no_files = \<lparr>su_config = zero_config, su_listening = [], su_templates = [], su_files = (\<lambda>_. NoFile)\<rparr>"

definition i2p_service :: I2PConfig where
  "i2p_service = \<lparr>i2p_keys = ''irc'', i2p_sam = ''sam'', i2p_base32 = []\<rparr>"

text \<open>Two starts with different new keys on offer.\<close>

theorem i2p_address_kept_witness:
  "\<exists>st1 st3. i2plistener quiet_net (\<lambda>_ c. c) ''a'' (Some i2p_service) no_files = (True, st1) \<and>
     i2plistener (quiet_net\<lparr>i2p_new_keys := Some ''k2''\<rparr>) (\<lambda>_ c. c) ''a'' (Some i2p_service)
       (no_files\<lparr>su_files := su_files st1\<rparr>) = (True, st3) \<and>
     su_files st3 ''irc.i2p.public.txt'' = su_files st1 ''irc.i2p.public.txt''"
proof -
  let ?start = "\<lambda>N. i2plistener N (\<lambda>_ c. c) ''a'' (Some i2p_service)"
  obtain st1 where st1: "?start quiet_net no_files = (True, st1)"
    by (simp add: i2plistener_def i2p_get_keys_def quiet_net_def no_files_def go_on_def write_file_def Let_def)
  then have key: "su_files st1 (i2p_key_path i2p_service) = Content ''kk1''"
    by (auto simp: i2plistener_def i2p_get_keys_def quiet_net_def no_files_def go_on_def write_file_def Let_def
        i2p_key_path_def i2p_service_def)
  then obtain st3 where st3: "?start (quiet_net\<lparr>i2p_new_keys := Some ''k2''\<rparr>) (no_files\<lparr>su_files := su_files st1\<rparr>) = (True, st3)"
    by (simp add: i2plistener_def i2p_get_keys_def quiet_net_def no_files_def go_on_def write_file_def Let_def)
  have "i2p_load quiet_net (i2p_store quiet_net k) = Some k" for k by (simp add: quiet_net_def)
  from i2p_address_kept [OF this st1 _ _ _ st3] st1 st3 show ?thesis
    by (auto simp: i2p_service_def quiet_net_def)
qed

lemma empty_key_file: "i2p_load quiet_net [] = None"
  by (simp add: quiet_net_def)

theorem i2p_failed_keys_stay_witness:
  "\<exists>st1. i2plistener (quiet_net\<lparr>i2p_new_keys := None\<rparr>) (\<lambda>_ c. c) ''a'' (Some i2p_service) no_files = (False, st1) \<and>
     fst (i2plistener quiet_net (\<lambda>_ c. c) ''a'' (Some i2p_service) st1) = False"
proof -
  obtain ok st1 where st1: "i2plistener (quiet_net\<lparr>i2p_new_keys := None\<rparr>) (\<lambda>_ c. c) ''a'' (Some i2p_service) no_files = (ok, st1)"
    by force
  from i2p_failed_keys_stay [OF _ _ _ _ st1 empty_key_file refl, of "\<lambda>_ c. c" "''a''"] st1
  show ?thesis by (auto simp: no_files_def quiet_net_def)
qed

end
