(* ===== verification/Web.thy ===== *)
theory Web
  imports Configuration
begin

text \<open>
  src/internal/ww.go: the web page of the server. The templates are strings, by language; what
  \<open>html/template\<close> makes of one is a parameter: None when it does not parse, and otherwise the page for
  a configuration, None for an error while it is filled in. Both errors end the process.
\<close>

section \<open>The default template\<close>

definition network_template :: string where
  "network_template = join [CHR 0x0A]
    [''<html>'',
     ''<head>'',
     ''</head>'',
     ''<body>'',
     ''  <style>'',
     ''  body {'',
     ''    font-family: monospace;'',
     ''    font-size: large;'',
     ''  }'',
     ''  b   {'',
     ''    color: black;'',
     ''  }'',
     ''  p    {'',
     ''    color: darkgrey;'',
     ''  }'',
     ''  </style>'',
     ''  <h1>Network: {{ .Network.Name }}</h1>'',
     ''  <div>This is a web page intended to help your IRC users get the information'',
     ''they need to connect to your IRC network. It lists all your IRC server's addresses'',
     ''around the world.</div>'',
     []]"

definition server_template :: string where
  "server_template = join [CHR 0x0A]
    [[],
     ''  <div>'',
     ''    <h2>IRC Server Information</h2>'',
     ''    <ul>'',
     ''      <li><b>IRC Addresses: </b>{{ .IRCAddrs }}</li>'',
     ''      <li><b>TLS IRC Addresses: </b>{{ .TLSIRCAddrs }}</li>'',
     ''      <li><b>IRC I2P Addresses: </b>{{ .I2PIRCAddrs }}</li>'',
     ''      <li><b>IRC Tor Addresses: </b>{{ .TorIRCAddrs }}</li>'',
     ''      <li><b>Name: </b><span>{{ .Server.Name }}</span></li>'',
     ''      <li><b>Description: </b><span>{{ .Server.Description }}</span></li>'',
     ''    </ul>'',
     ''  </div>'',
     []]"

definition ops_template :: string where
  "ops_template = join [CHR 0x0A]
    [[],
     ''  <div>'',
     ''    <h2>Web Server Information</h2>'',
     ''    <ul>'',
     ''      <li><b>Help Page Addresses on the Web: </b>{{ .WWWAddrs }}</li>'',
     ''      <li><b>TLS Addresses on the Web(HTTPS): </b>{{ .TLSWWWAddrs }}</li>'',
     ''      <li><b>Web Addresses on I2P: </b>{{ .I2PWWWAddrs }}</li>'',
     ''      <li><b>Web Addresses on Tor: </b>{{ .TorWWWAddrs }}</li>'',
     ''    </ul>'',
     ''  </div>'',
     ''</body>'',
     []]"

definition default_template :: string where
  "default_template = network_template @ server_template @ ops_template"

section \<open>Serving a page\<close>

text \<open>The language is the first part of the path, \<open>en\<close> when there is none.\<close>

definition page_language :: "string \<Rightarrow> string" where
  "page_language path =
     (case split_on (CHR ''/'') path of
        _ # cleaned # _ \<Rightarrow> if cleaned = [] then ''en'' else cleaned
      | _ \<Rightarrow> ''en'')"

type_synonym html_template = "string \<Rightarrow> (Config \<Rightarrow> string option) option"

definition template_for :: "(string \<times> string) list \<Rightarrow> string \<Rightarrow> string" where
  "template_for templates lang = (case map_of templates lang of None \<Rightarrow> [] | Some s \<Rightarrow> s)"

definition ServeHTTP :: "html_template \<Rightarrow> (string \<times> string) list \<Rightarrow> Config \<Rightarrow> string \<Rightarrow> string outcome" where
  "ServeHTTP T templates conf path =
     (case T (template_for templates (page_language path)) of
        None \<Rightarrow> Panic
      | Some execute \<Rightarrow> (case execute conf of None \<Rightarrow> Panic | Some page \<Rightarrow> Ret page))"

lemma split_on_prefix: "c \<notin> set p \<Longrightarrow> split_on c (p @ c # s) = p # split_on c s"
  by (induction p) auto

lemma split_on_single: "c \<notin> set p \<Longrightarrow> split_on c p = [p]"
  by (induction p) auto

text \<open>The page of a language, with or without more path after it.\<close>

lemma page_language_path:
  assumes "CHR ''/'' \<notin> set lang" "rest = [] \<or> hd rest = CHR ''/''"
  shows "page_language (CHR ''/'' # lang @ rest) = (if lang = [] then ''en'' else lang)"
proof (cases rest)
  case Nil
  then show ?thesis using assms by (simp add: page_language_def split_on_single)
next
  case (Cons c s)
  then show ?thesis using assms by (simp add: page_language_def split_on_prefix)
qed

end
