(* ===== verification/Startup.thy ===== *)
theory Startup
  imports Waiting Metrics Listeners Web
begin

text \<open>
  \<open>NewServer\<close> of src/internal/server.go: from a configuration to the server before its first
  connection. A start may end the process, and what it wrote to the disk until then stays.
\<close>

section \<open>Templates of the web page\<close>

text \<open>\<open>strings.Replace(name, ".template", "", -1)\<close>.\<close>

function strip_template :: "string \<Rightarrow> string" where
  "strip_template [] = []"
| "strip_template (c # cs) =
     (if prefix ''.template'' (c # cs) then strip_template (drop 8 cs) else c # strip_template cs)"
  by pat_completeness auto

termination
  by (relation "measure length") auto

definition set_template :: "string \<Rightarrow> string \<Rightarrow> startup \<Rightarrow> startup" where
  "set_template lang s st = st\<lparr>su_templates := AList.update lang s (su_templates st)\<rparr>"

definition load_template :: "net_env \<Rightarrow> string \<Rightarrow> string \<Rightarrow> startup \<Rightarrow> bool \<times> startup" where
  "load_template N dir name st =
     (case su_files st (path_join N dir name) of
        Content s \<Rightarrow> (True, set_template (strip_template name) s st)
      | _ \<Rightarrow> (False, st))"

text \<open>The condition around this part of \<open>NewServer\<close>, that a sum of lengths is at least 0, always holds.\<close>

definition load_templates :: "net_env \<Rightarrow> startup \<Rightarrow> bool \<times> startup" where
  "load_templates N st =
     (let dir = cfg_template_dir (su_config st);
          st1 = set_template ''en'' default_template st;
          fill = (\<lambda>r. go_on r (\<lambda>st. (True, if map_of (su_templates st) ''en'' = None
                                             then set_template ''en'' default_template st else st)))
      in if dir = [] then fill (True, st1)
         else (case read_dir N dir of
           None \<Rightarrow> (False, st1)
         | Some names \<Rightarrow> fill (for_each (load_template N dir) names st1)))"

section \<open>The listeners\<close>

definition start_listeners :: "'t go_env \<Rightarrow> net_env \<Rightarrow> startup \<Rightarrow> bool \<times> startup" where
  "start_listeners E N st0 =
     go_on (for_each (listen N IRC) (cfg_listen (su_config st0)) st0) (\<lambda>st.
     go_on (for_each (listentls N IRC) (go_range E (cfg_tls_listen (su_config st))) st) (\<lambda>st.
     go_on (for_each (listeni2p N IRC) (go_range E (cfg_i2p_listen (su_config st))) st) (\<lambda>st.
     go_on (for_each (listentor N IRC) (go_range E (cfg_tor_listen (su_config st))) st) (\<lambda>st.
     go_on (load_templates N st) (\<lambda>st.
     go_on (for_each (listen N WWW) (cfg_www_listen (su_config st)) st) (\<lambda>st.
     go_on (for_each (listentls N WWW) (go_range E (cfg_www_tls_listen (su_config st))) st) (\<lambda>st.
     go_on (for_each (listeni2p N WWW) (go_range E (cfg_www_i2p_listen (su_config st))) st) (\<lambda>st.
     for_each (listentor N WWW) (go_range E (cfg_www_tor_listen (su_config st))) st))))))))"

section \<open>The server\<close>

text \<open>
  \<open>cs\<close> and \<open>chs\<close> are the clients and channels that are not allocated yet. \<open>names\<close> are the metrics the
  library has registered before.
\<close>

definition fresh_server ::
  "'t go_env \<Rightarrow> (client_id \<Rightarrow> 't Client) \<Rightarrow> (channel_id \<Rightarrow> 't Channel) \<Rightarrow> int \<Rightarrow> Config
   \<Rightarrow> (string \<times> string) list \<Rightarrow> (string \<times> string) list \<Rightarrow> string option \<Rightarrow> startup \<Rightarrow> 't world" where
  "fresh_server E cs chs now conf ops accounts password st =
     \<lparr>w_clients = cs, w_chans = chs, w_next_client = 0, w_next_chan = 0,
      srv_channels = cm_new (chan_map E), srv_connections = 0, srv_nicks = [], srv_ctime = now,
      srv_name = NewName E (cfg_name conf), srv_network = NewName E (cfg_network conf),
      srv_description = cfg_description conf, srv_operators = ops, srv_accounts = accounts,
      srv_password = password, srv_whoWas = NewWhoWasList 100,
      srv_global_id = identity_string E (cfg_name conf) ''global'', srv_motdFile = cfg_motd conf,
      srv_config = su_config st,
      w_files = (\<lambda>p. case su_files st p of Content s \<Rightarrow> Some s | _ \<Rightarrow> None),
      w_clock = now, w_out = [], w_messages = 0, w_commands = 0, w_secure = 0, w_insecure = 0\<rparr>"

record 't server =
  s_world :: "'t world"
  s_metrics :: Metrics
  s_startup :: startup

definition NewServer ::
  "'t go_env \<Rightarrow> net_env \<Rightarrow> prom_env \<Rightarrow> (client_id \<Rightarrow> 't Client) \<Rightarrow> (channel_id \<Rightarrow> 't Channel) \<Rightarrow> string list
   \<Rightarrow> int \<Rightarrow> Config \<Rightarrow> files \<Rightarrow> 't server outcome" where
  "NewServer E N P cs chs names now conf fs =
     and_then (Operators E conf) (\<lambda>ops.
     and_then (Accounts E conf) (\<lambda>accounts.
     and_then (if cfg_password conf = [] then Ret None
               else and_then (PasswordBytes (cfg_password conf)) (\<lambda>b. Ret (Some b))) (\<lambda>password.
     case start_listeners E N \<lparr>su_config = conf, su_listening = [], su_templates = [], su_files = fs\<rparr> of
       (False, _) \<Rightarrow> Panic
     | (True, st) \<Rightarrow>
         and_then (register_metrics P (NewMetrics ''eris'' names)) (\<lambda>m.
         Ret \<lparr>s_world = fresh_server E cs chs now conf ops accounts password st, s_metrics = m, s_startup = st\<rparr>))))"

section \<open>What a start has done\<close>

lemma for_each_keeps:
  assumes "for_each f xs st = (True, st')" "\<And>x s s'. f x s = (True, s') \<Longrightarrow> h s' = h s"
  shows "h st' = h st"
  using assms(1)
proof (induction xs arbitrary: st)
  case (Cons x xs)
  then obtain st1 where "f x st = (True, st1)" "for_each f xs st1 = (True, st')" by (auto simp: go_on_True)
  with Cons.IH [OF this(2)] assms(2) [OF this(1)] show ?case by simp
qed simp

lemma load_template_keeps:
  assumes "load_template N dir name st = (True, st')"
  shows "su_listening st' = su_listening st" "su_config st' = su_config st"
    and "map_of (su_templates st) l \<noteq> None \<Longrightarrow> map_of (su_templates st') l \<noteq> None"
  using assms by (auto simp: load_template_def set_template_def update_conv' split: disk_file.splits)

lemma load_templates_keeps:
  assumes "load_templates N st = (True, st')"
  shows "su_listening st' = su_listening st \<and> su_config st' = su_config st \<and> map_of (su_templates st') ''en'' \<noteq> None"
proof -
  define st1 where "st1 = set_template ''en'' default_template st"
  define fill where "fill u = (if map_of (su_templates u) ''en'' = None then set_template ''en'' default_template u else u)" for u
  have fill: "su_listening (fill u) = su_listening u" "su_config (fill u) = su_config u"
    "map_of (su_templates (fill u)) ''en'' \<noteq> None" for u
    by (simp_all add: fill_def set_template_def update_conv')
  obtain u where u: "st' = fill u" "su_listening u = su_listening st1" "su_config u = su_config st1"
  proof (cases "cfg_template_dir (su_config st) = []")
    case True
    then have "st' = fill st1" using assms by (auto simp: load_templates_def Let_def go_on_True st1_def fill_def)
    then show thesis using that by blast
  next
    case False
    with assms obtain names u where "for_each (load_template N (cfg_template_dir (su_config st))) names st1 = (True, u)" "st' = fill u"
      by (auto simp: load_templates_def Let_def go_on_True st1_def fill_def split: option.splits)
    with for_each_keeps [OF this(1), of su_listening] for_each_keeps [OF this(1), of su_config] load_template_keeps(1,2)
    show thesis using that [of u] by blast
  qed
  with fill [of u] show ?thesis by (simp add: st1_def set_template_def)
qed

text \<open>A listener changes at most the list of addresses of its own service and network.\<close>

lemma i2p_keeps:
  assumes "for_each (listeni2p N srv) xs s = (True, s')" "\<And>c a k. g (put_i2p srv a c k) = g k"
  shows "g (su_config s') = g (su_config s)"
  by (rule for_each_keeps [OF assms(1), of "\<lambda>s. g (su_config s)"]) (use listeni2p_adds(3) assms(2) in metis)

lemma tor_keeps:
  assumes "for_each (listentor N srv) xs s = (True, s')" "\<And>c a k. g (put_tor srv a c k) = g k"
  shows "g (su_config s') = g (su_config s)"
  by (rule for_each_keeps [OF assms(1), of "\<lambda>s. g (su_config s)"]) (use listentor_adds(3) assms(2) in metis)

text \<open>The addresses of a configuration, of one service, in the order they are opened.\<close>

definition irc_endpoints :: "'t go_env \<Rightarrow> Config \<Rightarrow> (service \<times> endpoint \<times> string) list" where
  "irc_endpoints E conf =
     map (\<lambda>a. (IRC, Tcp, a)) (cfg_listen conf) @ map (\<lambda>e. (IRC, Tls, fst e)) (go_range E (cfg_tls_listen conf)) @
     map (\<lambda>e. (IRC, I2p, fst e)) (go_range E (cfg_i2p_listen conf)) @
     map (\<lambda>e. (IRC, Tor, fst e)) (go_range E (cfg_tor_listen conf))"

definition www_endpoints :: "'t go_env \<Rightarrow> Config \<Rightarrow> (service \<times> endpoint \<times> string) list" where
  "www_endpoints E conf =
     map (\<lambda>a. (WWW, Tcp, a)) (cfg_www_listen conf) @ map (\<lambda>e. (WWW, Tls, fst e)) (go_range E (cfg_www_tls_listen conf)) @
     map (\<lambda>e. (WWW, I2p, fst e)) (go_range E (cfg_www_i2p_listen conf)) @
     map (\<lambda>e. (WWW, Tor, fst e)) (go_range E (cfg_www_tor_listen conf))"

lemma start_listening:
  assumes "start_listeners E N st = (True, st')"
  shows "su_listening st' = su_listening st @ irc_endpoints E (su_config st) @ www_endpoints E (su_config st)"
    and "map_of (su_templates st') ''en'' \<noteq> None"
proof -
  define conf where "conf = su_config st"
  obtain s1 s2 s3 s4 s5 s6 s7 s8 where
    f: "for_each (listen N IRC) (cfg_listen (su_config st)) st = (True, s1)"
      "for_each (listentls N IRC) (go_range E (cfg_tls_listen (su_config s1))) s1 = (True, s2)"
      "for_each (listeni2p N IRC) (go_range E (cfg_i2p_listen (su_config s2))) s2 = (True, s3)"
      "for_each (listentor N IRC) (go_range E (cfg_tor_listen (su_config s3))) s3 = (True, s4)"
      "load_templates N s4 = (True, s5)"
      "for_each (listen N WWW) (cfg_www_listen (su_config s5)) s5 = (True, s6)"
      "for_each (listentls N WWW) (go_range E (cfg_www_tls_listen (su_config s6))) s6 = (True, s7)"
      "for_each (listeni2p N WWW) (go_range E (cfg_www_i2p_listen (su_config s7))) s7 = (True, s8)"
      "for_each (listentor N WWW) (go_range E (cfg_www_tor_listen (su_config s8))) s8 = (True, st')"
    using assms(1) by (auto simp: start_listeners_def go_on_True)
  have c1: "su_config s1 = conf"
    unfolding conf_def by (rule for_each_keeps [OF f(1)]) (rule listen_adds(3))
  have c2: "su_config s2 = conf"
    unfolding c1 [symmetric] by (rule for_each_keeps [OF f(2)]) (rule listentls_adds(3))
  have c3: "cfg_tor_listen (su_config s3) = cfg_tor_listen conf"
    using i2p_keeps [OF f(3), of cfg_tor_listen] by (simp add: put_i2p_def c2)
  note t5 = load_templates_keeps [OF f(5)]
  then have l5: "su_listening s5 = su_listening s4" by simp
  have c5: "cfg_www_listen (su_config s5) = cfg_www_listen conf" "cfg_www_tls_listen (su_config s5) = cfg_www_tls_listen conf"
    "cfg_www_i2p_listen (su_config s5) = cfg_www_i2p_listen conf" "cfg_www_tor_listen (su_config s5) = cfg_www_tor_listen conf"
    using t5 c2 i2p_keeps [OF f(3), of cfg_www_listen] i2p_keeps [OF f(3), of cfg_www_tls_listen]
      i2p_keeps [OF f(3), of cfg_www_i2p_listen] i2p_keeps [OF f(3), of cfg_www_tor_listen]
      tor_keeps [OF f(4), of cfg_www_listen] tor_keeps [OF f(4), of cfg_www_tls_listen]
      tor_keeps [OF f(4), of cfg_www_i2p_listen] tor_keeps [OF f(4), of cfg_www_tor_listen]
    by (simp_all add: put_i2p_def put_tor_def)
  have c6: "su_config s6 = su_config s5" by (rule for_each_keeps [OF f(6)]) (rule listen_adds(3))
  have c7: "su_config s7 = su_config s5" unfolding c6 [symmetric] by (rule for_each_keeps [OF f(7)]) (rule listentls_adds(3))
  have c8: "cfg_www_tor_listen (su_config s8) = cfg_www_tor_listen conf"
    using i2p_keeps [OF f(8), of cfg_www_tor_listen] by (simp add: put_i2p_def c7 c5)
  note adds = for_each_adds [OF f(1) listen_adds(1)] for_each_adds [OF f(2) listentls_adds(1)]
    for_each_adds [OF f(3) listeni2p_adds(1)] for_each_adds [OF f(4) listentor_adds(1)]
    for_each_adds [OF f(6) listen_adds(1)] for_each_adds [OF f(7) listentls_adds(1)]
    for_each_adds [OF f(8) listeni2p_adds(1)] for_each_adds [OF f(9) listentor_adds(1)]
  show "su_listening st' = su_listening st @ irc_endpoints E (su_config st) @ www_endpoints E (su_config st)"
    by (simp add: adds l5 c1 c2 c3 c5 c6 c7 c8 conf_def [symmetric] irc_endpoints_def www_endpoints_def)
  have "su_templates st' = su_templates s5"
    using for_each_keeps [OF f(6), of su_templates, OF listen_adds(2)]
      for_each_keeps [OF f(7), of su_templates, OF listentls_adds(2)]
      for_each_keeps [OF f(8), of su_templates, OF listeni2p_adds(2)]
      for_each_keeps [OF f(9), of su_templates, OF listentor_adds(2)] by simp
  then show "map_of (su_templates st') ''en'' \<noteq> None" using t5 by simp
qed

section \<open>The server of a configuration\<close>

lemma NewServer_Ret:
  assumes "NewServer E N P cs chs names now conf fs = Ret s"
  obtains ops accounts password m st where
    "Operators E conf = Ret ops" "Accounts E conf = Ret accounts"
    "if cfg_password conf = [] then password = None
     else \<exists>b. DecodePassword (cfg_password conf) = Some b \<and> password = Some b"
    "start_listeners E N \<lparr>su_config = conf, su_listening = [], su_templates = [], su_files = fs\<rparr> = (True, st)"
    "register_metrics P (NewMetrics ''eris'' names) = Ret m"
    "s = \<lparr>s_world = fresh_server E cs chs now conf ops accounts password st, s_metrics = m, s_startup = st\<rparr>"
proof -
  let ?st0 = "\<lparr>su_config = conf, su_listening = [], su_templates = [], su_files = fs\<rparr>"
  obtain ok st where r: "start_listeners E N ?st0 = (ok, st)" by force
  obtain ops accounts password where p: "Operators E conf = Ret ops" "Accounts E conf = Ret accounts"
    "(if cfg_password conf = [] then Ret None
      else and_then (PasswordBytes (cfg_password conf)) (\<lambda>b. Ret (Some b))) = Ret password"
    "(case (ok, st) of (False, _) \<Rightarrow> Panic | (True, st) \<Rightarrow>
        and_then (register_metrics P (NewMetrics ''eris'' names)) (\<lambda>m.
        Ret \<lparr>s_world = fresh_server E cs chs now conf ops accounts password st, s_metrics = m, s_startup = st\<rparr>)) = Ret s"
    using assms unfolding NewServer_def r and_then_Ret_iff by blast
  have ok: "ok" using p(4) by (cases ok) simp_all
  then obtain m where "register_metrics P (NewMetrics ''eris'' names) = Ret m"
    "s = \<lparr>s_world = fresh_server E cs chs now conf ops accounts password st, s_metrics = m, s_startup = st\<rparr>"
    using p(4) by (auto simp: and_then_Ret_iff)
  moreover have "if cfg_password conf = [] then password = None
      else \<exists>b. DecodePassword (cfg_password conf) = Some b \<and> password = Some b"
    using p(3) by (cases "DecodePassword (cfg_password conf)") (auto simp: PasswordBytes_def split: if_splits)
  moreover have "start_listeners E N ?st0 = (True, st)" using r ok by simp
  ultimately show thesis using that p(1,2) by blast
qed



section \<open>The main loop\<close>

text \<open>
  \<open>Server.Run\<close>: it takes what arrives on its channels until \<open>Stop\<close>. A signal announces the shutdown; the
  \<open>Stop\<close> that follows a second later is an event of its own. The lines of the clients are handled by
  their own goroutines. The loop itself sends the notice and the pings, so it waits for those who get
  them, as \<open>peers\<close> says.
\<close>

datatype event = Done | Signal | NewConn bool string | IdleClient client_id

fun Run :: "'t go_env \<Rightarrow> peers \<Rightarrow> event list \<Rightarrow> 't world \<Rightarrow> 't world outcome" where
  "Run E P [] w = Ret w"
| "Run E P (Done # es) w = Ret w"
| "Run E P (Signal # es) w = and_then (goroutine P (Global E ''shutting down...'') w) (Run E P es)"
| "Run E P (NewConn tls hostname # es) w = Run E P es (accept E tls hostname w)"
| "Run E P (IdleClient c # es) w = and_then (goroutine P (\<lambda>w. Ret (Idle c w)) w) (Run E P es)"


lemma Run_after_stop: "Run E P (es @ Done # fs) w = Run E P es w"
proof (induction es arbitrary: w)
  case (Cons e es)
  then show ?case by (cases e) (auto intro: arg_cong2 [of _ _ _ _ and_then])
qed simp



text \<open>A start with an operator and a password: \<open>a2V5\<close> is \<open>key\<close>.\<close>

definition demo_config :: Config where
  "demo_config = zero_config\<lparr>cfg_network := ''net'', cfg_name := ''irc.x'', cfg_password := ''a2V5'',
     cfg_listen := ['':6667''], cfg_i2p_listen := [(''i2p'', Some i2p_service)],
     cfg_operators := [(''root'', Some ''a2V5'')]\<rparr>"

lemma decode_key: "DecodePassword ''a2V5'' = Some ''key''"
  by code_simp

lemma demo_i2p:
  assumes "su_files st = (\<lambda>_. NoFile)"
  shows "\<exists>st1 c. listeni2p quiet_net s (a, Some i2p_service) st = (True, st1) \<and> su_config st1 = put_i2p s a c (su_config st)"
proof -
  define path where "path = i2p_key_path i2p_service"
  obtain keys where keys: "i2p_new_keys quiet_net = Some keys" by (simp add: quiet_net_def)
  have "i2p_get_keys quiet_net i2p_service st = (Some keys, set_file path (i2p_store quiet_net keys) st)"
    using assms keys by (simp add: i2p_get_keys_def path_def [symmetric]) (simp add: quiet_net_def)
  moreover have "sam_connect quiet_net x" "i2p_session quiet_net x y" "i2p_listen quiet_net x y"
    "can_create quiet_net x" "can_write quiet_net x" for x y by (simp_all add: quiet_net_def)
  ultimately show ?thesis
    by (auto simp: listeni2p_def i2plistener_def Let_def go_on_def write_file_def start_acceptor_def)
qed

lemma demo_config_fields:
  "cfg_listen demo_config = ['':6667'']" "cfg_tls_listen demo_config = []" "cfg_tor_listen demo_config = []"
  "cfg_i2p_listen demo_config = [(''i2p'', Some i2p_service)]" "cfg_template_dir demo_config = []"
  "cfg_www_listen demo_config = []" "cfg_www_tls_listen demo_config = []" "cfg_www_i2p_listen demo_config = []"
  "cfg_www_tor_listen demo_config = []"
  by (simp_all add: demo_config_def zero_config_def)

lemma demo_listeners:
  "fst (start_listeners list_env quiet_net
     \<lparr>su_config = demo_config, su_listening = [], su_templates = [], su_files = \<lambda>_. NoFile\<rparr>)"
proof -
  define st where "st = \<lparr>su_config = demo_config, su_listening = [(IRC, Tcp, '':6667'')], su_templates = [],
    su_files = (\<lambda>_. NoFile)\<rparr>"
  obtain st1 c where i2p: "listeni2p quiet_net IRC (''i2p'', Some i2p_service) st = (True, st1)"
    "su_config st1 = put_i2p IRC ''i2p'' c demo_config"
    using demo_i2p [of st IRC "''i2p''"] by (auto simp: st_def)
  have templates: "load_templates quiet_net st1 = (True, set_template ''en'' default_template st1)"
    by (simp add: load_templates_def i2p(2) put_i2p_def demo_config_fields go_on_def set_template_def update_conv')
  have listen: "listen quiet_net IRC '':6667'' \<lparr>su_config = demo_config, su_listening = [], su_templates = [],
      su_files = \<lambda>_. NoFile\<rparr> = (True, st)"
    by (simp add: listen_def start_acceptor_def st_def quiet_net_def)
  have fields: "su_config st = demo_config" by (simp add: st_def)
  show ?thesis
    by (simp add: start_listeners_def demo_config_fields listen fields i2p templates go_on_def set_template_def put_i2p_def)
qed

lemma demo_start: "\<exists>s. NewServer list_env quiet_net plain_prom cs chs [''go_info''] 0 demo_config (\<lambda>_. NoFile) = Ret s"
proof -
  obtain m where m: "register_metrics plain_prom (NewMetrics ''eris'' [''go_info'']) = Ret m"
    using plain_prom.registered [of "''eris''" "[''go_info'']"] by auto
  have "Operators list_env demo_config = Ret [(''root'', ''key'')]" "Accounts list_env demo_config = Ret []"
    "cfg_password demo_config = ''a2V5''"
    by (simp_all add: Operators_def Accounts_def demo_config_def zero_config_def PasswordBytes_def decode_key NewName_def)
  then show ?thesis
    using m demo_listeners by (auto simp: NewServer_def PasswordBytes_def decode_key split: prod.split bool.split)
qed


text \<open>A server that has come up listens on every address of its configuration, for IRC and for the
  web page, and on no other; it has a page in English; and every look-up of a metric succeeds.\<close>

theorem started_server_listens:
  assumes "prom_laws P" "\<And>n. ''eris_'' @ n \<notin> set names"
    and "NewServer E N P cs chs names now conf fs = Ret s"
  shows "su_listening (s_startup s) = irc_endpoints E conf @ www_endpoints E conf \<and>
    map_of (su_templates (s_startup s)) ''en'' \<noteq> None \<and>
    client_gauge (s_metrics s) tls = Ret () \<and> command_duration (s_metrics s) code = Ret ()"
proof -
  obtain m st where s:
    "start_listeners E N \<lparr>su_config = conf, su_listening = [], su_templates = [], su_files = fs\<rparr> = (True, st)"
    "register_metrics P (NewMetrics ''eris'' names) = Ret m" "s_startup s = st" "s_metrics s = m"
    by (rule NewServer_Ret [OF assms(3)]) simp
  obtain m' where "register_metrics P (NewMetrics ''eris'' names) = Ret m'" "m_guagevecs m' = [(''server_clients'', 1)]"
    "m_sumvecs m' = [(''client_command_duration_seconds'', 1)]"
    using prom_laws.registered [OF assms(1), of "''eris''" names] assms(2) by auto
  with s(2) have "client_gauge m tls = Ret ()" "command_duration m code = Ret ()"
    by (simp_all add: metric_key_eq client_gauge_def command_duration_def Metrics_GaugeVec_def Metrics_SummaryVec_def
        WithLabelValues_def)
  then show ?thesis using start_listening [OF s(1)] s(3,4) by simp
qed

theorem started_server_listens_witness:
  "\<exists>s. NewServer list_env quiet_net plain_prom (\<lambda>_. fresh_client) (\<lambda>_. blank_channel) [''go_info''] 0 demo_config
       (\<lambda>_. NoFile) = Ret s \<and> su_listening (s_startup s) = [(IRC, Tcp, '':6667''), (IRC, I2p, ''i2p'')]"
proof -
  obtain s where s: "NewServer list_env quiet_net plain_prom (\<lambda>_. fresh_client) (\<lambda>_. blank_channel) [''go_info''] 0
      demo_config (\<lambda>_. NoFile) = Ret s"
    using demo_start by blast
  from started_server_listens [OF plain_prom.prom_laws_axioms _ s] s show ?thesis
    by (auto simp: irc_endpoints_def www_endpoints_def demo_config_def zero_config_def)
qed

end
