(* ===== verification/Interleaving.thy ===== *)
theory Interleaving
  imports Demo
begin

text \<open>
  What happens when commands do not run one after the other: every client has its goroutine, the
  timers have theirs, and none of the fields of a client is guarded. This theory takes the commands
  that change the table of nicks apart, into the stretches of code between two accesses of shared
  state: NICK (src/internal/nickname.go), \<open>SetNickname\<close>, \<open>ChangeNickname\<close>, \<open>Quit\<close> and \<open>destroy\<close>
  (src/internal/client.go), \<open>Add\<close> and \<open>Remove\<close> (src/internal/client_lookup.go), which test the table under
  a read lock and change it under a lock they take later.

  JOIN (src/internal/server.go) looks a channel up, makes it when it is not there, and joins.

  A \<open>task\<close> is what a goroutine has still to do, \<open>task_step\<close> its next stretch, and \<open>run\<close> follows a
  schedule. Without interruption a task is the operation of the other theories. A bystander is safe
  from any interleaving, and looking a nick up finds nobody who does not have it; but two clients can
  get the same nick, two channels the same name, and two goroutines that end the same client end the process.
\<close>

section \<open>Tasks\<close>

datatype task =
    Nick_register client_id string
  | Set_nick client_id string
  | Add_test client_id task
  | Add_insert client_id task
  | Try_register client_id
  | Nick_change client_id string
  | Remove_test client_id task
  | Remove_delete client_id task
  | Log_nick client_id string string
  | Rename client_id string string
  | Tell_friends client_id string
  | Quit_test client_id string
  | Quit_set client_id string
  | Quit_log client_id string
  | Leave_channels client_id "client_id list" string
  | Close client_id "client_id list" string
  | Tell_quit client_id "client_id list" string
  | Join_get client_id string string
  | Join_new client_id string string
  | Join_channel client_id channel_id string
  | Over

text \<open>Those \<open>Quit\<close> tells, the parts of \<open>destroy\<close> before and after the removal of the nick.\<close>

definition quit_friends :: "'t go_env \<Rightarrow> client_id \<Rightarrow> 't world \<Rightarrow> client_id list" where
  "quit_friends E c w =
     (let friends = set_remove (client_sets E) (Friends E w c) c
      in if set_count (client_sets E) friends > 0 then set_range (client_sets E) friends else [])"

definition leave_channels :: "'t go_env \<Rightarrow> client_id \<Rightarrow> 't world \<Rightarrow> 't world" where
  "leave_channels E c w =
     (let w1 = fold (\<lambda>ch. channel_Quit E ch c) (set_range (chan_sets E) (c_channels (cl w c))) w;
          w2 = (if c_tls (cl w1 c) then w1\<lparr>w_secure := w_secure w1 - 1\<rparr>
                else w1\<lparr>w_insecure := w_insecure w1 - 1\<rparr>)
      in w2\<lparr>srv_connections := counter_dec E (srv_connections w2)\<rparr>)"

definition close_client :: "client_id \<Rightarrow> 't world \<Rightarrow> 't world outcome" where
  "close_client c w =
     (let w1 = upd_client c (\<lambda>r. r\<lparr>c_idleTimer := map_option (\<lambda>_. Stopped) (c_idleTimer r),
                                  c_quitTimer := map_option (\<lambda>_. Stopped) (c_quitTimer r)\<rparr>) w
      in if c_replies_closed (cl w1 c) then Panic
         else Ret (upd_client c (\<lambda>r. r\<lparr>c_replies_closed := True, c_socket_closed := True\<rparr>) w1))"

fun task_step :: "'t go_env \<Rightarrow> task \<Rightarrow> 't world \<Rightarrow> (task \<times> 't world) outcome" where
  "task_step E (Nick_register c n) w =
     (if \<not> c_authorized (cl w c) then Ret (Quit_test c ''bad password'', ErrPasswdMismatch c w)
      else if n = [] then Ret (Over, ErrNoNicknameGiven c w)
      else if nick_get E w n \<noteq> None then Ret (Over, ErrNickNameInUse c n w)
      else case IsNickname E n of
        None \<Rightarrow> Panic
      | Some ok \<Rightarrow> if \<not> ok then Ret (Over, ErrErroneusNickname c n w) else Ret (Set_nick c n, w))"
| "task_step E (Set_nick c n) w =
     (if c_nick (cl w c) \<noteq> [] then Ret (Try_register c, w)
      else Ret (Add_test c (Try_register c), upd_client c (\<lambda>r. r\<lparr>c_nick := n\<rparr>) w))"
| "task_step E (Add_test c t) w =
     (if HasNick w c \<and> nick_get E w (c_nick (cl w c)) = None then Ret (Add_insert c t, w) else Ret (t, w))"
| "task_step E (Add_insert c t) w =
     Ret (t, w\<lparr>srv_nicks := AList.update (to_lower E (Nick w c)) c (srv_nicks w)\<rparr>)"
| "task_step E (Try_register c) w = Ret (Over, tryRegister E c w)"
| "task_step E (Nick_change c n) w =
     (if n = [] then Ret (Over, ErrNoNicknameGiven c w)
      else case IsNickname E n of
        None \<Rightarrow> Panic
      | Some ok \<Rightarrow>
          if \<not> ok then Ret (Over, ErrErroneusNickname c n w)
          else if n = c_nick (cl w c) then Ret (Over, w)
          else if nick_get E w n \<noteq> None \<and> nick_get E w n \<noteq> Some c then Ret (Over, ErrNickNameInUse c n w)
          else Ret (Remove_test c (Log_nick c n (RplNick (client_str w c) n)), w))"
| "task_step E (Remove_test c t) w =
     (if HasNick w c \<and> nick_get E w (c_nick (cl w c)) = Some c then Ret (Remove_delete c t, w) else Ret (t, w))"
| "task_step E (Remove_delete c t) w =
     Ret (t, w\<lparr>srv_nicks := AList.delete (to_lower E (c_nick (cl w c))) (srv_nicks w)\<rparr>)"
| "task_step E (Log_nick c n reply) w = and_then (append_whowas c w) (\<lambda>v. Ret (Rename c n reply, v))"
| "task_step E (Rename c n reply) w =
     Ret (Add_test c (Tell_friends c reply), upd_client c (\<lambda>r. r\<lparr>c_nick := n\<rparr>) w)"
| "task_step E (Tell_friends c reply) w =
     Ret (Over, reply_all (set_range (client_sets E) (Friends E w c)) reply w)"
| "task_step E (Quit_test c msg) w = Ret (if c_hasQuit (cl w c) then Over else Quit_set c msg, w)"
| "task_step E (Quit_set c msg) w = Ret (Quit_log c msg, upd_client c (\<lambda>r. r\<lparr>c_hasQuit := True\<rparr>) w)"
| "task_step E (Quit_log c msg) w =
     and_then (append_whowas c (Reply c (RplError ''quit'') w)) (\<lambda>v. Ret (Leave_channels c (quit_friends E c v) msg, v))"
| "task_step E (Leave_channels c friends msg) w =
     Ret (Remove_test c (Close c friends msg), leave_channels E c w)"
| "task_step E (Close c friends msg) w = and_then (close_client c w) (\<lambda>v. Ret (Tell_quit c friends msg, v))"
| "task_step E (Tell_quit c friends msg) w =
     Ret (Over, if friends = [] then w else reply_all friends (RplQuit w c msg) w)"
| "task_step E (Join_get c name key) w =
     (if \<not> IsChannel E name then Ret (Over, ErrNoSuchChannel c name w)
      else Ret (case get_channel E w name of None \<Rightarrow> Join_new c name key | Some ch \<Rightarrow> Join_channel c ch key, w))"
| "task_step E (Join_new c name key) w =
     (case NewChannel E name True w of (ch, v) \<Rightarrow> Ret (Join_channel c ch key, v))"
| "task_step E (Join_channel c ch key) w = Ret (Over, channel_Join E ch c key w)"
| "task_step E Over w = Ret (Over, w)"

text \<open>A schedule names, for each step, the task whose turn it is.\<close>

fun run :: "'t go_env \<Rightarrow> nat list \<Rightarrow> task list \<times> 't world \<Rightarrow> (task list \<times> 't world) outcome" where
  "run E [] s = Ret s"
| "run E (i # is) (ts, w) =
     (if i < length ts then and_then (task_step E (ts ! i) w) (\<lambda>(t, v). run E is (ts[i := t], v))
      else run E is (ts, w))"

primrec alone :: "'t go_env \<Rightarrow> nat \<Rightarrow> task \<Rightarrow> 't world \<Rightarrow> (task \<times> 't world) outcome" where
  "alone E 0 t w = Ret (t, w)"
| "alone E (Suc k) t w = and_then (task_step E t w) (\<lambda>(u, v). alone E k u v)"

lemma run_append: "run E (is @ js) s = and_then (run E is s) (run E js)"
proof (induction "is" arbitrary: s)
  case (Cons i "is")
  obtain ts w where "s = (ts, w)" by force
  then show ?case using Cons.IH by (cases "task_step E (ts ! i) w") auto
qed simp

lemma run_alone:
  assumes "i < length ts"
  shows "run E (replicate k i) (ts, w) = and_then (alone E k (ts ! i) w) (\<lambda>(t, v). Ret (ts[i := t], v))"
  using assms
proof (induction k arbitrary: ts w)
  case (Suc k)
  show ?case
  proof (cases "task_step E (ts ! i) w")
    case (Ret r)
    obtain u v where "r = (u, v)" by force
    with Suc Ret show ?thesis by simp
  qed (use Suc.prems in simp_all)
qed simp

section \<open>Tasks that are not interrupted\<close>

text \<open>The task is over after \<open>k\<close> steps, with this outcome.\<close>

definition ends :: "'t go_env \<Rightarrow> nat \<Rightarrow> task \<Rightarrow> 't world \<Rightarrow> 't world outcome \<Rightarrow> bool" where
  "ends E k t w r \<longleftrightarrow> (\<forall>j \<ge> k. alone E j t w = and_then r (\<lambda>v. Ret (Over, v)))"

lemma ends_mono: "ends E k t w r \<Longrightarrow> k \<le> k' \<Longrightarrow> ends E k' t w r"
  by (simp add: ends_def)

lemma ends_Over: "ends E 0 Over w (Ret w)"
proof -
  have "alone E k Over w = Ret (Over, w)" for k by (induction k) simp_all
  then show ?thesis by (simp add: ends_def)
qed

lemma ends_bind:
  assumes "task_step E t w = and_then a (\<lambda>x. Ret (u x, v x))" "\<And>x. ends E k (u x) (v x) (r x)"
  shows "ends E (Suc k) t w (and_then a r)"
  unfolding ends_def
proof (intro allI impI)
  fix j assume "Suc k \<le> j"
  then obtain i where "j = Suc i" "k \<le> i" by (cases j) auto
  with assms show "alone E j t w = and_then (and_then a r) (\<lambda>v. Ret (Over, v))"
    by (cases a) (simp_all add: ends_def)
qed

lemma ends_step:
  assumes "task_step E t w = Ret (u, v)" "ends E k u v r"
  shows "ends E (Suc k) t w r"
  using ends_bind [of E t w "Ret v" "\<lambda>_. u" "\<lambda>_. v" k "\<lambda>_. r"] assms by simp

lemma ends_fail: "task_step E t w = Panic \<Longrightarrow> ends E (Suc k) t w Panic"
  using ends_bind [of E t w Panic "\<lambda>_. Over" "\<lambda>_. w" 0 "\<lambda>_. Ret w"] ends_mono [of E 1 t w Panic "Suc k"]
    ends_Over [of E w] by simp

lemma ends_now: "task_step E t w = Ret (Over, v) \<Longrightarrow> ends E (Suc k) t w (Ret v)"
  by (rule ends_mono [OF ends_step [OF _ ends_Over]]) simp_all

lemma ends_add:
  assumes "ends E k t (snd (nick_add E c w)) r"
  shows "ends E (Suc (Suc k)) (Add_test c t) w r"
proof (cases "HasNick w c \<and> nick_get E w (c_nick (cl w c)) = None")
  case True
  with assms have "ends E (Suc k) (Add_insert c t) w r" by (auto intro!: ends_step [of E "Add_insert c t" w t] simp: nick_add_def)
  with True show ?thesis by (intro ends_step [of E "Add_test c t" w "Add_insert c t" w]) simp_all
next
  case False
  with assms have "ends E k t w r" by (auto simp: nick_add_def split: if_splits)
  with False have "ends E (Suc k) (Add_test c t) w r" by (auto intro: ends_step [of E "Add_test c t" w t w])
  then show ?thesis by (rule ends_mono) simp
qed

lemma ends_remove:
  assumes "ends E k t (snd (nick_remove E c w)) r"
  shows "ends E (Suc (Suc k)) (Remove_test c t) w r"
proof (cases "HasNick w c \<and> nick_get E w (c_nick (cl w c)) = Some c")
  case True
  with assms have "ends E (Suc k) (Remove_delete c t) w r"
    by (auto intro!: ends_step [of E "Remove_delete c t" w t] simp: nick_remove_def)
  with True show ?thesis by (intro ends_step [of E "Remove_test c t" w "Remove_delete c t" w]) simp_all
next
  case False
  with assms have "ends E k t w r" by (auto simp: nick_remove_def split: if_splits)
  with False have "ends E (Suc k) (Remove_test c t) w r" by (auto intro: ends_step [of E "Remove_test c t" w t w])
  then show ?thesis by (rule ends_mono) simp
qed

lemma destroy_parts: "destroy E c w = close_client c (snd (nick_remove E c (leave_channels E c w)))"
  by (simp add: destroy_def close_client_def leave_channels_def Let_def)

text \<open>\<open>Quit\<close> after its test and the setting of the flag.\<close>

definition quit_rest :: "'t go_env \<Rightarrow> client_id \<Rightarrow> string \<Rightarrow> 't world \<Rightarrow> 't world outcome" where
  "quit_rest E c msg w = and_then (append_whowas c (Reply c (RplError ''quit'') w))
     (\<lambda>v. and_then (destroy E c v) (\<lambda>u. Ret (if quit_friends E c v = [] then u
        else reply_all (quit_friends E c v) (RplQuit u c msg) u)))"

lemma client_Quit_rest:
  "client_Quit E c msg w =
     (if c_hasQuit (cl w c) then Ret w else quit_rest E c msg (upd_client c (\<lambda>r. r\<lparr>c_hasQuit := True\<rparr>) w))"
  unfolding client_Quit_def quit_rest_def quit_friends_def Let_def reply_all_def
  by (auto intro!: arg_cong2 [of _ _ _ _ and_then] simp: fun_eq_iff)

lemma ends_quit_rest: "ends E 6 (Quit_log c msg) w (quit_rest E c msg w)"
proof -
  have close: "ends E 2 (Close c friends msg) v (and_then (close_client c v)
      (\<lambda>u. Ret (if friends = [] then u else reply_all friends (RplQuit u c msg) u)))" for friends and v :: "'a world"
    unfolding numeral_2_eq_2 by (rule ends_bind [OF task_step.simps(16)]) (rule ends_now, simp)
  have "ends E 5 (Leave_channels c friends msg) v (and_then (destroy E c v)
      (\<lambda>u. Ret (if friends = [] then u else reply_all friends (RplQuit u c msg) u)))" for friends and v :: "'a world"
    using ends_step [OF task_step.simps(15) ends_remove [OF close]] by (simp add: destroy_parts eval_nat_numeral)
  from ends_bind [OF task_step.simps(14) this] show ?thesis by (simp add: quit_rest_def)
qed

lemma ends_Quit: "ends E 8 (Quit_test c msg) w (client_Quit E c msg w)"
proof (cases "c_hasQuit (cl w c)")
  case True
  then show ?thesis using ends_now [of E "Quit_test c msg" w w 7] by (simp add: client_Quit_rest)
next
  case False
  have "ends E 7 (Quit_set c msg) w (client_Quit E c msg w)"
    using ends_step [OF task_step.simps(13) ends_quit_rest] False by (simp add: client_Quit_rest)
  from ends_step [OF _ this, of "Quit_test c msg" w] False show ?thesis by simp
qed

lemma ends_ChangeNickname:
  assumes "IsNickname E n = Some True" "n \<noteq> []" "n \<noteq> c_nick (cl w c)" "nick_get E w n = None \<or> nick_get E w n = Some c"
  shows "ends E 9 (Nick_change c n) w (ChangeNickname E c n w)"
proof -
  let ?reply = "RplNick (client_str w c) n"
  have tell: "ends E 1 (Tell_friends c s) v (Ret (reply_all (set_range (client_sets E) (Friends E v c)) s v))"
    for s and v :: "'a world"
    using ends_now [OF task_step.simps(11), where k = 0] by simp
  have "ends E 4 (Rename c n s) v (let u = snd (nick_add E c (upd_client c (\<lambda>r. r\<lparr>c_nick := n\<rparr>) v))
      in Ret (reply_all (set_range (client_sets E) (Friends E u c)) s u))" for s and v :: "'a world"
    using ends_step [OF task_step.simps(10) ends_add [OF tell]] by (simp add: Let_def eval_nat_numeral)
  from ends_bind [OF task_step.simps(9) this]
  have "ends E 5 (Log_nick c n ?reply) (snd (nick_remove E c w)) (ChangeNickname E c n w)"
    by (simp add: ChangeNickname_def Let_def)
  from ends_remove [OF this] have rem: "ends E 7 (Remove_test c (Log_nick c n ?reply)) w (ChangeNickname E c n w)" by simp
  have "task_step E (Nick_change c n) w = Ret (Remove_test c (Log_nick c n ?reply), w)" using assms by auto
  from ends_step [OF this rem] show ?thesis by (rule ends_mono) simp
qed

lemma ends_Nick_register: "ends E 10 (Nick_register c n) w (HandleRegServer_Nick E c n w)"
proof -
  consider "\<not> c_authorized (cl w c)" | "c_authorized (cl w c)" "n \<noteq> []" "nick_get E w n = None" "IsNickname E n = Some True"
    | "c_authorized (cl w c)" "n \<noteq> []" "nick_get E w n = None" "IsNickname E n = None"
    | "\<exists>v. task_step E (Nick_register c n) w = Ret (Over, v) \<and> HandleRegServer_Nick E c n w = Ret v"
    by (cases "c_authorized (cl w c)"; cases "IsNickname E n"; cases "n = []"; cases "nick_get E w n"; cases "IsNickname E n = Some True")
      (simp_all add: HandleRegServer_Nick_def)
  then show ?thesis
  proof cases
    case 1
    then have "task_step E (Nick_register c n) w = Ret (Quit_test c ''bad password'', ErrPasswdMismatch c w)" by simp
    from ends_step [OF this ends_Quit] have "ends E 9 (Nick_register c n) w (HandleRegServer_Nick E c n w)"
      using 1 by (simp add: HandleRegServer_Nick_def bad_password_def)
    then show ?thesis by (rule ends_mono) simp
  next
    case 2
    have reg: "ends E 1 (Try_register c) v (Ret (tryRegister E c v))" for v :: "'a world"
      using ends_now [OF task_step.simps(5), where k = 0] by simp
    have set: "ends E 4 (Set_nick c n) w (Ret (tryRegister E c (SetNickname E c n w)))"
    proof (cases "c_nick (cl w c) = []")
      case True
      with ends_step [of E "Set_nick c n" w, OF _ ends_add [OF reg]] show ?thesis
        by (simp add: SetNickname_def eval_nat_numeral)
    next
      case False
      with ends_step [of E "Set_nick c n" w, OF _ reg] have "ends E 2 (Set_nick c n) w (Ret (tryRegister E c (SetNickname E c n w)))"
        by (simp add: SetNickname_def eval_nat_numeral)
      then show ?thesis by (rule ends_mono) simp
    qed
    have "task_step E (Nick_register c n) w = Ret (Set_nick c n, w)" using 2 by simp
    from ends_step [OF this set] have "ends E 5 (Nick_register c n) w (HandleRegServer_Nick E c n w)"
      using 2 by (simp add: HandleRegServer_Nick_def)
    then show ?thesis by (rule ends_mono) simp
  next
    case 3
    with ends_fail [of E "Nick_register c n" w 9] show ?thesis by (simp add: HandleRegServer_Nick_def)
  next
    case 4
    then obtain v where v: "task_step E (Nick_register c n) w = Ret (Over, v)" "HandleRegServer_Nick E c n w = Ret v" by blast
    from ends_now [OF v(1), of 9] v(2) show ?thesis by simp
  qed
qed

lemma ends_Nick_change: "ends E 10 (Nick_change c n) w (HandleServer_Nick E c n w)"
proof -
  consider "n \<noteq> []" "IsNickname E n = Some True" "n \<noteq> c_nick (cl w c)" "nick_get E w n = None \<or> nick_get E w n = Some c"
    | "n \<noteq> []" "IsNickname E n = None"
    | "\<exists>v. task_step E (Nick_change c n) w = Ret (Over, v) \<and> HandleServer_Nick E c n w = Ret v"
    by (cases "IsNickname E n"; cases "n = []"; cases "n = c_nick (cl w c)"; cases "nick_get E w n = None \<or> nick_get E w n = Some c";
        cases "IsNickname E n = Some True") (simp_all add: HandleServer_Nick_def)
  then show ?thesis
  proof cases
    case 1
    with ends_mono [OF ends_ChangeNickname [OF 1(2,1,3,4)], of 10] show ?thesis by (auto simp: HandleServer_Nick_def)
  next
    case 2
    with ends_fail [of E "Nick_change c n" w 9] show ?thesis by (simp add: HandleServer_Nick_def)
  next
    case 3
    then obtain v where v: "task_step E (Nick_change c n) w = Ret (Over, v)" "HandleServer_Nick E c n w = Ret v" by blast
    from ends_now [OF v(1), of 9] v(2) show ?thesis by simp
  qed
qed

lemma ends_Join: "ends E 10 (Join_get c name key) w (Ret (join_one E c (name, key) w))"
proof -
  have join: "ends E 1 (Join_channel c ch key) v (Ret (channel_Join E ch c key v))" for ch and v :: "'a world"
    using ends_now [OF task_step.simps(20), where k = 0] by simp
  have new: "ends E 2 (Join_new c name key) w (Ret (case NewChannel E name True w of (ch, v) \<Rightarrow> channel_Join E ch c key v))"
    using ends_step [of E "Join_new c name key" w, OF _ join] by (simp add: eval_nat_numeral split: prod.split)
  show ?thesis
  proof (cases "IsChannel E name")
    case True
    show ?thesis
    proof (cases "get_channel E w name")
      case None
      with True ends_step [of E "Join_get c name key" w, OF _ new]
      have "ends E 3 (Join_get c name key) w (Ret (join_one E c (name, key) w))" by (simp add: join_one_def)
      then show ?thesis by (rule ends_mono) simp
    next
      case (Some ch)
      with True ends_step [of E "Join_get c name key" w, OF _ join]
      have "ends E 2 (Join_get c name key) w (Ret (join_one E c (name, key) w))"
        by (simp add: join_one_def eval_nat_numeral)
      then show ?thesis by (rule ends_mono) simp
    qed
  next
    case False
    with ends_now [of E "Join_get c name key" w "ErrNoSuchChannel c name w" 9] show ?thesis by (simp add: join_one_def)
  qed
qed

lemma run_ends:
  assumes "ends E k t w r" "i < length ts" "ts ! i = t"
  shows "run E (replicate k i) (ts, w) = and_then r (\<lambda>v. Ret (ts[i := Over], v))"
  using assms run_alone [of i ts E k w] by (cases r) (simp_all add: ends_def)

text \<open>A NICK, before or after registration, a quit and the JOIN of a channel that nobody interrupts
  are, stretch after stretch, what their handlers do.\<close>

lemma uninterrupted:
  "run E (replicate 10 0) ([Nick_register c n], w) = and_then (HandleRegServer_Nick E c n w) (\<lambda>v. Ret ([Over], v)) \<and>
   run E (replicate 10 0) ([Nick_change c n], w) = and_then (HandleServer_Nick E c n w) (\<lambda>v. Ret ([Over], v)) \<and>
   run E (replicate 10 0) ([Quit_test c msg], w) = and_then (client_Quit E c msg w) (\<lambda>v. Ret ([Over], v)) \<and>
   run E (replicate 10 0) ([Join_get c name key], w) = Ret ([Over], join_one E c (name, key) w)"
proof -
  have "run E (replicate 10 0) ([t], w) = and_then r (\<lambda>v. Ret ([Over], v))" if "ends E 10 t w r" for t r
    using run_ends [OF that, of 0 "[t]"] by simp
  note alone = this [OF ends_Nick_register] this [OF ends_Nick_change] this [OF ends_mono [OF ends_Quit]]
    this [OF ends_Join, unfolded and_then.simps]
  show ?thesis
    by (rule conjI [OF alone(1) conjI [OF alone(2) conjI [OF alone(3) alone(4)]]]) simp
qed

section \<open>What no schedule can do\<close>

text \<open>The steps that do not concern the nicks.\<close>

definition same_nicks :: "'t world \<Rightarrow> 't world \<Rightarrow> bool" where
  "same_nicks w v \<longleftrightarrow> srv_nicks v = srv_nicks w \<and> (\<forall>d. c_nick (cl v d) = c_nick (cl w d))"

lemma same_nicks_core: "core v = core w \<Longrightarrow> same_nicks w v"
  using core_fields [of v w] by (simp add: same_nicks_def)

lemma same_nicks_trans: "same_nicks u v \<Longrightarrow> same_nicks v w \<Longrightarrow> same_nicks u w"
  by (simp add: same_nicks_def)

lemma same_nicks_whowas: "append_whowas c w = Ret v \<Longrightarrow> same_nicks w v"
  by (auto dest: append_whowas_Ret simp: same_nicks_def)

lemma same_nicks_register: "same_nicks w (tryRegister E c w)"
proof -
  have "same_nicks w (Register E c w)"
    by (simp add: Register_def Touch_def set_mode_def same_nicks_def)
  moreover have "core (tryRegister E c w) = core w \<or> core (tryRegister E c w) = core (Register E c w)"
    by (simp add: tryRegister_def core_simps)
  ultimately show ?thesis
    using same_nicks_core [of "tryRegister E c w"] same_nicks_trans by blast
qed

lemma same_nicks_leave: "same_nicks w (leave_channels E c w)"
  by (simp add: leave_channels_def Let_def same_nicks_def)

lemma same_nicks_close: "close_client c w = Ret v \<Longrightarrow> same_nicks w v"
  by (auto simp: close_client_def Let_def same_nicks_def split: if_splits)

lemma same_nicks_join: "same_nicks w (channel_Join E ch c key w)" "same_nicks w (snd (NewChannel E name m w))"
proof -
  have "same_nicks w (joined E ch c w)" by (simp add: same_nicks_def)
  then show "same_nicks w (channel_Join E ch c key w)"
    using core_fields [OF core_Join, of E ch c key w] by (auto simp: same_nicks_def split: if_splits)
  show "same_nicks w (snd (NewChannel E name m w))" by (simp add: NewChannel_def Let_def same_nicks_def)
qed

subsection \<open>A bystander\<close>

text \<open>
  What keeps the entry of \<open>d\<close> under the key \<open>K\<close>: no task is about \<open>d\<close>, no task is on the way to a nick
  with this key, and none has found its own client under it.
\<close>

fun spares :: "'t go_env \<Rightarrow> 't world \<Rightarrow> string \<Rightarrow> client_id \<Rightarrow> task \<Rightarrow> bool" where
  "spares E w K d (Set_nick c n) \<longleftrightarrow> c \<noteq> d \<and> n \<noteq> [] \<and> to_lower E n \<noteq> K"
| "spares E w K d (Add_test c t) \<longleftrightarrow> spares E w K d t"
| "spares E w K d (Add_insert c t) \<longleftrightarrow> HasNick w c \<and> to_lower E (c_nick (cl w c)) \<noteq> K \<and> spares E w K d t"
| "spares E w K d (Remove_test c t) \<longleftrightarrow> c \<noteq> d \<and> spares E w K d t"
| "spares E w K d (Remove_delete c t) \<longleftrightarrow> to_lower E (c_nick (cl w c)) \<noteq> K \<and> spares E w K d t"
| "spares E w K d (Log_nick c n reply) \<longleftrightarrow> c \<noteq> d \<and> n \<noteq> [] \<and> to_lower E n \<noteq> K"
| "spares E w K d (Rename c n reply) \<longleftrightarrow> c \<noteq> d \<and> n \<noteq> [] \<and> to_lower E n \<noteq> K"
| "spares E w K d (Nick_register c n) \<longleftrightarrow> c \<noteq> d"
| "spares E w K d (Nick_change c n) \<longleftrightarrow> c \<noteq> d"
| "spares E w K d (Quit_test c msg) \<longleftrightarrow> c \<noteq> d"
| "spares E w K d (Quit_set c msg) \<longleftrightarrow> c \<noteq> d"
| "spares E w K d (Quit_log c msg) \<longleftrightarrow> c \<noteq> d"
| "spares E w K d (Leave_channels c friends msg) \<longleftrightarrow> c \<noteq> d"
| "spares E w K d _ \<longleftrightarrow> True"

lemma spares_mono:
  assumes "spares E w K d t"
    and "\<And>e. c_nick (cl v e) = c_nick (cl w e) \<or> c_nick (cl v e) \<noteq> [] \<and> to_lower E (c_nick (cl v e)) \<noteq> K"
  shows "spares E v K d t"
  using assms(1)
proof (induction t)
  case (Add_insert c t)
  with assms(2) [of c] show ?case by (auto simp: HasNick_def)
next
  case (Remove_delete c t)
  with assms(2) [of c] show ?case by auto
qed auto

lemma same_nicks_get: "same_nicks w v \<Longrightarrow> srv_nicks v = srv_nicks w" "same_nicks w v \<Longrightarrow> c_nick (cl v d) = c_nick (cl w d)"
  by (simp_all add: same_nicks_def)

text \<open>A step changes the nicks, or neither the nicks nor the table, or the table under one nick.\<close>

lemma step_cases:
  assumes "task_step E t w = Ret (u, v)"
  obtains (same) "same_nicks w v"
  | (set_nick) c n where "t = Set_nick c n" "u = Add_test c (Try_register c)" "c_nick (cl w c) = []"
      "v = upd_client c (\<lambda>r. r\<lparr>c_nick := n\<rparr>) w"
  | (rename) c n reply where "t = Rename c n reply" "u = Add_test c (Tell_friends c reply)"
      "v = upd_client c (\<lambda>r. r\<lparr>c_nick := n\<rparr>) w"
  | (insert) c where "t = Add_insert c u" "v = w\<lparr>srv_nicks := AList.update (to_lower E (Nick w c)) c (srv_nicks w)\<rparr>"
  | (delete) c where "t = Remove_delete c u"
      "v = w\<lparr>srv_nicks := AList.delete (to_lower E (c_nick (cl w c))) (srv_nicks w)\<rparr>"
proof (cases t)
  case (Set_nick c n)
  with assms same set_nick show thesis by (auto simp: same_nicks_def split: if_splits)
next
  case (Rename c n reply)
  with assms rename show thesis by simp
next
  case (Add_insert c s)
  with assms insert show thesis by simp
next
  case (Remove_delete c s)
  with assms delete show thesis by simp
next
  case (Nick_register c n)
  with assms show thesis by (intro same same_nicks_core) (auto simp: core_simps split: if_splits option.splits)
next
  case (Nick_change c n)
  with assms show thesis by (intro same same_nicks_core) (auto simp: core_simps split: if_splits option.splits)
next
  case (Quit_log c msg)
  with assms have "append_whowas c (Reply c (RplError ''quit'') w) = Ret v" by (simp add: and_then_Ret_iff)
  from same_nicks_whowas [OF this] show thesis by (intro same) (simp add: same_nicks_def)
next
  case (Log_nick c n reply)
  with assms show thesis by (intro same same_nicks_whowas [of c]) (simp add: and_then_Ret_iff)
next
  case (Close c friends msg)
  with assms show thesis by (intro same same_nicks_close [of c]) (simp add: and_then_Ret_iff)
next
  case (Try_register c)
  with assms have "v = tryRegister E c w" by simp
  then show thesis using same same_nicks_register [of w E c] by simp
next
  case (Leave_channels c friends msg)
  with assms have "v = leave_channels E c w" by simp
  then show thesis using same same_nicks_leave [of w E c] by simp
next
  case (Add_test c s)
  with assms have "same_nicks w v" by (auto simp: same_nicks_def split: if_splits)
  then show thesis by (rule same)
next
  case (Remove_test c s)
  with assms have "same_nicks w v" by (auto simp: same_nicks_def split: if_splits)
  then show thesis by (rule same)
next
  case (Tell_friends c reply)
  with assms have "same_nicks w v" by (auto simp: same_nicks_def split: if_splits)
  then show thesis by (rule same)
next
  case (Quit_test c msg)
  with assms have "same_nicks w v" by (auto simp: same_nicks_def split: if_splits)
  then show thesis by (rule same)
next
  case (Quit_set c msg)
  with assms have "same_nicks w v" by (auto simp: same_nicks_def split: if_splits)
  then show thesis by (rule same)
next
  case (Tell_quit c friends msg)
  with assms have "same_nicks w v" by (auto simp: same_nicks_def split: if_splits)
  then show thesis by (rule same)
next
  case (Join_get c name key)
  with assms have "core v = core w" by (auto simp: core_simps split: if_splits)
  then show thesis by (intro same same_nicks_core)
next
  case (Join_new c name key)
  with assms have "v = snd (NewChannel E name True w)" by (simp split: prod.splits)
  then show thesis using same same_nicks_join(2) [of w E name True] by simp
next
  case (Join_channel c ch key)
  with assms have "v = channel_Join E ch c key w" by simp
  then show thesis using same same_nicks_join(1) [of w E ch c key] by simp
next
  case Over
  with assms have "same_nicks w v" by (simp add: same_nicks_def)
  then show thesis by (rule same)
qed

lemma spares_next:
  assumes "task_step E t w = Ret (u, v)" "spares E w K d t" "map_of (srv_nicks w) K = Some d"
  shows "spares E w K d u"
proof (cases t)
  case (Nick_register c n)
  with assms show ?thesis by (auto simp: nick_get_def split: if_splits option.splits)
next
  case (Nick_change c n)
  with assms show ?thesis by (auto simp: nick_get_def split: if_splits option.splits)
next
  case (Quit_log c msg)
  with assms show ?thesis by (auto simp: and_then_Ret_iff)
next
  case (Log_nick c n reply)
  with assms show ?thesis by (auto simp: and_then_Ret_iff)
next
  case (Close c friends msg)
  with assms show ?thesis by (auto simp: and_then_Ret_iff)
qed (use assms in \<open>auto simp: nick_get_def split: if_splits prod.splits option.split\<close>)

lemma bystander_step:
  assumes "task_step E t w = Ret (u, v)" "spares E w K d t" "map_of (srv_nicks w) K = Some d"
  shows "map_of (srv_nicks v) K = Some d" "c_nick (cl v d) = c_nick (cl w d)"
    "c_nick (cl v e) = c_nick (cl w e) \<or> c_nick (cl v e) \<noteq> [] \<and> to_lower E (c_nick (cl v e)) \<noteq> K"
proof -
  show "map_of (srv_nicks v) K = Some d"
    by (rule step_cases [OF assms(1)])
      (use assms(2,3) in \<open>auto simp: same_nicks_def update_conv' delete_conv' Nick_def split: if_splits\<close>)
  show "c_nick (cl v d) = c_nick (cl w d)"
    by (rule step_cases [OF assms(1)]) (use assms(2) in \<open>auto simp: same_nicks_def\<close>)
  show "c_nick (cl v e) = c_nick (cl w e) \<or> c_nick (cl v e) \<noteq> [] \<and> to_lower E (c_nick (cl v e)) \<noteq> K"
    by (rule step_cases [OF assms(1)]) (use assms(2) in \<open>auto simp: same_nicks_def\<close>)
qed

text \<open>An invariant of the tasks and the world holds over every schedule.\<close>

lemma run_induct:
  assumes "run E is (ts, w) = Ret (ts', w')" "I ts w"
    and "\<And>i ts w u v. I ts w \<Longrightarrow> i < length ts \<Longrightarrow> task_step E (ts ! i) w = Ret (u, v) \<Longrightarrow> I (ts[i := u]) v"
  shows "I ts' w'"
  using assms(1,2)
proof (induction "is" arbitrary: ts w)
  case (Cons i "is")
  show ?case
  proof (cases "i < length ts")
    case True
    with Cons.prems obtain u v where uv: "task_step E (ts ! i) w = Ret (u, v)" "run E is (ts[i := u], v) = Ret (ts', w')"
      by (auto simp: and_then_Ret_iff)
    from Cons.IH [OF uv(2) assms(3) [OF Cons.prems(2) True uv(1)]] show ?thesis .
  qed (use Cons in simp)
qed simp

lemma bystander_run:
  assumes "run E is (ts, w) = Ret (ts', w')" "\<And>t. t \<in> set ts \<Longrightarrow> spares E w K d t" "map_of (srv_nicks w) K = Some d"
  shows "map_of (srv_nicks w') K = Some d \<and> c_nick (cl w' d) = c_nick (cl w d)"
proof -
  define I where "I us v \<longleftrightarrow> map_of (srv_nicks v) K = Some d \<and> c_nick (cl v d) = c_nick (cl w d) \<and>
    (\<forall>t \<in> set us. spares E v K d t)" for us v
  have "I ts' w'"
  proof (rule run_induct [OF assms(1)])
    show "I ts w" using assms(2,3) by (simp add: I_def)
    fix i us v t x
    assume I: "I us v" and i: "i < length us" and step: "task_step E (us ! i) v = Ret (t, x)"
    then have s: "spares E v K d (us ! i)" "map_of (srv_nicks v) K = Some d" by (simp_all add: I_def)
    note kept = bystander_step [OF step s]
    have "spares E x K d u" if "u \<in> set (us[i := t])" for u
    proof (rule spares_mono [OF _ kept(3)])
      have "u = t \<or> u \<in> set us" using that set_update_subset_insert by fastforce
      then show "spares E v K d u" using spares_next [OF step s] I by (auto simp: I_def)
    qed
    then show "I (us[i := t]) x" using kept(1,2) I by (simp add: I_def)
  qed
  then show ?thesis by (simp add: I_def)
qed

text \<open>C19: whatever JOINs, NICKs and quits of others are interleaved, and in whatever order, a client
  keeps its nick and is found by it.\<close>

theorem bystander_keeps_nick:
  assumes "\<forall>t \<in> set ts. \<exists>c s k. t = Join_get c s k \<or> c \<noteq> d \<and> t \<in> {Nick_register c s, Nick_change c s, Quit_test c s}"
    and "nick_get E w n = Some d" "run E schedule (ts, w) = Ret (ts', w')"
  shows "nick_get E w' n = Some d \<and> c_nick (cl w' d) = c_nick (cl w d)"
proof -
  have spares: "spares E w (to_lower E n) d t" if "t \<in> set ts" for t
  proof -
    from bspec [OF assms(1) that] obtain c s k where
      t: "t = Join_get c s k \<or> c \<noteq> d \<and> t \<in> {Nick_register c s, Nick_change c s, Quit_test c s}"
      by (elim exE)
    from t show ?thesis by (elim disjE conjE insertE emptyE) simp_all
  qed
  have "map_of (srv_nicks w) (to_lower E n) = Some d" using assms(2) by (simp add: nick_get_def)
  from bystander_run [OF assms(3) spares this] show ?thesis by (simp add: nick_get_def)
qed

theorem bystander_keeps_nick_witness:
  "\<exists>w ts v. handle_line list_env 0 ''NICK ann'' connected = Ret w \<and>
     run list_env [0, 1, 1, 0, 0] ([Nick_register 1 ''bob'', Quit_test 1 ''x''], w) = Ret (ts, v) \<and>
     nick_get list_env v ''ANN'' = Some 0"
proof -
  define w where "w = connected\<lparr>w_clients := (w_clients connected)(0 := new_client\<lparr>c_nick := ''ann''\<rparr>),
      srv_nicks := [(''ann'', 0)]\<rparr>"
  have w: "handle_line list_env 0 ''NICK ann'' connected = Ret w"
    using nick_line [OF parse_nick(1) names_ok(1), of connected 0] by (simp add: w_def nick_get_def)
  have upper: "to_lower list_env ''ANN'' = ''ann''" by (simp add: eval_text)
  have nicks: "nick_get list_env w ''ANN'' = Some 0" "nick_get list_env w ''bob'' = None"
    by (simp_all add: nick_get_def w_def upper)
  have "\<exists>ts v. run list_env [0, 1, 1, 0, 0] ([Nick_register 1 ''bob'', Quit_test 1 ''x''], w) = Ret (ts, v)"
    by (simp add: names_ok nicks)
  with bystander_keeps_nick [of "[Nick_register 1 ''bob'', Quit_test 1 ''x'']" 0 list_env w "''ANN''"] w nicks(1)
  show ?thesis by fastforce
qed

subsection \<open>Looking a nick up\<close>

text \<open>The client a task may rename or put into the table.\<close>

fun renames :: "task \<Rightarrow> client_id option" where
  "renames (Nick_register c n) = Some c"
| "renames (Set_nick c n) = Some c"
| "renames (Add_test c t) = Some c"
| "renames (Add_insert c t) = Some c"
| "renames (Nick_change c n) = Some c"
| "renames (Log_nick c n reply) = Some c"
| "renames (Rename c n reply) = Some c"
| "renames (Remove_test c t) = renames t"
| "renames (Remove_delete c t) = renames t"
| "renames _ = None"

definition table_sound :: "'t go_env \<Rightarrow> 't world \<Rightarrow> bool" where
  "table_sound E w \<longleftrightarrow>
     (\<forall>k c. map_of (srv_nicks w) k = Some c \<longrightarrow> c_nick (cl w c) \<noteq> [] \<and> k = to_lower E (c_nick (cl w c)))"

definition absent :: "'t world \<Rightarrow> client_id \<Rightarrow> bool" where
  "absent w c \<longleftrightarrow> (\<forall>k. map_of (srv_nicks w) k \<noteq> Some c)"

text \<open>A client about to be renamed is not in the table, one about to be put there has a nick.\<close>

fun task_ok :: "'t world \<Rightarrow> task \<Rightarrow> bool" where
  "task_ok w (Set_nick c n) \<longleftrightarrow> n \<noteq> []"
| "task_ok w (Add_test c t) \<longleftrightarrow> renames t = None \<and> task_ok w t"
| "task_ok w (Add_insert c t) \<longleftrightarrow> c_nick (cl w c) \<noteq> [] \<and> renames t = None \<and> task_ok w t"
| "task_ok w (Remove_test c t) \<longleftrightarrow> (renames t = None \<and> task_ok w t) \<or> (\<exists>n reply. t = Log_nick c n reply \<and> n \<noteq> [])"
| "task_ok w (Remove_delete c t) \<longleftrightarrow> (renames t = None \<and> task_ok w t) \<or> (\<exists>n reply. t = Log_nick c n reply \<and> n \<noteq> [])"
| "task_ok w (Log_nick c n reply) \<longleftrightarrow> n \<noteq> [] \<and> absent w c"
| "task_ok w (Rename c n reply) \<longleftrightarrow> n \<noteq> [] \<and> absent w c"
| "task_ok w _ \<longleftrightarrow> True"

lemma task_ok_idle: "renames t = None \<Longrightarrow> task_ok v t = task_ok w t"
  by (induction t) auto

lemma task_ok_mono:
  assumes "task_ok w t" "\<And>e. renames t = Some e \<Longrightarrow> c_nick (cl v e) = c_nick (cl w e) \<and> (absent w e \<longrightarrow> absent v e)"
  shows "task_ok v t"
  using assms task_ok_idle [of _ v w] by (cases t) auto

lemma sound_step:
  assumes "task_step E t w = Ret (u, v)" "task_ok w t" "table_sound E w"
  shows "table_sound E v" "renames t \<noteq> Some e \<Longrightarrow> c_nick (cl v e) = c_nick (cl w e) \<and> (absent w e \<longrightarrow> absent v e)"
proof -
  show "table_sound E v"
    by (rule step_cases [OF assms(1)])
      (use assms(2,3) in \<open>auto simp: same_nicks_def table_sound_def absent_def update_conv' delete_conv' Nick_def
         HasNick_def split: if_splits\<close>)
  show "c_nick (cl v e) = c_nick (cl w e) \<and> (absent w e \<longrightarrow> absent v e)" if "renames t \<noteq> Some e"
    by (rule step_cases [OF assms(1)])
      (use that in \<open>auto simp: same_nicks_def absent_def update_conv' delete_conv'\<close>)
qed

lemma next_ok:
  assumes "task_step E t w = Ret (u, v)" "task_ok w t" "table_sound E w"
  shows "task_ok v u \<and> (renames u = None \<or> renames u = renames t)"
proof -
  have absent: "absent w c" if "\<not> (HasNick w c \<and> nick_get E w (c_nick (cl w c)) = Some c)" for c
    using that assms(3) by (auto simp: absent_def table_sound_def HasNick_def nick_get_def)
  show ?thesis
  proof (cases t)
    case (Remove_test c s)
    with assms show ?thesis using absent [of c] task_ok_idle [of s v w] by (auto split: if_splits)
  next
    case (Remove_delete c s)
    have "absent v c"
      using assms(1,3) Remove_delete by (auto simp: absent_def table_sound_def delete_conv' split: if_splits)
    with Remove_delete assms show ?thesis using task_ok_idle [of s v w] by auto
  next
    case (Add_insert c s)
    with assms show ?thesis using task_ok_idle [of s v w] by auto
  next
    case (Log_nick c n reply)
    with assms have "append_whowas c w = Ret v" "u = Rename c n reply" by (auto simp: and_then_Ret_iff)
    then show ?thesis using assms(2) Log_nick same_nicks_whowas [of c w v] by (simp add: same_nicks_def absent_def)
  qed (use assms in \<open>auto simp: and_then_Ret_iff HasNick_def split: if_splits option.splits prod.splits\<close>)
qed

lemma sound_run:
  assumes "run E is (ts, w) = Ret (ts', w')" "table_sound E w" "\<And>t. t \<in> set ts \<Longrightarrow> task_ok w t"
    and "\<forall>i < length ts. \<forall>j < length ts. i \<noteq> j \<and> renames (ts ! i) \<noteq> None \<longrightarrow> renames (ts ! i) \<noteq> renames (ts ! j)"
  shows "table_sound E w'"
proof -
  define I where "I us v \<longleftrightarrow> table_sound E v \<and> (\<forall>i < length us. task_ok v (us ! i)) \<and>
    (\<forall>i < length us. \<forall>j < length us. i \<noteq> j \<and> renames (us ! i) \<noteq> None \<longrightarrow> renames (us ! i) \<noteq> renames (us ! j))" for us v
  have "I ts' w'"
  proof (rule run_induct [OF assms(1)])
    show "I ts w" unfolding I_def using assms(2-4) by auto
    fix i us v t x
    assume I: "I us v" and i: "i < length us" and step: "task_step E (us ! i) v = Ret (t, x)"
    have ok: "task_ok v (us ! i)" "table_sound E v" using I i by (simp_all add: I_def)
    note sound = sound_step [OF step ok] and nxt = next_ok [OF step ok]
    have apart: "renames (us ! a) \<noteq> renames (us ! b)"
      if "a < length us" "b < length us" "a \<noteq> b" "renames (us ! a) \<noteq> None" for a b
      using I that unfolding I_def by blast
    have "task_ok x (us[i := t] ! j)" if j: "j < length us" for j
    proof (cases "j = i")
      case False
      have "task_ok x (us ! j)"
      proof (rule task_ok_mono)
        show "task_ok v (us ! j)" using I j by (simp add: I_def)
        show "c_nick (cl x e) = c_nick (cl v e) \<and> (absent v e \<longrightarrow> absent x e)" if "renames (us ! j) = Some e" for e
          by (rule sound(2)) (use apart [OF j i False] that in simp)
      qed
      with False show ?thesis by simp
    qed (use nxt i in simp)
    moreover have "renames (us[i := t] ! j) \<noteq> renames (us[i := t] ! k)"
      if "j < length us" "k < length us" "j \<noteq> k" "renames (us[i := t] ! j) \<noteq> None" for j k
      using that nxt apart [of j k] apart [of j i] i by (auto simp: nth_list_update split: if_splits)
    ultimately show "I (us[i := t]) x" using sound(1) by (simp add: I_def)
  qed
  then show ?thesis by (simp add: I_def)
qed

lemma table_sound_reachable:
  assumes "go_env_laws E" "reachable E w"
  shows "table_sound E w"
proof -
  have "nick_inv E w" using go_env_laws.reachable_inv [OF assms] by (simp add: inv_def)
  then show ?thesis by (auto simp: table_sound_def nick_inv_def dest: map_of_SomeD)
qed

text \<open>C20: from a reachable state on, whatever schedule commands and quits follow, as long as a client
  has at most one NICK in progress: who is found under a nick has this nick, up to case.\<close>

theorem lookup_sound:
  assumes "go_env_laws E" "reachable E w"
    and "\<forall>t \<in> set ts. \<exists>c s k. t \<in> {Nick_register c s, Nick_change c s, Quit_test c s, Join_get c s k}"
    and "\<forall>i < length ts. \<forall>j < length ts. i \<noteq> j \<and> renames (ts ! i) \<noteq> None \<longrightarrow> renames (ts ! i) \<noteq> renames (ts ! j)"
    and "run E schedule (ts, w) = Ret (ts', w')" "nick_get E w' n = Some c"
  shows "c_nick (cl w' c) \<noteq> [] \<and> to_lower E n = to_lower E (c_nick (cl w' c))"
proof -
  have ok: "task_ok w t" if "t \<in> set ts" for t
  proof -
    from bspec [OF assms(3) that] obtain c s k where "t \<in> {Nick_register c s, Nick_change c s, Quit_test c s, Join_get c s k}"
      by (elim exE)
    then show ?thesis by (elim insertE emptyE) simp_all
  qed
  from sound_run [OF assms(5) table_sound_reachable [OF assms(1,2)] ok assms(4)] assms(6)
  show ?thesis by (simp add: table_sound_def nick_get_def)
qed

section \<open>What a schedule can do\<close>

lemma alive_register: "alive (tryRegister E c w) d = alive w d"
proof -
  have "alive (Register E c w) d = alive w d"
    by (simp add: Register_def Touch_def set_mode_def alive_def)
  moreover have "core (tryRegister E c w) = core w \<or> core (tryRegister E c w) = core (Register E c w)"
    by (simp add: tryRegister_def core_simps)
  ultimately show ?thesis using alive_core [of "tryRegister E c w"] by blast
qed

lemma nick_race_law:
  assumes "go_env_laws E" "alive w c" "alive w d" "c \<noteq> d" "c_authorized (cl w c)" "c_authorized (cl w d)"
    and "c_nick (cl w c) = []" "c_nick (cl w d) = []" "n \<noteq> []" "IsNickname E n = Some True" "nick_get E w n = None"
  shows "\<exists>v. run E [0, 1, 0, 1, 0, 1, 0, 1, 0, 1] ([Nick_register c n, Nick_register d n], w) = Ret ([Over, Over], v) \<and>
    alive v c \<and> alive v d \<and> c_nick (cl v c) = n \<and> c_nick (cl v d) = n \<and> nick_get E v n = Some d \<and>
    \<not> reachable E v"
proof -
  let ?nick = "\<lambda>r. r\<lparr>c_nick := n\<rparr>" and ?k = "to_lower E n"
  define w2 where "w2 = upd_client d ?nick (upd_client c ?nick w)"
  define w4 where "w4 = w2\<lparr>srv_nicks := AList.update ?k d (AList.update ?k c (srv_nicks w2))\<rparr>"
  define v where "v = tryRegister E d (tryRegister E c w4)"
  have w2: "c_nick (cl w2 c) = n" "c_nick (cl w2 d) = n" "srv_nicks w2 = srv_nicks w" by (simp_all add: w2_def)
  have get: "nick_get E w2 n = None" using assms(11) by (simp add: nick_get_def w2)
  have "run E [0, 1, 0, 1] ([Nick_register c n, Nick_register d n], w) =
      Ret ([Add_test c (Try_register c), Add_test d (Try_register d)], w2)"
    using assms(4-11) by (simp add: w2_def)
  moreover have "run E [0, 1, 0, 1] ([Add_test c (Try_register c), Add_test d (Try_register d)], w2) =
      Ret ([Try_register c, Try_register d], w4)"
    using assms(9) by (simp add: HasNick_def Nick_def w2 get w4_def)
  ultimately have "run E ([0, 1, 0, 1] @ [0, 1, 0, 1] @ [0, 1]) ([Nick_register c n, Nick_register d n], w) = Ret ([Over, Over], v)"
    unfolding run_append by (simp add: v_def del: run.simps(2)) simp
  moreover have same: "same_nicks w4 v"
    using same_nicks_trans [OF same_nicks_register same_nicks_register] by (simp add: v_def)
  then have v: "c_nick (cl v c) = n" "c_nick (cl v d) = n" "nick_get E v n = Some d"
    by (simp_all add: same_nicks_def w4_def w2 nick_get_def update_conv')
  moreover have alive: "alive v e = alive w e" for e
    unfolding v_def alive_register by (simp add: w4_def w2_def alive_def)
  moreover have "\<not> reachable E v"
  proof
    assume "reachable E v"
    then have "nick_inv E v" using go_env_laws.reachable_inv [OF assms(1)] by (simp add: inv_def)
    from nick_inv_get [OF this, of n c] v assms(2,4,9) alive show False by simp
  qed
  ultimately show ?thesis using assms(2,3) by simp
qed

text \<open>C21: two clients that ask for the same free nick at the same time both get it: when they take turns
  in registering it, the second entry replaces the first, and one of two connected clients with this
  nick cannot be reached any more. No server that runs one command after the other gets there.\<close>

theorem nick_race:
  assumes "go_env_laws E" "alive w c" "alive w d" "c \<noteq> d" "c_authorized (cl w c)" "c_authorized (cl w d)"
    and "c_nick (cl w c) = []" "c_nick (cl w d) = []" "n \<noteq> []" "IsNickname E n = Some True" "nick_get E w n = None"
  shows "\<exists>v. run E [0, 1, 0, 1, 0, 1, 0, 1, 0, 1] ([Nick_register c n, Nick_register d n], w) = Ret ([Over, Over], v) \<and>
    alive v c \<and> alive v d \<and> c_nick (cl v c) = n \<and> c_nick (cl v d) = n \<and> nick_get E v n = Some d \<and>
    \<not> reachable E v"
  by (rule nick_race_law [OF assms])

subsection \<open>Two channels of one name\<close>

lemma admits_cong:
  assumes "chn u ch = chn w ch" "c_modes (cl u c) = c_modes (cl w c)" "UserHost u c False = UserHost w c False"
  shows "admits E u ch c key = admits E w ch c key"
  unfolding admits_def ClientIsOperator_def IsFull_def assms ..

context go_env_laws begin

lemma join_race_law:
  assumes "IsChannel E n" "get_channel E w n = None" "c \<noteq> d"
  shows "\<exists>v. run E [0, 1, 0, 1, 0, 1] ([Join_get c n key, Join_get d n key'], w) = Ret ([Over, Over], v) \<and>
    (\<exists>ch1 ch2. ch1 \<noteq> ch2 \<and> chan_str v ch1 = n \<and> chan_str v ch2 = n \<and>
      (\<forall>e. is_member E v ch1 e \<longleftrightarrow> e = c) \<and> (\<forall>e. is_member E v ch2 e \<longleftrightarrow> e = d) \<and>
      member_mode E v ch1 c ChannelOperator \<and> member_mode E v ch2 d ChannelOperator) \<and>
    \<not> reachable E v"
proof -
  define w1 where "w1 = snd (NewChannel E n True w)"
  define w2 where "w2 = snd (NewChannel E n True w1)"
  define ch1 where "ch1 = w_next_chan w"
  define ch2 where "ch2 = w_next_chan w1"
  define v1 where "v1 = channel_Join E ch1 c key w2"
  define v where "v = channel_Join E ch2 d key' v1"
  have n1: "NewChannel E n True w = (ch1, w1)" and n2: "NewChannel E n True w1 = (ch2, w2)"
    by (simp_all add: w1_def w2_def ch1_def ch2_def NewChannel_def Let_def)
  have ne: "ch1 \<noteq> ch2" and next_chan: "w_next_chan w2 = Suc ch2"
    by (simp_all add: ch1_def ch2_def w1_def w2_def NewChannel_def Let_def)
  have keep: "w_clients w2 = w_clients w" "w_clients w1 = w_clients w" "chn w2 ch1 = chn w1 ch1"
    using ne by (simp_all add: w1_def w2_def ch1_def ch2_def NewChannel_def Let_def)
  have names: "chan_str w2 ch1 = n" "chan_str w2 ch2 = n"
    unfolding keep(3) by (simp_all add: w1_def w2_def ch1_def ch2_def NewChannel_def Let_def)
  have empty: "\<not> is_member E w2 ch1 e" "\<not> is_member E w2 ch2 e" for e
    using NewChannel_admits(2) [OF n1, of e] NewChannel_admits(2) [OF n2, of e] by (simp_all add: keep(3))
  have host: "UserHost w2 e b = UserHost w1 e b" for e b by (simp add: UserHost_def keep)
  have "admits E w2 ch1 c key"
    using NewChannel_admits(1) [OF n1] by (subst admits_cong [of _ _ w1]) (simp_all add: keep host)
  then have v1: "core v1 = core (joined E ch1 c w2)" using empty(1) by (simp add: v1_def core_Join)
  have at2: "chn v1 ch2 = chn w2 ch2" using core_chans [OF v1] ne by simp
  have "UserHost v1 d b = UserHost w2 d b" "c_modes (cl v1 d) = c_modes (cl w2 d)" for b
    using core_clients [OF v1] by (simp_all add: UserHost_def)
  then have "admits E v1 ch2 d key'"
    using NewChannel_admits(1) [OF n2] by (subst admits_cong [of _ _ w2]) (simp_all add: at2)
  moreover have "\<not> is_member E v1 ch2 d" using empty(2) at2 by simp
  ultimately have v: "core v = core (joined E ch2 d v1)" by (simp add: v_def core_Join)
  have members: "is_member E v ch1 e \<longleftrightarrow> e = c" "is_member E v ch2 e \<longleftrightarrow> e = d" for e
    using core_chans [OF v] core_chans [OF v1] ne empty joined_member [of w2 ch1 c] joined_member [of v1 ch2 d] at2
    by simp_all
  have modes: "member_mode E v ch1 c ChannelOperator" "member_mode E v ch2 d ChannelOperator"
    using core_chans [OF v] core_chans [OF v1] ne empty joined_mode [of w2 ch1 c] joined_mode [of v1 ch2 d] at2
    by simp_all
  have chans: "chan_str v ch1 = n" "chan_str v ch2 = n" "w_next_chan v = Suc ch2"
    using core_chans [OF v] core_chans [OF v1] core_fields(3) [OF v] core_fields(3) [OF v1] names
    by (simp_all add: joined_name next_chan)
  have less: "ch1 < Suc ch2" by (simp add: ch1_def ch2_def w1_def NewChannel_def Let_def)
  have run: "run E [0, 1, 0, 1, 0, 1] ([Join_get c n key, Join_get d n key'], w) = Ret ([Over, Over], v)"
    using assms(1,2) by (simp add: n1 n2 v_def v1_def)
  have "\<not> reachable E v"
  proof
    assume "reachable E v"
    then have "chan_inv E {} v" using reachable_inv by (simp add: inv_def)
    then have "get_channel E v n = Some ch1" "get_channel E v n = Some ch2"
      using chan_inv_member [of E "{}" v ch1 c] chan_inv_member [of E "{}" v ch2 d] chans members less
      by auto
    then show False using ne by simp
  qed
  with run chans members modes ne show ?thesis by blast
qed

end

text \<open>C22: two clients that join a channel that does not exist yet, at the same time, each make one: there
  are then two channels of this name, each client is alone in its own and is its operator, whatever
  keys they gave. No server that runs one command after the other gets there.\<close>

theorem join_race:
  assumes "go_env_laws E" "IsChannel E n" "get_channel E w n = None" "c \<noteq> d"
  shows "\<exists>v. run E [0, 1, 0, 1, 0, 1] ([Join_get c n key, Join_get d n key'], w) = Ret ([Over, Over], v) \<and>
    (\<exists>ch1 ch2. ch1 \<noteq> ch2 \<and> chan_str v ch1 = n \<and> chan_str v ch2 = n \<and>
      (\<forall>e. is_member E v ch1 e \<longleftrightarrow> e = c) \<and> (\<forall>e. is_member E v ch2 e \<longleftrightarrow> e = d) \<and>
      member_mode E v ch1 c ChannelOperator \<and> member_mode E v ch2 d ChannelOperator) \<and>
    \<not> reachable E v"
  by (rule go_env_laws.join_race_law [OF assms])

lemma connected_inputs:
  "alive connected 0" "alive connected 1" "c_authorized (cl connected c)" "c_nick (cl connected c) = []"
  "whowas_free (srv_whoWas connected)" "nick_get list_env connected n = None"
  "(0::nat) \<noteq> 1" "''bob'' \<noteq> []"
  by (simp_all add: alive_def new_client_def fresh_client_def whowas_free_def NewWhoWasList_def nick_get_def)

theorem lookup_sound_witness:
  "\<exists>ts v. run list_env [0, 1, 0, 1, 0, 1, 0, 1, 0, 1] ([Nick_register 0 ''bob'', Nick_register 1 ''bob''], connected) = Ret (ts, v) \<and>
     nick_get list_env v ''bob'' = Some 1 \<and> to_lower list_env ''bob'' = to_lower list_env (c_nick (cl v 1))"
proof -
  note race = nick_race_law [OF list_env.go_env_laws_axioms connected_inputs(1,2,7,3,3,4,4,8)
      names_ok(2) connected_inputs(6)]
  obtain ts v where r: "run list_env [0, 1, 0, 1, 0, 1, 0, 1, 0, 1] ([Nick_register 0 ''bob'', Nick_register 1 ''bob''], connected) = Ret (ts, v)"
    "nick_get list_env v ''bob'' = Some 1"
    using race by blast
  have ts: "\<forall>t \<in> set [Nick_register 0 ''bob'', Nick_register 1 ''bob'']. \<exists>c s k. t \<in> {Nick_register c s, Nick_change c s, Quit_test c s, Join_get c s k}"
    by auto
  have apart: "\<forall>i < length us. \<forall>j < length us. i \<noteq> j \<and> renames (us ! i) \<noteq> None \<longrightarrow> renames (us ! i) \<noteq> renames (us ! j)"
    if "us = [Nick_register 0 s, Nick_register 1 s]" for us s
    using that by (auto simp: less_Suc_eq)
  from lookup_sound [OF list_env.go_env_laws_axioms reachable_connected ts apart [OF refl] r] r show ?thesis by blast
qed

theorem nick_race_witness:
  "\<exists>v. run list_env [0, 1, 0, 1, 0, 1, 0, 1, 0, 1] ([Nick_register 0 ''bob'', Nick_register 1 ''bob''], connected) =
     Ret ([Over, Over], v) \<and> c_nick (cl v 0) = ''bob'' \<and> c_nick (cl v 1) = ''bob'' \<and> nick_get list_env v ''bob'' = Some 1"
proof -
  note race = nick_race [OF list_env.go_env_laws_axioms connected_inputs(1,2,7,3,3,4,4,8)
      names_ok(2) connected_inputs(6)]
  from race show ?thesis by blast
qed

theorem join_race_witness:
  "\<exists>v. run list_env [0, 1, 0, 1, 0, 1] ([Join_get 0 ''#c'' [], Join_get 1 ''#c'' ''key''], connected) = Ret ([Over, Over], v) \<and>
     (\<exists>ch1 ch2. ch1 \<noteq> ch2 \<and> is_member list_env v ch1 0 \<and> is_member list_env v ch2 1)"
proof -
  have "get_channel list_env connected ''#c'' = None" by (simp add: get_channel_def)
  from join_race [OF list_env.go_env_laws_axioms names_ok(3) this connected_inputs(7), of "[]" "''key''"]
  show ?thesis by blast
qed

subsection \<open>Quitting twice\<close>

lemma append_free:
  assumes "log_ok w"
  shows "on_ret (\<lambda>v. log_ok v \<and> whowas_free (srv_whoWas v) \<and> w_clients v = w_clients w) (append_whowas c w)"
  unfolding on_ret_iff
proof (intro allI impI)
  fix v assume "append_whowas c w = Ret v"
  then obtain l e where l: "whowas_append (srv_whoWas w) e = Ret l" "v = w\<lparr>srv_whoWas := l\<rparr>"
    by (auto simp: append_whowas_def and_then_Ret_iff)
  moreover have "whowas_wf (srv_whoWas w)" using assms by (simp add: log_in_def)
  ultimately show "log_ok v \<and> whowas_free (srv_whoWas v) \<and> w_clients v = w_clients w"
    using whowas_log.append_keeps [of "srv_whoWas w" e l] by (simp add: log_in_def)
qed

lemma destroy_closes:
  "on_ret (\<lambda>v. log_ok v = log_ok w \<and> srv_whoWas v = srv_whoWas w \<and> c_replies_closed (cl v c)) (destroy E c w)"
proof -
  have "srv_whoWas (fold (\<lambda>ch. channel_Quit E ch c) chs w) = srv_whoWas w" for chs and w :: "'a world"
    by (induction chs arbitrary: w) simp_all
  then show ?thesis by (auto simp: destroy_def Let_def log_in_def)
qed

lemma quit_rest_closes:
  assumes "log_ok w"
  shows "on_ret (\<lambda>v. log_ok v \<and> whowas_free (srv_whoWas v) \<and> c_replies_closed (cl v c)) (quit_rest E c msg w)"
proof -
  have "log_ok (Reply c (RplError ''quit'') w)" using assms by (simp add: log_simps)
  from append_free [OF this] have "on_ret (\<lambda>v. log_ok v \<and> whowas_free (srv_whoWas v)) (append_whowas c (Reply c (RplError ''quit'') w))"
    by (rule on_ret_mono) simp
  then show ?thesis unfolding quit_rest_def
    by (rule on_ret_and_then, intro on_ret_and_then [OF destroy_closes]) (auto simp: log_simps)
qed

lemma quit_rest_returns:
  assumes "log_ok w" "whowas_free (srv_whoWas w)" "\<not> c_replies_closed (cl w c)"
  shows "\<exists>v. quit_rest E c msg w = Ret v"
proof -
  obtain v where v: "append_whowas c (Reply c (RplError ''quit'') w) = Ret v" "\<not> c_replies_closed (cl v c)"
    using append_returns [of "Reply c (RplError ''quit'') w" c] assms by (auto simp: returns_iff log_simps)
  from returns_destroy [OF v(2), of E] obtain u where "destroy E c v = Ret u" by (auto simp: returns_iff)
  with v(1) show ?thesis by (simp add: quit_rest_def)
qed

lemma quit_rest_panics:
  assumes "log_ok w" "whowas_free (srv_whoWas w)" "c_replies_closed (cl w c)"
  shows "quit_rest E c msg w = Panic"
proof -
  obtain v where v: "append_whowas c (Reply c (RplError ''quit'') w) = Ret v" "c_replies_closed (cl v c)"
    using append_returns [of "Reply c (RplError ''quit'') w" c] assms by (auto simp: returns_iff log_simps)
  have "destroy E c v = Panic" using v(2) by (simp add: destroy_def Let_def)
  with v(1) show ?thesis by (simp add: quit_rest_def)
qed

text \<open>C23: two goroutines that end the same client at the same time (its read loop and its timer, or a
  KILL) both pass the test that it has not quit, and the second closes its reply channel again: the
  process panics, in every reachable state where departures can be logged.\<close>

theorem quit_race:
  assumes "go_env_laws E" "reachable E w" "alive w c" "whowas_free (srv_whoWas w)"
  shows "run E ([0, 1] @ replicate 7 0 @ replicate 7 1) ([Quit_test c msg, Quit_test c msg'], w) = Panic"
proof -
  let ?quit = "upd_client c (\<lambda>r. r\<lparr>c_hasQuit := True\<rparr>)"
  have "client_ok E (\<lambda>_. UNIV) c (cl w c)"
    using go_env_laws.reachable_inv [OF assms(1,2)] assms(3) by (simp add: inv_def alive_def)
  then have open_: "\<not> c_hasQuit (cl w c)" "\<not> c_replies_closed (cl w c)"
    using assms(3) by (auto simp: client_ok_def alive_def)
  have ends: "ends E 7 (Quit_set c m) v (quit_rest E c m (?quit v))" for m and v
    using ends_step [OF task_step.simps(13) ends_quit_rest] by simp
  have log: "log_ok (?quit w)" "whowas_free (srv_whoWas (?quit w))"
    using log_reachable [OF assms(2)] assms(4) by (simp_all add: log_simps)
  obtain v where v: "quit_rest E c msg (?quit w) = Ret v"
    using quit_rest_returns [OF log, of c E msg] open_(2) by auto
  have "log_ok v \<and> whowas_free (srv_whoWas v) \<and> c_replies_closed (cl v c)"
    using quit_rest_closes [OF log(1), of c E msg] v by simp
  then have second: "quit_rest E c msg' (?quit v) = Panic" by (intro quit_rest_panics) (simp_all add: log_simps)
  have "run E [0, 1] ([Quit_test c msg, Quit_test c msg'], w) = Ret ([Quit_set c msg, Quit_set c msg'], w)"
    using open_(1) by simp
  moreover have "run E (replicate 7 0) ([Quit_set c msg, Quit_set c msg'], w) = Ret ([Over, Quit_set c msg'], v)"
    using run_ends [OF ends, of 0 "[Quit_set c msg, Quit_set c msg']"] v by simp
  moreover have "run E (replicate 7 1) ([Over, Quit_set c msg'], v) = Panic"
    using run_ends [OF ends, of 1 "[Over, Quit_set c msg']"] second by simp
  ultimately show ?thesis unfolding run_append by simp
qed

theorem quit_race_witness:
  "run list_env ([0, 1] @ replicate 7 0 @ replicate 7 1) ([Quit_test 0 ''timeout'', Quit_test 0 ''bye''], connected) = Panic"
  by (rule quit_race [OF list_env.go_env_laws_axioms reachable_connected connected_inputs(1,5)])

end
