(* ===== verification/Privacy.thy ===== *)
theory Privacy
  imports Reachable
begin

text \<open>
  Who learns of a channel: LIST, which asks \<open>CanSeeChannel\<close> (src/internal/privacy.go), and WHO, which
  does not (src/internal/server.go). LIST answers a client in two worlds that look the same to it
  with the same lines; WHO answers anybody with every member.
\<close>

section \<open>Answers as lines\<close>

lemma fold_replies:
  assumes "\<And>x u. core u = core w \<Longrightarrow> f x u = (if P x then Reply c (g x) u else u)" "core v = core w"
  shows "core (fold f xs v) = core w \<and>
    w_out (fold f xs v) = w_out v @ (if c_hasQuit (cl w c) then [] else map (\<lambda>x. (c, g x)) (filter P xs))"
  using assms(2)
proof (induction xs arbitrary: v)
  case (Cons x xs)
  have "w_clients v = w_clients w" using core_fields(1) [OF Cons.prems] .
  then have "core (f x v) = core w" "w_out (f x v) = w_out v @ (if c_hasQuit (cl w c) \<or> \<not> P x then [] else [(c, g x)])"
    using assms(1) [OF Cons.prems, of x] Cons.prems by (simp_all add: core_simps Reply_def)
  with Cons.IH [OF this(1)] show ?case by simp
qed simp

definition visible_channel :: "'t go_env \<Rightarrow> 't world \<Rightarrow> client_id \<Rightarrow> string \<Rightarrow> channel_id option" where
  "visible_channel E w c name =
     (case get_channel E w name of
        None \<Rightarrow> None
      | Some ch \<Rightarrow> if CanSeeChannel E w c ch then Some ch else None)"

definition list_line :: "'t go_env \<Rightarrow> 't world \<Rightarrow> client_id \<Rightarrow> channel_id \<Rightarrow> string" where
  "list_line E w c ch = NewNumericReply w c RPL_LIST ''%s %d :%s''
     [chan_str w ch, format_nat (mem_count (members_ops E) (ch_members (chn w ch))), ch_topic (chn w ch)]"

text \<open>The lines of LIST; a channel that the client cannot see is answered like one that does not exist.\<close>

definition list_lines :: "'t go_env \<Rightarrow> 't world \<Rightarrow> client_id \<Rightarrow> string list \<Rightarrow> string \<Rightarrow> string list" where
  "list_lines E w c channels target =
     (if target \<noteq> [] then [NewNumericReply w c ERR_NOSUCHSERVER ''%s :No such server'' [target]]
      else (if channels = [] then map (list_line E w c) (filter (CanSeeChannel E w c) (all_channels E w))
            else map (\<lambda>name. case visible_channel E w c name of
                    None \<Rightarrow> NewNumericReply w c ERR_NOSUCHCHANNEL ''%s :No such channel'' [name]
                  | Some ch \<Rightarrow> list_line E w c ch) channels)
           @ [NewNumericReply w c RPL_LISTEND '':End of LIST'' []])"

lemma core_reads:
  assumes "core u = core w"
  shows "CanSeeChannel E u c ch = CanSeeChannel E w c ch" "list_line E u c ch = list_line E w c ch"
    "get_channel E u name = get_channel E w name" "NewNumericReply u c n fmt args = NewNumericReply w c n fmt args"
  using core_fields [OF assms]
  by (simp_all add: CanSeeChannel_def list_line_def get_channel_def NewNumericReply_def Nick_def HasNick_def)

lemma RplList_line: "RplList E c ch w = Reply c (list_line E w c ch) w"
  by (simp add: RplList_def NumericReply_def list_line_def)

lemma list_answers:
  "w_out (HandleServer_List E c channels target w) =
     w_out w @ (if c_hasQuit (cl w c) then [] else map (\<lambda>l. (c, l)) (list_lines E w c channels target))"
proof -
  have last: "w_out (RplListEnd c u) =
      w_out u @ (if c_hasQuit (cl w c) then [] else [(c, NewNumericReply w c RPL_LISTEND '':End of LIST'' [])])"
    if "core u = core w" for u
    using core_fields(1) [OF that] core_reads(4) [OF that]
    by (simp add: RplListEnd_def NumericReply_def Reply_def)
  define ask where "ask name = (\<lambda>u. case get_channel E u name of
      None \<Rightarrow> ErrNoSuchChannel c name u
    | Some ch \<Rightarrow> if \<not> CanSeeChannel E u c ch then ErrNoSuchChannel c name u else RplList E c ch u)" for name
  define answer where "answer name = (case visible_channel E w c name of
      None \<Rightarrow> NewNumericReply w c ERR_NOSUCHCHANNEL ''%s :No such channel'' [name] | Some ch \<Rightarrow> list_line E w c ch)" for name
  have step: "(if CanSeeChannel E u c ch then RplList E c ch u else u) =
      (if CanSeeChannel E w c ch then Reply c (list_line E w c ch) u else u)" if "core u = core w" for ch u
    by (simp add: RplList_line core_reads(1,2) [OF that])
  have ask: "ask name u = (if True then Reply c (answer name) u else u)" if "core u = core w" for name u
    by (simp add: ask_def answer_def visible_channel_def RplList_line ErrNoSuchChannel_def NumericReply_def
        core_reads [OF that] split: option.split)
  note all = fold_replies [of w "\<lambda>ch u. if CanSeeChannel E u c ch then RplList E c ch u else u", OF step refl]
  note some = fold_replies [of w ask, OF ask refl]
  show ?thesis
  proof (cases "target = []")
    case True
    show ?thesis
    proof (cases "channels = []")
      case True
      with \<open>target = []\<close> show ?thesis
        using last [OF all [THEN conjunct1]] all [THEN conjunct2]
        by (simp add: HandleServer_List_def list_lines_def comp_def)
    next
      case False
      with \<open>target = []\<close> show ?thesis
        using last [OF some [THEN conjunct1]] some [THEN conjunct2]
        by (simp add: HandleServer_List_def list_lines_def comp_def ask_def [abs_def] answer_def [abs_def])
    qed
  next
    case False
    then show ?thesis
      by (simp add: HandleServer_List_def list_lines_def ErrNoSuchServer_def NumericReply_def Reply_def)
  qed
qed

text \<open>C30: LIST tells a client nothing about a channel it cannot see, not even that it exists: in two
  worlds where it finds the same visible channels, and these are the same, the answers are the same.\<close>

theorem list_hides:
  assumes "cl v c = cl w c" "srv_name v = srv_name w"
    and "\<forall>name. visible_channel E v c name = visible_channel E w c name"
    and "filter (CanSeeChannel E v c) (all_channels E v) = filter (CanSeeChannel E w c) (all_channels E w)"
    and "\<forall>ch. CanSeeChannel E w c ch \<longrightarrow> chn v ch = chn w ch"
  shows "\<exists>answers. w_out (HandleServer_List E c channels target w) = w_out w @ answers \<and>
    w_out (HandleServer_List E c channels target v) = w_out v @ answers"
proof -
  have num: "NewNumericReply v c n fmt args = NewNumericReply w c n fmt args" for n fmt args
    by (simp add: NewNumericReply_def Nick_def HasNick_def assms(1,2))
  have line: "list_line E v c ch = list_line E w c ch" if "CanSeeChannel E w c ch" for ch
    using assms(5) that by (simp add: list_line_def num)
  have all: "map (list_line E v c) (filter (CanSeeChannel E w c) chs) = map (list_line E w c) (filter (CanSeeChannel E w c) chs)" for chs
    by (simp add: line)
  have one: "(case visible_channel E w c name of None \<Rightarrow> s | Some ch \<Rightarrow> list_line E v c ch) =
      (case visible_channel E w c name of None \<Rightarrow> s | Some ch \<Rightarrow> list_line E w c ch)" for name s
    by (auto simp: visible_channel_def line split: option.split)
  have "list_lines E v c channels target = list_lines E w c channels target"
    unfolding list_lines_def assms(4) assms(3) [rule_format] all one num ..
  then show ?thesis by (simp add: list_answers assms(1))
qed

text \<open>A secret channel \<open>#s\<close> of the first client, for the second one.\<close>

definition secret_channel :: "rep world" where
  "secret_channel = two_clients\<lparr>w_next_chan := 1, srv_channels := RNames [(''#s'', 0)],
     w_chans := (\<lambda>ch. if ch = 0 then blank_channel\<lparr>ch_name := ''#s'', ch_topic := ''plans'', ch_flags := RSet [Secret],
       ch_members := RMem [(1, RSet [])]\<rparr> else blank_channel)\<rparr>"

lemma secret_channel_hidden:
  "get_channel list_env secret_channel n = (if n = ''#s'' then Some 0 else None)"
  "\<not> CanSeeChannel list_env secret_channel 2 0" "all_channels list_env secret_channel = [0]"
  by (simp_all add: get_channel_def all_channels_def secret_channel_def CanSeeChannel_def chan_mode_defs user_mode_defs
      bob_def fresh_client_def)

theorem list_hides_witness:
  "\<exists>answers. w_out (HandleServer_List list_env 2 [''#s''] [] secret_channel) = answers \<and>
    w_out (HandleServer_List list_env 2 [''#s''] [] two_clients) = answers \<and> length answers = 2"
proof -
  have none: "get_channel list_env two_clients n = None" "all_channels list_env two_clients = []" for n
    by (simp_all add: get_channel_def all_channels_def)
  have same: "cl secret_channel 2 = cl two_clients 2" "srv_name secret_channel = srv_name two_clients"
    "w_out secret_channel = []"
    by (simp_all add: secret_channel_def)
  have "chn secret_channel ch = chn two_clients ch" if "ch \<noteq> 0" for ch
    using that by (simp add: secret_channel_def)
  then have chans: "chn two_clients ch = chn secret_channel ch" if "CanSeeChannel list_env secret_channel 2 ch" for ch
    using that secret_channel_hidden(2) by (cases "ch = 0") auto
  have "\<exists>answers. w_out (HandleServer_List list_env 2 [''#s''] [] secret_channel) = w_out secret_channel @ answers \<and>
      w_out (HandleServer_List list_env 2 [''#s''] [] two_clients) = w_out two_clients @ answers"
    by (rule list_hides)
      (use same chans in \<open>simp_all add: visible_channel_def secret_channel_hidden none\<close>)
  moreover have "length (w_out (HandleServer_List list_env 2 [''#s''] [] two_clients)) = 2"
    by (simp add: list_answers list_lines_def bob_def fresh_client_def)
  ultimately show ?thesis using same(3) by simp
qed

section \<open>WHO\<close>

text \<open>C31: WHO on a channel answers a line for every member, whoever asks: the guard of \<open>whoChannel\<close> asks
  for the modes of the client that asks and whether it is a friend of itself, so neither an invisible
  member nor a secret channel is kept from anybody.\<close>

theorem who_shows_everybody:
  assumes "go_env_laws E" "IsChannel E name" "name \<noteq> []" "get_channel E w name = Some ch" "\<not> c_hasQuit (cl w c)"
  shows "\<exists>answer. w_out (HandleServer_Who E c name w) =
      w_out w @ map (\<lambda>m. (c, answer m)) (members E w ch) @ [(c, NewNumericReply w c RPL_ENDOFWHO ''%s :End of WHO list'' [name])] \<and>
    (\<forall>m. w_out (RplWhoReply E c (Some ch) m w) = w_out w @ [(c, answer m)])"
proof -
  define answer where "answer m = NewNumericReply w c RPL_WHOREPLY ''%s %s %s %s %s %s :%d %s''
       [chan_str w ch, c_username (cl w m), visible_host E w c m, srv_name w, Nick w m, who_flags E c (Some ch) m w,
        format_nat (c_hops (cl w m)), c_realname (cl w m)]" for m
  have friend: "set_has (client_sets E) (Friends E w c) c" by (simp add: go_env_laws.Friends_has [OF assms(1)])
  have reply: "RplWhoReply E c (Some ch) m u = Reply c (answer m) u" if "core u = core w" for m u
  proof -
    have same: "w_clients u = w_clients w" "w_chans u = w_chans w" "srv_name u = srv_name w"
      using core_fields [OF that] by blast+
    then have "visible_host E u c m = visible_host E w c m" "who_flags E c (Some ch) m u = who_flags E c (Some ch) m w"
      "Nick u m = Nick w m"
      by (simp_all add: visible_host_def who_flags_def Nick_def HasNick_def)
    then show ?thesis
      unfolding RplWhoReply_def NumericReply_def answer_def core_reads(4) [OF that] option.case same by simp
  qed
  define f where "f m u = (if \<not> has_mode E w c Invisible \<or> set_has (client_sets E) (Friends E w c) c
      then RplWhoReply E c (Some ch) m u else u)" for m u
  have step: "f m u = (if True then Reply c (answer m) u else u)" if "core u = core w" for m u
    by (simp add: f_def friend reply [OF that])
  define u where "u = fold f (members E w ch) w"
  have u: "core u = core w" "w_out u = w_out w @ map (\<lambda>m. (c, answer m)) (members E w ch)"
    using fold_replies [of w f, OF step refl, of "members E w ch"] assms(5) by (simp_all add: u_def)
  have "whoChannel E c ch (Friends E w c) w = u"
    unfolding whoChannel_def f_def u_def by (simp add: friend)
  then have who: "HandleServer_Who E c name w = RplEndOfWho c name u"
    using assms(2-4) by (simp add: HandleServer_Who_def Let_def)
  have "w_out (HandleServer_Who E c name w) =
      w_out w @ map (\<lambda>m. (c, answer m)) (members E w ch) @ [(c, NewNumericReply w c RPL_ENDOFWHO ''%s :End of WHO list'' [name])]"
    using core_fields(1) [OF u(1)] core_reads(4) [OF u(1)] assms(5)
    by (simp add: who RplEndOfWho_def NumericReply_def Reply_def u(2))
  moreover have "w_out (RplWhoReply E c (Some ch) m w) = w_out w @ [(c, answer m)]" for m
    by (simp add: reply Reply_def assms(5))
  ultimately show ?thesis by blast
qed

theorem who_shows_everybody_witness:
  "length (w_out (HandleServer_Who list_env 2 ''#s'' secret_channel)) = 2 \<and>
   \<not> CanSeeChannel list_env secret_channel 2 0"
proof -
  have "IsChannel list_env ''#s''"
    by (simp add: IsChannel_def NewName_def runes_ascii is_ascii_def encode_ascii go_simps is_letter_def)
  moreover have "\<not> c_hasQuit (cl secret_channel 2)" "members list_env secret_channel 0 = [1]" "w_out secret_channel = []"
    by (simp_all add: members_def secret_channel_def bob_def fresh_client_def)
  moreover have "get_channel list_env secret_channel ''#s'' = Some 0" by (simp add: secret_channel_hidden)
  ultimately show ?thesis
    using who_shows_everybody [OF list_env.go_env_laws_axioms, of "''#s''" secret_channel 0 2] secret_channel_hidden(2)
    by auto
qed

end
