(* ===== verification/Authority.thy ===== *)
theory Authority
  imports Demo
begin

text \<open>
  What a client can do to the others with a line: nothing, unless it is a server operator, or an
  operator of the channel. The relation \<open>harmless E c\<close> says what stays; every handler that acts for
  \<open>c\<close> respects it, then \<open>processCommand\<close> does, then a line.
\<close>

section \<open>The relation\<close>

text \<open>A channel as the clients other than \<open>c\<close> see it, but for its limit and a topic anyone may set.\<close>

definition chan_spared :: "'t go_env \<Rightarrow> client_id \<Rightarrow> 't Channel \<Rightarrow> 't Channel \<Rightarrow> bool" where
  "chan_spared E c r s \<longleftrightarrow>
     \<not> mem_has_mode (members_ops E) (ch_members s) c ChannelOperator \<and>
     (\<forall>d. d \<noteq> c \<longrightarrow> mem_has (members_ops E) (ch_members s) d = mem_has (members_ops E) (ch_members r) d \<and>
       (\<forall>m. mem_has_mode (members_ops E) (ch_members s) d m = mem_has_mode (members_ops E) (ch_members r) d m)) \<and>
     ch_name s = ch_name r \<and> ch_key s = ch_key r \<and> ch_flags s = ch_flags r \<and> ch_lists s = ch_lists r \<and>
     (set_has (chan_modes E) (ch_flags r) OpOnlyTopic \<longrightarrow> ch_topic s = ch_topic r)"

text \<open>From \<open>w\<close> to \<open>v\<close>, no client but \<open>c\<close> has changed, nor any channel \<open>c\<close> is no operator of.\<close>

definition keeps_others :: "'t go_env \<Rightarrow> client_id \<Rightarrow> 't world \<Rightarrow> 't world \<Rightarrow> bool" where
  "keeps_others E c w v \<longleftrightarrow>
     w_next_chan w \<le> w_next_chan v \<and> (\<forall>d. d \<noteq> c \<longrightarrow> cl v d = cl w d) \<and>
     (\<forall>ch < w_next_chan w. \<not> member_mode E w ch c ChannelOperator \<longrightarrow> chan_spared E c (chn w ch) (chn v ch))"

text \<open>
  In addition \<open>c\<close> has not become a server operator, so that it may go on. OPER, which is the
  exception, does nothing else.
\<close>

definition harmless :: "'t go_env \<Rightarrow> client_id \<Rightarrow> 't world \<Rightarrow> 't world \<Rightarrow> bool" where
  "harmless E c w v \<longleftrightarrow> keeps_others E c w v \<and> (has_mode E v c Operator \<longrightarrow> has_mode E w c Operator)"

lemma chan_spared_refl:
  "\<not> mem_has_mode (members_ops E) (ch_members r) c ChannelOperator \<Longrightarrow> chan_spared E c r r"
  by (simp add: chan_spared_def)

lemma keeps_others_trans:
  assumes wv: "keeps_others E c w v" and vu: "keeps_others E c v u"
  shows "keeps_others E c w u"
  unfolding keeps_others_def
proof (intro conjI allI impI)
  show "w_next_chan w \<le> w_next_chan u" using assms by (simp add: keeps_others_def)
  show "cl u d = cl w d" if "d \<noteq> c" for d using assms that by (simp add: keeps_others_def)
  fix ch
  assume ch: "ch < w_next_chan w" "\<not> member_mode E w ch c ChannelOperator"
  with wv have 1: "chan_spared E c (chn w ch) (chn v ch)" by (simp add: keeps_others_def)
  then have "\<not> member_mode E v ch c ChannelOperator" by (simp add: chan_spared_def)
  moreover have "ch < w_next_chan v" using wv ch(1) by (simp add: keeps_others_def)
  ultimately have "chan_spared E c (chn v ch) (chn u ch)" using vu by (simp add: keeps_others_def)
  with 1 show "chan_spared E c (chn w ch) (chn u ch)" by (simp add: chan_spared_def)
qed

lemma harmless_trans: "harmless E c w v \<Longrightarrow> harmless E c v u \<Longrightarrow> harmless E c w u"
  unfolding harmless_def using keeps_others_trans by blast

text \<open>Changes of \<open>c\<close> itself and of what is no part of the clients and the channels.\<close>

lemma keeps_others_self:
  "w_chans v = w_chans w \<Longrightarrow> w_next_chan v = w_next_chan w \<Longrightarrow> (\<And>d. d \<noteq> c \<Longrightarrow> cl v d = cl w d) \<Longrightarrow>
   keeps_others E c w v"
  by (simp add: keeps_others_def chan_spared_refl)

lemma harmless_self:
  "w_chans v = w_chans w \<Longrightarrow> w_next_chan v = w_next_chan w \<Longrightarrow> (\<And>d. d \<noteq> c \<Longrightarrow> cl v d = cl w d) \<Longrightarrow>
   (has_mode E v c Operator \<Longrightarrow> has_mode E w c Operator) \<Longrightarrow> harmless E c w v"
  by (simp add: harmless_def keeps_others_self)

lemma harmless_refl: "harmless E c w w"
  by (rule harmless_self) simp_all

lemma harmless_upd_client:
  "(set_has (user_modes E) (c_modes (f (cl w c))) Operator \<Longrightarrow> has_mode E w c Operator) \<Longrightarrow>
   harmless E c w (upd_client c f w)"
  by (rule harmless_self) simp_all

lemma harmless_core: "core v = core w \<Longrightarrow> harmless E c w v"
  by (rule harmless_self) (simp_all add: core_fields(1-3) [of v w])

lemma harmless_core_right: "core u = core v \<Longrightarrow> harmless E c w v \<Longrightarrow> harmless E c w u"
  using harmless_core harmless_trans by blast

lemma harmless_fold: "(\<And>x v. P v \<Longrightarrow> P (f x v) \<and> harmless E c v (f x v)) \<Longrightarrow> P w \<Longrightarrow> harmless E c w (fold f xs w)"
proof (induction xs arbitrary: w)
  case (Cons x xs)
  then have "P (f x w)" "harmless E c w (f x w)" by blast+
  with Cons harmless_trans show ?case by simp blast
qed (simp add: harmless_refl)

text \<open>The changes of one channel: by an operator of it, or of what is not spared.\<close>

lemma harmless_upd_chan:
  assumes "\<not> member_mode E w ch c ChannelOperator \<Longrightarrow> ch < w_next_chan w \<Longrightarrow>
      chan_spared E c (chn w ch) (f (chn w ch))"
  shows "harmless E c w (upd_chan ch f w)"
  using assms by (simp add: harmless_def keeps_others_def chan_spared_refl)

lemma harmless_by_operator: "member_mode E w ch c ChannelOperator \<Longrightarrow> harmless E c w (upd_chan ch f w)"
  by (rule harmless_upd_chan) simp

section \<open>Channels\<close>

lemma operator_of_channel: "\<not> has_mode E w c Operator \<Longrightarrow> ClientIsOperator E w ch c = member_mode E w ch c ChannelOperator"
  by (simp add: ClientIsOperator_def)

lemma harmless_SetTopic:
  assumes "\<not> has_mode E w c Operator"
  shows "harmless E c w (SetTopic E ch c topic w)"
proof -
  have "harmless E c w (upd_chan ch (\<lambda>r. r\<lparr>ch_topic := topic\<rparr>) w)"
    if "has_flag E w ch OpOnlyTopic \<Longrightarrow> member_mode E w ch c ChannelOperator"
    using that by (intro harmless_upd_chan) (auto simp: chan_spared_def)
  from harmless_core_right [OF core_to_members this] assms show ?thesis
    by (auto simp: SetTopic_def Let_def operator_of_channel harmless_core core_simps)
qed

lemma harmless_Topic:
  "\<not> has_mode E w c Operator \<Longrightarrow> harmless E c w (HandleServer_Topic E c chname b topic w)"
  by (auto simp: HandleServer_Topic_def harmless_SetTopic harmless_core core_simps split: option.split)

lemma harmless_limit: "harmless E c w (snd (applyModeLimit ch c arg w))"
proof -
  have "harmless E c w (upd_chan ch (\<lambda>r. r\<lparr>ch_userLimit := n\<rparr>) w)" for n
    by (rule harmless_upd_chan) (simp add: chan_spared_def)
  then show ?thesis by (simp add: applyModeLimit_def harmless_core core_simps split: option.split)
qed

lemma harmless_applyMode:
  assumes "\<not> has_mode E w c Operator"
  shows "harmless E c w (snd (applyMode E ch c change w))"
proof (cases "cmc_mode change = UserLimit")
  case True
  then show ?thesis by (simp add: applyMode_def chan_mode_defs harmless_limit)
next
  case False
  show ?thesis
  proof (cases "member_mode E w ch c ChannelOperator")
    case True
    note op = harmless_by_operator [OF True]
    show ?thesis
    proof (rule applyMode_cases [OF False])
      show "harmless E c w (snd (applyModeMask E ch c m op s w))" for m op s
        using op by (simp add: applyModeMask_def set_mask_list_def harmless_core harmless_refl core_simps
            split: option.split prod.split)
      show "harmless E c w (snd (applyModeFlag E ch c m op w))" for m op
        using op by (simp add: applyModeFlag_def set_flags_def harmless_core core_simps split: ModeOp.split)
      show "harmless E c w (snd (applyModeKey E ch c op s w))" for op s
        using op by (simp add: applyModeKey_def Let_def harmless_core core_simps split: ModeOp.split)
      show "harmless E c w (snd (applyModeMember E ch c m op s w))" for m op s
        using op by (simp add: applyModeMember_def set_members_def harmless_core core_simps
            split: ModeOp.split option.split)
    qed (simp add: harmless_core core_simps)
  next
    case no: False
    then have "\<not> ClientIsOperator E w ch c" using assms by (simp add: operator_of_channel)
    from applyMode_refused [OF this False] show ?thesis by (rule harmless_core)
  qed
qed

lemma harmless_apply_changes:
  "\<not> has_mode E w c Operator \<Longrightarrow> harmless E c w (snd (apply_changes E ch c changes w))"
proof (induction changes arbitrary: w)
  case (Cons change changes)
  let ?w1 = "snd (applyMode E ch c change w)"
  have s: "harmless E c w ?w1" using Cons.prems by (rule harmless_applyMode)
  then have "\<not> has_mode E ?w1 c Operator" using Cons.prems by (auto simp: harmless_def)
  from Cons.IH [OF this] s harmless_trans
  have "harmless E c w (snd (apply_changes E ch c changes ?w1))" by blast
  then show ?case by (simp add: case_prod_beta)
qed (simp add: harmless_refl)

lemma harmless_ChannelMode:
  assumes "\<not> has_mode E w c Operator"
  shows "harmless E c w (HandleServer_ChannelMode E c chname changes w)"
proof -
  have "core (channel_Mode E ch c changes w) = core (snd (apply_changes E ch c changes w))" for ch
    by (cases "changes = []") (simp_all add: channel_Mode_def core_simps split: prod.splits)
  from harmless_core_right [OF this harmless_apply_changes [OF assms]]
  show ?thesis by (simp add: HandleServer_ChannelMode_def harmless_core core_simps split: option.split)
qed

lemma harmless_Invite:
  assumes "\<not> has_mode E w c Operator"
  shows "harmless E c w (HandleServer_Invite E c nick chname w)"
proof -
  have "harmless E c w (channel_Invite E ch d c w)" for ch d
  proof (cases "has_flag E w ch InviteOnly \<and> member_mode E w ch c ChannelOperator")
    case True
    let ?w1 = "set_mask_list ch InviteMask (fst (mask_add E (mask_list (chn w ch) InviteMask) (UserHost w d False))) w"
    have "core (channel_Invite E ch d c w) = core ?w1"
      using True by (simp add: channel_Invite_def operator_of_channel [OF assms] Let_def core_simps)
    moreover have "harmless E c w ?w1" using True by (simp add: set_mask_list_def harmless_by_operator)
    ultimately show ?thesis by (rule harmless_core_right)
  next
    case False
    then have "core (channel_Invite E ch d c w) = core w"
      by (auto simp: channel_Invite_def operator_of_channel [OF assms] Let_def core_simps)
    then show ?thesis by (rule harmless_core)
  qed
  then show ?thesis by (simp add: HandleServer_Invite_def Let_def harmless_core core_simps split: option.split)
qed

section \<open>Joining and leaving\<close>

context go_env_laws begin

text \<open>Leaving changes the client's own membership; only an operator of the channel removes another.\<close>

lemma harmless_Quit: "d = c \<or> member_mode E w ch c ChannelOperator \<Longrightarrow> harmless E c w (channel_Quit E ch d w)"
proof -
  assume own: "d = c \<or> member_mode E w ch c ChannelOperator"
  have "harmless E c w (set_members ch (\<lambda>ms. mem_remove (members_ops E) ms d) w)"
    unfolding set_members_def
  proof (rule harmless_upd_chan)
    assume "\<not> member_mode E w ch c ChannelOperator"
    with own show "chan_spared E c (chn w ch) ((chn w ch)\<lparr>ch_members := mem_remove (members_ops E) (ch_members (chn w ch)) d\<rparr>)"
      by (auto simp: chan_spared_def mem.mem_has_get mem.mem_has_mode_get mem.mem_get_remove)
  qed
  then show ?thesis by (simp add: channel_Quit_def Let_def harmless_def keeps_others_def)
qed

lemma harmless_Part: "harmless E c w (channel_Part E ch c msg w)"
proof (cases "is_member E w ch c")
  case True
  from harmless_core_right [OF core_Part [OF True] harmless_Quit] show ?thesis by simp
qed (simp add: channel_Part_def harmless_core core_simps)

lemma harmless_Kick:
  assumes "\<not> has_mode E w c Operator"
  shows "harmless E c w (channel_Kick E ch c d comment w)"
proof (cases "ClientIsOperator E w ch c \<and> is_member E w ch d")
  case True
  then have op: "member_mode E w ch c ChannelOperator" using assms by (simp add: operator_of_channel)
  from True have "core (channel_Kick E ch c d comment w) = core (channel_Quit E ch d w)"
    by (simp add: channel_Kick_def core_Quit [OF core_to_members])
  from harmless_core_right [OF this harmless_Quit] op show ?thesis by blast
qed (auto simp: channel_Kick_def harmless_core core_simps)

lemma harmless_joined:
  assumes "\<not> is_member E w ch c" "ch < w_next_chan w \<Longrightarrow> \<exists>d. is_member E w ch d"
  shows "harmless E c w (joined E ch c w)"
  unfolding harmless_def keeps_others_def
proof (intro conjI allI impI)
  fix e assume e: "e < w_next_chan w" "\<not> member_mode E w e c ChannelOperator"
  show "chan_spared E c (chn w e) (chn (joined E ch c w) e)"
  proof (cases "e = ch")
    case True
    note j = joined_chan [of E ch c w]
    have "ch_name (chn (joined E ch c w) ch) = ch_name (chn w ch)" "ch_key (chn (joined E ch c w) ch) = ch_key (chn w ch)"
      "ch_flags (chn (joined E ch c w) ch) = ch_flags (chn w ch)" "ch_lists (chn (joined E ch c w) ch) = ch_lists (chn w ch)"
      "ch_topic (chn (joined E ch c w) ch) = ch_topic (chn w ch)"
      by (subst j; simp)+
    with True e(1) assms show ?thesis
      by (auto simp: chan_spared_def joined_member joined_mode)
  next
    case False
    with e(2) show ?thesis by (simp add: chan_spared_refl)
  qed
qed simp_all

lemma harmless_Join:
  assumes "ch < w_next_chan w \<Longrightarrow> \<exists>d. is_member E w ch d"
  shows "harmless E c w (channel_Join E ch c key w)"
proof (cases "is_member E w ch c")
  case True
  then show ?thesis by (simp add: channel_Join_def harmless_refl)
next
  case False
  from harmless_joined [OF False assms]
  have "harmless E c w (if \<not> is_member E w ch c \<and> admits E w ch c key then joined E ch c w else w)"
    by (simp add: harmless_refl)
  with core_Join show ?thesis by (rule harmless_core_right)
qed

lemma harmless_join_one:
  assumes "chan_inv E {} w"
  shows "harmless E c w (join_one E c entry w)"
proof -
  have known: "harmless E c w (channel_Join E ch c key w)" if "get_channel E w name = Some ch" for name ch key
    using chan_inv_named [OF assms that] by (intro harmless_Join) simp
  have new: "harmless E c w (channel_Join E ch c key w1)" if n: "NewChannel E name True w = (ch, w1)" for name ch key w1
  proof -
    have w1: "ch = w_next_chan w" "w_next_chan w1 = ch + 1" "w_clients w1 = w_clients w"
      "\<And>d. d \<noteq> ch \<Longrightarrow> chn w1 d = chn w d"
      using n by (auto simp: NewChannel_def Let_def upd_chan_def)
    have core: "core (channel_Join E ch c key w1) = core (joined E ch c w1)"
      using NewChannel_admits [OF n] by (simp add: core_Join)
    have "harmless E c w (joined E ch c w1)"
      by (simp add: harmless_def keeps_others_def w1(2,3) w1(4) chan_spared_refl less_imp_neq w1(1))
    with core show ?thesis by (rule harmless_core_right)
  qed
  show ?thesis
    using known new by (cases entry) (simp add: join_one_def harmless_core core_simps split: option.split prod.split)
qed

lemma harmless_HandleJoin:
  assumes "act_inv E A c w"
  shows "harmless E c w (HandleServer_Join E c chs zero w)"
proof (cases zero)
  case True
  then show ?thesis by (simp add: HandleServer_Join_def harmless_fold [where P = "\<lambda>_. True"] harmless_Part)
next
  case False
  have "harmless E c w (fold (join_one E c) (go_range E chs) w)"
  proof (rule harmless_fold [where P = "act_inv E A c"])
    fix x and v :: "'t world" assume v: "act_inv E A c v"
    then have "chan_inv E {} v" by (simp add: act_inv_def inv_def)
    from harmless_join_one [OF this] act_inv_join_one [OF v]
    show "act_inv E A c (join_one E c x v) \<and> harmless E c v (join_one E c x v)" by blast
  qed (rule assms)
  with False show ?thesis by (simp add: HandleServer_Join_def)
qed

lemma harmless_HandlePart: "harmless E c w (HandleServer_Part E c chs msg w)"
  unfolding HandleServer_Part_def
  by (rule harmless_fold [where P = "\<lambda>_. True"]) (simp_all add: harmless_Part harmless_core core_simps split: option.split)

lemma harmless_HandleKick:
  assumes "\<not> has_mode E w c Operator"
  shows "harmless E c w (HandleServer_Kick E c kicks comment w)"
  unfolding HandleServer_Kick_def
proof (rule harmless_fold [where P = "\<lambda>v. \<not> has_mode E v c Operator"])
  fix x and v :: "'t world" assume v: "\<not> has_mode E v c Operator"
  let ?v = "(\<lambda>(chname, nickname) w. case get_channel E w chname of
      None \<Rightarrow> ErrNoSuchChannel c chname w
    | Some ch \<Rightarrow> (case nick_get E w nickname of
        None \<Rightarrow> ErrNoSuchNick c nickname w
      | Some target \<Rightarrow> channel_Kick E ch c target (kick_comment w c comment) w)) x v"
  have "harmless E c v ?v"
    using harmless_Kick [OF v] by (simp add: harmless_core core_simps split: option.split prod.split)
  with v show "\<not> has_mode E ?v c Operator \<and> harmless E c v ?v" by (auto simp: harmless_def)
qed (rule assms)

section \<open>The client itself\<close>

lemma own_mode:
  "m \<noteq> Operator \<Longrightarrow> set_has (user_modes E) (c_modes (set_mode E m r)) Operator = set_has (user_modes E) (c_modes r) Operator"
  "set_has (user_modes E) (c_modes (unset_mode E m r)) Operator \<Longrightarrow> set_has (user_modes E) (c_modes r) Operator"
  by (auto simp: set_mode_def unset_mode_def um.set_has_add um.set_has_remove)

lemma harmless_set_mode: "m \<noteq> Operator \<Longrightarrow> harmless E c w (upd_client c (set_mode E m) w)"
  by (rule harmless_upd_client) (simp add: own_mode)

lemma harmless_user_changes: "harmless E c w (snd (apply_user_changes E c changes w))"
proof (induction changes arbitrary: w)
  case (Cons change changes)
  have ne: "Operator \<notin> {Invisible, HostMask, WallOps, SecureOnly}" by (simp add: user_mode_defs)
  have set: "harmless E c w (snd (apply_user_changes E c changes (upd_client c (set_mode E (mc_mode change)) w)))"
    if "mc_mode change \<in> {Invisible, HostMask, WallOps, SecureOnly}"
    using that ne by (intro harmless_trans [OF harmless_set_mode Cons.IH]) auto
  have unset: "harmless E c w (snd (apply_user_changes E c changes (upd_client c (unset_mode E (mc_mode change)) w)))"
    by (intro harmless_trans [OF harmless_upd_client Cons.IH]) (rule own_mode)
  show ?case using set unset Cons.IH [of w] by (auto simp: Let_def case_prod_beta)
qed (simp add: harmless_refl)

lemma harmless_Mode:
  assumes "\<not> has_mode E w c Operator"
  shows "harmless E c w (HandleServer_Mode E c nick changes w)"
proof (cases "nick_get E w nick = Some c")
  case True
  let ?u = "snd (apply_user_changes E c changes w)"
  have "core (HandleServer_Mode E c nick changes w) = core ?u"
    using True by (simp add: HandleServer_Mode_def case_prod_beta core_simps)
  then show ?thesis using harmless_user_changes by (rule harmless_core_right)
next
  case False
  with assms have "core (HandleServer_Mode E c nick changes w) = core w"
    by (auto simp: HandleServer_Mode_def core_simps split: option.split)
  then show ?thesis by (rule harmless_core)
qed

lemma harmless_Away: "harmless E c w (HandleServer_Away E c body w)"
proof -
  have "Away \<noteq> Operator" by (simp add: user_mode_defs)
  then show ?thesis
    unfolding HandleServer_Away_def
    by (intro harmless_upd_client) (auto simp: own_mode(1) dest: own_mode(2) split: if_splits)
qed

lemma harmless_ChangeNickname: "on_ret (harmless E c w) (ChangeNickname E c nick w)"
proof (cases "append_whowas c (snd (nick_remove E c w))")
  case (Ret w1)
  obtain l where w1: "w1 = (snd (nick_remove E c w))\<lparr>srv_whoWas := l\<rparr>" using append_whowas_Ret [OF Ret] by blast
  have "harmless E c w (snd (nick_add E c (upd_client c (\<lambda>r. r\<lparr>c_nick := nick\<rparr>) w1)))"
    by (rule harmless_self) (simp_all add: w1)
  from harmless_core_right [OF core_reply_all this] Ret show ?thesis by (simp add: ChangeNickname_def Let_def)
qed (simp_all add: ChangeNickname_def)

lemma harmless_HandleNick: "on_ret (harmless E c w) (HandleServer_Nick E c nick w)"
  by (auto simp: HandleServer_Nick_def harmless_ChangeNickname harmless_core harmless_refl core_simps split: option.split)

lemma harmless_client_Quit:
  assumes "inv E A {} w"
  shows "on_ret (harmless E c w) (client_Quit E c msg w)"
  unfolding on_ret_iff
proof (intro allI impI)
  fix v assume "client_Quit E c msg w = Ret v"
  note v = client_Quit_result [OF assms this]
  let ?u = "fold (\<lambda>ch. channel_Quit E ch c) (set_range (chan_sets E) (c_channels (cl w c))) w"
  have "harmless E c w ?u" by (rule harmless_fold [where P = "\<lambda>_. True"]) (simp_all add: harmless_Quit)
  moreover have "harmless E c ?u (departed E c w)"
    by (rule harmless_self) (simp_all add: departed_def)
  ultimately have "harmless E c w (departed E c w)" by (rule harmless_trans)
  then have "harmless E c w (if c_hasQuit (cl w c) then w else departed E c w)" by (simp add: harmless_refl)
  then show "harmless E c w v"
    by (rule harmless_trans) (rule harmless_self, use v in \<open>simp_all add: same_state_def\<close>)
qed

section \<open>Registration\<close>

lemma harmless_tryRegister: "harmless E c w (tryRegister E c w)"
proof -
  have "HostMask \<noteq> Operator" by (simp add: user_mode_defs)
  then have "harmless E c w (Register E c w)"
    by (auto simp: Register_def Touch_def own_mode(1) intro!: harmless_self)
  moreover have "core (tryRegister E c w) = core w \<or> core (tryRegister E c w) = core (Register E c w)"
    by (auto simp: tryRegister_def core_simps)
  ultimately show ?thesis using harmless_core harmless_core_right by blast
qed

lemma harmless_setUserInfo: "harmless E c w (setUserInfo E c username realname w)"
  unfolding setUserInfo_def Let_def
  by (rule harmless_trans [OF harmless_self harmless_tryRegister]) simp_all

lemma harmless_bad_password:
  assumes "act_inv E A c w"
  shows "on_ret (harmless E c w) (bad_password E c w)"
proof -
  have i: "inv E A {} (ErrPasswdMismatch c w)" using assms by (simp add: act_inv_def inv_simps)
  have s: "harmless E c w (ErrPasswdMismatch c w)" by (rule harmless_core) (simp add: core_simps)
  show ?thesis
    unfolding bad_password_def
    by (rule on_ret_mono [OF harmless_client_Quit [OF i]]) (rule harmless_trans [OF s])
qed

lemma harmless_flags: "Operator \<notin> set ms \<Longrightarrow> harmless E c w (fold (\<lambda>m. upd_client c (set_mode E m)) ms w)"
proof (induction ms arbitrary: w)
  case (Cons m ms)
  then have "harmless E c w (upd_client c (set_mode E m) w)" by (intro harmless_set_mode) auto
  from harmless_trans [OF this Cons.IH] Cons.prems show ?case by simp
qed (simp add: harmless_refl)

lemma harmless_sasl: "harmless E c w (upd_client c (\<lambda>r. r\<lparr>c_sasl := f (c_sasl r)\<rparr>) w)"
  by (rule harmless_upd_client) simp

lemma harmless_sasl_authenticate: "harmless E c w (sasl_authenticate E c blob w)"
proof -
  have ne: "Registered \<noteq> Operator" by (simp add: user_mode_defs)
  have "harmless E c w (upd_client c (set_mode E Registered) v)"
    if "core v = core (upd_client c (\<lambda>r. r\<lparr>c_sasl := f (c_sasl r)\<rparr>) w)" for f v
    by (rule harmless_trans [OF harmless_core_right [OF that harmless_sasl] harmless_set_mode [OF ne]])
  then show ?thesis
    by (auto simp: sasl_authenticate_def Let_def harmless_core core_simps
        intro!: harmless_core_right [OF core_Reply] split: list.split)
qed

lemma harmless_Authenticate:
  assumes "act_inv E A c w"
  shows "on_ret (harmless E c w) (HandleRegServer_Authenticate E c arg w)"
proof -
  define w1 where "w1 = (if arg \<noteq> ''+'' then upd_client c (\<lambda>r. r\<lparr>c_sasl := sasl_write arg (c_sasl r)\<rparr>) w else w)"
  have w1: "harmless E c w w1" by (simp add: w1_def harmless_sasl harmless_refl)
  have "harmless E c w (sasl_authenticate E c blob w1)" for blob
    by (rule harmless_trans [OF w1 harmless_sasl_authenticate])
  moreover have "harmless E c w (upd_client c (\<lambda>r. r\<lparr>c_sasl := sasl_reset (c_sasl r)\<rparr>) (ErrSaslFail c s w1))" for s
    by (rule harmless_trans [OF harmless_trans [OF w1 harmless_core] harmless_sasl]) (simp add: core_simps)
  ultimately have last: "on_ret (harmless E c w) (case b64_decode (sasl_buffer (c_sasl (cl w1 c))) of
        None \<Rightarrow> Ret (upd_client c (\<lambda>r. r\<lparr>c_sasl := sasl_reset (c_sasl r)\<rparr>) (ErrSaslFail c ''Invalid base64 encoding'' w1))
      | Some blob \<Rightarrow> Ret (sasl_authenticate E c blob w1))"
    by (simp split: option.split)
  show ?thesis
    using last harmless_bad_password [OF assms]
    unfolding HandleRegServer_Authenticate_def w1_def [symmetric] Let_def
    by (simp add: harmless_core harmless_sasl core_simps harmless_core_right [OF core_Reply harmless_sasl])
qed

lemma harmless_Cap: "on_ret (harmless E c w) (HandleRegServer_Cap E c sub caps w)"
proof -
  have own: "harmless E c w (upd_client c (\<lambda>r. r\<lparr>c_capState := s\<rparr>) w)"
    "harmless E c w (upd_client c (\<lambda>r. r\<lparr>c_capabilities := f (c_capabilities r)\<rparr>) w)"
    "harmless E c w (upd_client c (\<lambda>r. r\<lparr>c_capabilities := []\<rparr>) w)" for s f
    by (rule harmless_upd_client; simp)+
  show ?thesis
    by (simp add: HandleRegServer_Cap_def Let_def harmless_core core_simps own harmless_core_right [OF core_Reply]
        harmless_trans [OF own(1) harmless_tryRegister])
qed

lemma harmless_RegNick:
  assumes "act_inv E A c w"
  shows "on_ret (harmless E c w) (HandleRegServer_Nick E c nick w)"
proof -
  have "harmless E c w (SetNickname E c nick w)"
    by (rule harmless_self) (auto simp: SetNickname_def split: if_splits)
  from harmless_trans [OF this harmless_tryRegister] harmless_bad_password [OF assms] show ?thesis
    by (simp add: HandleRegServer_Nick_def harmless_core core_simps split: option.split)
qed

lemma harmless_User:
  assumes "act_inv E A c w"
  shows "on_ret (harmless E c w) (HandleRegServer_RFC1459User E c username realname w)"
    and "on_ret (harmless E c w) (HandleRegServer_RFC2812User E c username realname mode w)"
proof -
  have "Operator \<notin> set (Flags mode)" by (simp add: Flags_def user_mode_defs)
  from harmless_core_right [OF _ harmless_flags [OF this]]
  have "harmless E c w (RplUModeIs E c c (fold (\<lambda>m. upd_client c (set_mode E m)) (Flags mode) w))"
    by (simp add: core_simps)
  from harmless_trans [OF this harmless_setUserInfo]
  show "on_ret (harmless E c w) (HandleRegServer_RFC2812User E c username realname mode w)"
    using harmless_bad_password [OF assms] by (simp add: HandleRegServer_RFC2812User_def Let_def harmless_setUserInfo)
qed (use harmless_bad_password [OF assms] in \<open>simp add: HandleRegServer_RFC1459User_def harmless_setUserInfo\<close>)

lemma harmless_Pass: "act_inv E A c w \<Longrightarrow> on_ret (harmless E c w) (HandleRegServer_Pass E c err w)"
  using harmless_bad_password [of A c w]
  by (auto simp: HandleRegServer_Pass_def intro!: harmless_upd_client)

lemma harmless_HandleRegServer:
  assumes i: "act_inv E A c w" and h: "HandleRegServer E c cmd = Some h"
  shows "on_ret (harmless E c w) (h w)"
  using h harmless_Pass [OF i] harmless_RegNick [OF i] harmless_User [OF i] harmless_Authenticate [OF i] harmless_Cap
    harmless_client_Quit [OF act_invD [OF i]]
  by (cases cmd) (auto simp: HandleRegServer_def)

section \<open>Every command\<close>

lemma harmless_bundle: "on_ret (\<lambda>v. core v = core w) r \<Longrightarrow> on_ret (harmless E c w) r"
  by (erule on_ret_mono) (rule harmless_core)

lemma harmless_WhoWas: "on_ret (harmless E c w) (HandleServer_WhoWas E c nicks lim w)"
  unfolding HandleServer_WhoWas_def
proof (rule on_ret_iterate)
  fix nick v assume s: "harmless E c w v"
  have log: "harmless E c w (v\<lparr>srv_whoWas := l\<rparr>)" for l
    by (rule harmless_trans [OF s harmless_self]) simp_all
  have "core (fold (RplWhoWasUser E c) rs u) = core u" for rs u
    by (simp add: core_fold core_simps)
  with log show "on_ret (harmless E c w) (and_then (whowas_find (srv_whoWas v) nick lim) (\<lambda>(results, l).
      let w1 = v\<lparr>srv_whoWas := l\<rparr>; w2 = if results = [] then ErrWasNoSuchNick c nick w1
        else fold (RplWhoWasUser E c) results w1 in Ret (RplEndOfWhoWas c nick w2)))"
    by (cases "whowas_find (srv_whoWas v) nick lim") (auto simp: Let_def core_simps intro!: harmless_core_right [OF _ log])
qed (rule harmless_refl)

text \<open>OPER: the one command that can make the client an operator, and it does nothing else.\<close>

lemma keeps_others_Oper: "keeps_others E c w (HandleServer_Oper E c hash err w)"
proof (cases "hash = None \<or> err")
  case True
  then have "core (HandleServer_Oper E c hash err w) = core w" by (auto simp: HandleServer_Oper_def core_simps)
  from harmless_core [OF this] show ?thesis by (simp add: harmless_def)
next
  case False
  then have "core (HandleServer_Oper E c hash err w) =
      core (upd_client c (\<lambda>r. set_mode E WallOps (set_mode E Operator r)) w)"
    by (auto simp: HandleServer_Oper_def Let_def core_simps)
  note f = core_fields(1-3) [OF this]
  show ?thesis by (rule keeps_others_self) (simp_all add: f)
qed

lemma harmless_HandleServer:
  assumes i: "act_inv E A c w" and no: "\<not> has_mode E w c Operator" and h: "HandleServer E c cmd = Some h"
    and oper: "\<And>name hash pw err. cmd \<noteq> OperCommand name hash pw err"
  shows "on_ret (harmless E c w) (h w)"
proof -
  have privileged: "on_ret (harmless E c w) (HandleServer_OperNick E c n m w)"
    "on_ret (harmless E c w) (HandleServer_Rehash E c w)" "on_ret (harmless E c w) (HandleServer_Wallops E c m w)"
    "on_ret (harmless E c w) (HandleServer_Kill E c n m w)" for n m
    using no by (simp_all add: HandleServer_OperNick_def HandleServer_Rehash_def HandleServer_Wallops_def
        HandleServer_Kill_def harmless_core core_simps)
  note changes = harmless_HandleJoin [OF i] harmless_HandlePart harmless_Topic [OF no] harmless_Mode [OF no]
    harmless_ChannelMode [OF no] harmless_Away harmless_HandleKick [OF no] harmless_Invite [OF no]
  note results = privileged harmless_HandleNick harmless_client_Quit [OF act_invD [OF i]]
    harmless_bundle [OF core_Notice] harmless_bundle [OF core_Whois] harmless_WhoWas
  show ?thesis
    using h oper
    by (cases cmd) (auto simp: HandleServer_def harmless_core harmless_refl core_simps changes results)
qed

lemma keeps_others_processCommand:
  assumes i: "act_inv E A c w" and no: "\<not> has_mode E w c Operator"
  shows "on_ret (keeps_others E c w) (processCommand E c code cmd w)"
proof (cases "c_registered (cl w c)")
  case True
  let ?w = "note_activity c cmd (w\<lparr>w_commands := w_commands w + 1\<rparr>)"
  have "harmless E c w (w\<lparr>w_commands := w_commands w + 1\<rparr>)" by (rule harmless_core) (simp add: core_simps)
  moreover have "harmless E c v (note_activity c cmd v)" for v
    by (rule harmless_self) (simp_all add: note_activity_def Touch_def Active_def split: Command.splits)
  ultimately have s: "harmless E c w ?w" by (rule harmless_trans)
  then have no': "\<not> has_mode E ?w c Operator" and k: "keeps_others E c w ?w" using no by (auto simp: harmless_def)
  have i': "act_inv E A c ?w"
    using i by (intro note_activity_inv) (simp add: act_inv_core [OF core_out(3)])
  have "on_ret (keeps_others E c ?w) (h ?w)" if h: "HandleServer E c cmd = Some h" for h
  proof (cases "\<exists>name hash pw err. cmd = OperCommand name hash pw err")
    case True
    with h show ?thesis by (auto simp: HandleServer_def keeps_others_Oper)
  next
    case False
    then have "on_ret (harmless E c ?w) (h ?w)" by (intro harmless_HandleServer [OF i' no' h]) blast
    then show ?thesis by (rule on_ret_mono) (simp add: harmless_def)
  qed
  then have "on_ret (keeps_others E c w) (h ?w)" if "HandleServer E c cmd = Some h" for h
    by (rule on_ret_mono [OF _ keeps_others_trans [OF k]]) (rule that)
  moreover have "keeps_others E c w (ErrUnknownCommand c code w)"
    using harmless_core [of "ErrUnknownCommand c code w" w] by (simp add: harmless_def core_simps)
  ultimately show ?thesis using True by (simp add: processCommand_def split: option.split)
next
  case False
  have "on_ret (harmless E c w) (processCommand E c code cmd w)"
    using False harmless_HandleRegServer [OF i] harmless_client_Quit [OF act_invD [OF i]]
    by (simp add: processCommand_def split: option.split)
  then show ?thesis by (rule on_ret_mono) (simp add: harmless_def)
qed

lemma keeps_others_line:
  assumes i: "act_inv E A c w" and no: "\<not> has_mode E w c Operator" and l: "handle_line E c line w = Ret v"
  shows "keeps_others E c w v"
proof -
  obtain code p where p: "ParseCommand E line = (code, p)" by force
  have reply: "keeps_others E c w (Reply c s w)" for s
    using harmless_core [OF core_Reply] by (simp add: harmless_def)
  have "on_ret (keeps_others E c w) (handle_line E c line w)"
    using keeps_others_processCommand [OF i no] reply harmless_refl [of E c w]
    by (cases p) (auto simp: handle_line_def p harmless_def split: parse_error.split)
  with l show ?thesis by simp
qed

lemma powerless_law:
  assumes "reachable E w" "c < w_next_client w" "\<not> c_socket_closed (cl w c)"
    and "\<not> has_mode E w c Operator" "handle_line E c line w = Ret w'"
  shows "keeps_others E c w w'"
    and "d \<noteq> c \<Longrightarrow> d < w_next_client w \<Longrightarrow> nick_get E w' n = Some d \<longleftrightarrow> nick_get E w n = Some d"
proof -
  have i: "inv E (\<lambda>_. UNIV) {} w" by (rule reachable_inv [OF assms(1)])
  then have "act_inv E (\<lambda>_. UNIV) c w" using assms(2,3) by (auto simp: act_inv_def inv_def client_ok_def alive_def)
  from keeps_others_line [OF this assms(4,5)] show k: "keeps_others E c w w'" .
  assume d: "d \<noteq> c" "d < w_next_client w"
  have "reachable E w'" using assms by (intro reachable_line [OF assms(1-3)])
  then have "nick_inv E w" "nick_inv E w'" using i reachable_inv by (auto simp: inv_def)
  moreover have "d < w_next_client w'" using line_keeps_clients [OF assms(1-3,5)] d(2) by simp
  ultimately show "nick_get E w' n = Some d \<longleftrightarrow> nick_get E w n = Some d"
    using k d by (simp add: nick_inv_get alive_def keeps_others_def)
qed

end

section \<open>The session\<close>

text \<open>The second client of the session, who is no operator, tries to kick the first one.\<close>

lemma parse_kick: "ParseCommand list_env ''KICK #c ann'' = (''KICK'', Inr (KickCommand [(''#c'', ''ann'')] []))"
  by (simp add: ParseCommand_def ParseLine_def splitArg_def is_space_def parse_args.simps
      parseCommandFuncs_def ParseKickCommand_def eval_text)

lemma session_kick:
  assumes "core w = core session_world"
  shows "\<exists>w'. handle_line list_env 1 ''KICK #c ann'' w = Ret w'"
  using session_simps(2) [OF assms]
  by (simp add: handle_line_def parse_kick check_password_def processCommand_def HandleServer_def)

text \<open>C3: a line of a client that is no server operator changes no other client, in no way; the others
  are found under the same nicks; and of a channel it does not operate it changes neither the others'
  membership and modes nor the name, the key, the flags, the lists of masks, nor a topic that is
  reserved for operators, and it does not become an operator of it.\<close>

theorem powerless:
  assumes "go_env_laws E" "reachable E w" "c < w_next_client w" "\<not> c_socket_closed (cl w c)"
    and "\<not> has_mode E w c Operator" "handle_line E c line w = Ret w'"
  shows "(\<forall>d. d \<noteq> c \<longrightarrow> cl w' d = cl w d) \<and>
    (\<forall>d n. d \<noteq> c \<and> d < w_next_client w \<longrightarrow> (nick_get E w' n = Some d \<longleftrightarrow> nick_get E w n = Some d)) \<and>
    (\<forall>ch < w_next_chan w. \<not> member_mode E w ch c ChannelOperator \<longrightarrow>
      chan_spared E c (chn w ch) (chn w' ch))"
  using go_env_laws.powerless_law [OF assms] by (auto simp: keeps_others_def)

theorem powerless_witness:
  "\<exists>w w'. reachable list_env w \<and> handle_line list_env 1 ''KICK #c ann'' w = Ret w' \<and>
    is_member list_env w' 0 0 \<and> nick_get list_env w' ''ann'' = Some 0"
proof -
  obtain w where w: "reachable list_env w" "core w = core session_world" using session by blast
  note s = session_simps [OF w(2)]
  obtain w' where w': "handle_line list_env 1 ''KICK #c ann'' w = Ret w'" using session_kick [OF w(2)] by blast
  have "\<not> c_socket_closed (cl w 1)" "\<not> has_mode list_env w 1 Operator" "1 < w_next_client w"
    "\<not> member_mode list_env w 0 1 ChannelOperator" "0 < w_next_chan w"
    by (simp_all add: s user_mode_defs del: One_nat_def)
  with powerless [OF list_env_laws w(1) _ _ _ w']
  have "nick_get list_env w' ''ann'' = Some 0 \<longleftrightarrow> nick_get list_env w ''ann'' = Some 0"
    "chan_spared list_env 1 (chn w 0) (chn w' 0)" by (simp_all add: s(3))
  then have "nick_get list_env w' ''ann'' = Some 0" "is_member list_env w' 0 0"
    by (simp_all add: s nick_get_def chan_spared_def)
  with w(1) w' show ?thesis by blast
qed

end
