(* ===== verification/Timers.thy ===== *)
theory Timers
  imports Demo
begin

text \<open>
  The timers of a client (\<open>Touch\<close>, \<open>Idle\<close>, \<open>connectionTimeout\<close> of client.go): a connected client always
  has one that is running, so that a client which falls silent is pinged and then quit; and what
  the answer to the ping does, which depends on whether the client is registered.
\<close>

section \<open>Every client is watched\<close>

lemma reachable_watched:
  assumes "go_env_laws E" "reachable E w" "alive w c"
  shows "watched (c_idleTimer (cl w c)) (c_quitTimer (cl w c))"
  using go_env_laws.reachable_watched_inv [OF assms(1,2)] assms(3)
  by (auto simp: inv_def client_ok_def alive_def watched_grants_def)

text \<open>What can happen while nobody but the timers of \<open>c\<close> does anything.\<close>

inductive silence :: "'t go_env \<Rightarrow> client_id \<Rightarrow> 't world \<Rightarrow> 't world \<Rightarrow> bool" for E c where
  wait: "w_clock w \<le> t \<Longrightarrow> silence E c w (w\<lparr>w_clock := t\<rparr>)"
| idle: "c < w_next_client w \<Longrightarrow> c_idleTimer (cl w c) = Some (Armed t) \<Longrightarrow> t \<le> w_clock w \<Longrightarrow>
    silence E c w (Idle c (upd_client c (\<lambda>r. r\<lparr>c_idleTimer := Some Stopped\<rparr>) w))"
| quit: "c < w_next_client w \<Longrightarrow> c_quitTimer (cl w c) = Some (Armed t) \<Longrightarrow> t \<le> w_clock w \<Longrightarrow>
    connectionTimeout E c (upd_client c (\<lambda>r. r\<lparr>c_quitTimer := Some Stopped\<rparr>) w) = Ret v \<Longrightarrow> silence E c w v"

lemma silence_step: "silence E c w v \<Longrightarrow> step E w v"
  by (induction rule: silence.induct) (auto intro: step.intros)

lemma timeout_quit:
  "connectionTimeout E c w = client_Quit E c ''connection timeout''
     (if c_registered (cl w c) then w\<lparr>w_commands := w_commands w + 1\<rparr> else w)"
  by (simp add: connectionTimeout_def processCommand_def HandleServer_def HandleRegServer_def note_activity_def)

context go_env_laws begin

lemma quit_timer_fires:
  assumes r: "reachable E w" and c: "alive w c" and free: "whowas_free (srv_whoWas w)"
    and t: "c_quitTimer (cl w c) = Some (Armed t)"
  shows "\<exists>v. (silence E c)\<^sup>*\<^sup>* w v \<and> c_hasQuit (cl v c)"
proof -
  let ?w1 = "w\<lparr>w_clock := max t (w_clock w)\<rparr>"
  let ?u = "upd_client c (\<lambda>r. r\<lparr>c_quitTimer := Some Stopped\<rparr>) ?w1"
  have wait: "silence E c w ?w1" by (rule silence.wait) simp
  then have r1: "reachable E ?w1" using r by (blast intro: reachable.more silence_step)
  note i = reachable_inv [OF r1]
  have "c_replies_closed (cl w c) = c_hasQuit (cl w c)"
    using inv_open [OF reachable_inv [OF r], of c] c by (simp add: alive_def)
  then have "returns (\<lambda>_. True) (connectionTimeout E c ?u)"
    unfolding timeout_quit using log_reachable [OF r] free c
    by (intro returns_client_Quit) (simp_all add: log_in_def alive_def)
  then obtain v where v: "connectionTimeout E c ?u = Ret v" by (auto simp: returns_iff)
  have "silence E c ?w1 v"
    using c t by (intro silence.quit [of c ?w1 t, OF _ _ _ v]) (auto simp: alive_def)
  with wait have "(silence E c)\<^sup>*\<^sup>* w v" by (meson converse_rtranclp_into_rtranclp rtranclp.rtrancl_refl)
  moreover have "c_hasQuit (cl v c)"
    using quit_command_quits [OF inv_timer(1) [OF i]] v by (simp add: connectionTimeout_def)
  ultimately show ?thesis by blast
qed

lemma silent_client_law:
  assumes r: "reachable E w" and c: "alive w c" and free: "whowas_free (srv_whoWas w)"
  shows "\<exists>v. (silence E c)\<^sup>*\<^sup>* w v \<and> c_hasQuit (cl v c)"
proof -
  have "watched (c_idleTimer (cl w c)) (c_quitTimer (cl w c))"
    using reachable_watched go_env_laws_axioms r c by blast
  then consider t where "c_quitTimer (cl w c) = Some (Armed t)" | t where "c_idleTimer (cl w c) = Some (Armed t)"
    by (auto simp: watched_def)
  then show ?thesis
  proof cases
    case 1
    then show ?thesis using quit_timer_fires [OF assms] by blast
  next
    case (2 t)
    let ?w1 = "w\<lparr>w_clock := max t (w_clock w)\<rparr>"
    let ?w2 = "Idle c (upd_client c (\<lambda>r. r\<lparr>c_idleTimer := Some Stopped\<rparr>) ?w1)"
    have wait: "silence E c w ?w1" by (rule silence.wait) simp
    have idle: "silence E c ?w1 ?w2"
      using c 2 by (intro silence.idle [of c ?w1 t]) (auto simp: alive_def)
    have "reachable E ?w2" using r wait idle by (blast intro: reachable.more silence_step)
    moreover have "alive ?w2 c" "whowas_free (srv_whoWas ?w2)"
      using c free core_fields(15) [OF core_Reply] by (simp_all add: Idle_def Let_def alive_def)
    moreover have "c_quitTimer (cl ?w2 c) = Some (Armed (w_clock ?w1 + QUIT_TIMEOUT))"
      by (simp add: Idle_def Let_def Reply_def upd_client_def)
    ultimately obtain v where "(silence E c)\<^sup>*\<^sup>* ?w2 v" "c_hasQuit (cl v c)" using quit_timer_fires by blast
    with wait idle show ?thesis by (meson converse_rtranclp_into_rtranclp)
  qed
qed

lemma pong_law:
  assumes "reachable E w" "alive w c" "whowas_free (srv_whoWas w)"
    and "ParseCommand E line = (code, Inr (PongCommand server1 server2))"
  shows "\<exists>v. handle_line E c line w = Ret v \<and>
    (if c_registered (cl w c)
     then \<not> c_hasQuit (cl v c) \<and> c_idleTimer (cl v c) = Some (Armed (w_clock w + IDLE_TIMEOUT)) \<and>
       (\<forall>t. c_quitTimer (cl v c) \<noteq> Some (Armed t))
     else c_hasQuit (cl v c) \<and> c_socket_closed (cl v c))"
proof -
  note i = reachable_inv [OF assms(1)]
  have line: "handle_line E c line w = processCommand E c code (PongCommand server1 server2) w"
    by (simp add: handle_line_def assms(4) check_password_def)
  show ?thesis
  proof (cases "c_registered (cl w c)")
    case True
    then have "handle_line E c line w = Ret (Touch c (w\<lparr>w_commands := w_commands w + 1\<rparr>))"
      by (simp add: line processCommand_def HandleServer_def note_activity_def)
    then show ?thesis using True assms(2) by (auto simp: Touch_def alive_def)
  next
    case False
    then have q: "handle_line E c line w = client_Quit E c ''unexpected command'' w"
      by (simp add: line processCommand_def HandleRegServer_def)
    have "c_replies_closed (cl w c) = c_hasQuit (cl w c)" using inv_open [OF i, of c] assms(2) by (simp add: alive_def)
    then have "returns (\<lambda>_. True) (client_Quit E c ''unexpected command'' w)"
      using log_reachable [OF assms(1)] assms(2,3) by (intro returns_client_Quit) simp_all
    then obtain v where v: "client_Quit E c ''unexpected command'' w = Ret v" by (auto simp: returns_iff)
    have "same_state v (departed E c w)" using client_Quit_result [OF i v] assms(2) by (simp add: alive_def)
    then have "c_hasQuit (cl v c) \<and> c_socket_closed (cl v c)" by (simp add: same_state_def)
    with q v False show ?thesis by simp
  qed
qed

end

text \<open>C13: a client that falls silent does not stay: from every reachable state the timers alone, without
  a line from anybody, can lead to a state in which the client has quit, and there is always a timer
  of the client that runs. Departures have to be logged, so no reader of the log may be left
  behind; and this is about \<open>Quit\<close> as an operation on the shared state: that its goroutine may have to
  wait for the lock of the socket is shown in the theory Connection.\<close>

theorem silent_client_quits:
  assumes "go_env_laws E" "reachable E w" "alive w c" "whowas_free (srv_whoWas w)"
  shows "watched (c_idleTimer (cl w c)) (c_quitTimer (cl w c)) \<and>
    (\<exists>v. (silence E c)\<^sup>*\<^sup>* w v \<and> c_hasQuit (cl v c))"
  using reachable_watched [OF assms(1-3)] go_env_laws.silent_client_law [OF assms] by blast

text \<open>C18: a ping and its answer. When the idle timer of a connected client is handled it is sent a PING
  and its quit timer starts, whether it has registered or not. A PONG of a registered client stops the
  timer that would end it and gives it another interval; a client that has not registered yet is
  thrown out for its PONG.\<close>

theorem pong_effect:
  assumes "go_env_laws E" "reachable E w" "alive w c" "whowas_free (srv_whoWas w)"
    and "ParseCommand E line = (code, Inr (PongCommand server1 server2))"
  shows "(\<exists>v. handle_line E c line w = Ret v \<and>
    (if c_registered (cl w c)
     then \<not> c_hasQuit (cl v c) \<and> c_idleTimer (cl v c) = Some (Armed (w_clock w + IDLE_TIMEOUT)) \<and>
       (\<forall>t. c_quitTimer (cl v c) \<noteq> Some (Armed t))
     else c_hasQuit (cl v c) \<and> c_socket_closed (cl v c))) \<and>
    w_out (Idle c w) = w_out w @ [(c, RplPing (srv_name w))] \<and>
    c_quitTimer (cl (Idle c w) c) = Some (Armed (w_clock w + QUIT_TIMEOUT))"
proof (intro conjI)
  show "w_out (Idle c w) = w_out w @ [(c, RplPing (srv_name w))]"
    "c_quitTimer (cl (Idle c w) c) = Some (Armed (w_clock w + QUIT_TIMEOUT))"
    using assms(3) by (simp_all add: Idle_def Let_def Reply_def alive_def)
qed (rule go_env_laws.pong_law [OF assms(1,2,3,4,5)])

section \<open>A client that has just connected\<close>

lemma connected_watch:
  "alive connected 0" "whowas_free (srv_whoWas connected)" "\<not> c_registered (cl connected 0)"
  by (simp_all add: alive_def new_client_def fresh_client_def whowas_free_def NewWhoWasList_def)

theorem silent_client_quits_witness:
  "\<exists>v. (silence list_env 0)\<^sup>*\<^sup>* connected v \<and> c_hasQuit (cl v 0)"
  using silent_client_quits [OF list_env_laws reachable_connected connected_watch(1,2)] by blast

lemma parse_pong: "ParseCommand list_env ''PONG x'' = (''PONG'', Inr (PongCommand ''x'' []))"
  by (simp add: ParseCommand_def ParseLine_def splitArg_def is_space_def parse_args.simps
      parseCommandFuncs_def ParsePongCommand_def eval_text)

text \<open>One that has not registered, and Bob of the session.\<close>

theorem pong_effect_witness:
  "(\<exists>v. handle_line list_env 0 ''PONG x'' connected = Ret v \<and> c_hasQuit (cl v 0)) \<and>
   w_out (Idle 0 connected) = w_out connected @ [(0, RplPing (srv_name connected))] \<and>
   (\<exists>w v. reachable list_env w \<and> c_registered (cl w 1) \<and> handle_line list_env 1 ''PONG x'' w = Ret v \<and>
      \<not> c_hasQuit (cl v 1) \<and> c_idleTimer (cl v 1) = Some (Armed (w_clock w + IDLE_TIMEOUT)))"
proof -
  obtain w where w: "reachable list_env w" "core w = core session_world" using session by blast
  note s = session_simps [OF w(2)]
  have bob: "alive w 1" "whowas_free (srv_whoWas w)" "c_registered (cl w 1)"
    using s by (simp_all add: alive_def whowas_free_def NewWhoWasList_def)
  from pong_effect [OF list_env_laws w(1) bob(1,2) parse_pong] bob(3)
  have "\<exists>v. handle_line list_env 1 ''PONG x'' w = Ret v \<and> \<not> c_hasQuit (cl v 1) \<and>
      c_idleTimer (cl v 1) = Some (Armed (w_clock w + IDLE_TIMEOUT))" by auto
  moreover from pong_effect [OF list_env_laws reachable_connected connected_watch(1,2) parse_pong] connected_watch(3)
  have "(\<exists>v. handle_line list_env 0 ''PONG x'' connected = Ret v \<and> c_hasQuit (cl v 0)) \<and>
      w_out (Idle 0 connected) = w_out connected @ [(0, RplPing (srv_name connected))]" by auto
  ultimately show ?thesis using w(1) bob(3) by blast
qed

end
