(* ===== verification/Delivery.thy ===== *)
theory Delivery
  imports Demo
begin

text \<open>
  A message from the line its sender types to the line its receivers read: \<open>handle_line\<close>, the PRIVMSG
  handler, the delivery to the members of a channel or to one client, and the parsing of what was
  delivered. It needs that the names in use are names, which every reachable state has. And for whom
  the goroutine that handles the line has to wait.
\<close>

section \<open>Names that are in use\<close>

lemma channel_middle:
  assumes "IsChannel E n"
  shows "middle_ok n"
proof -
  from assms obtain p rs where r: "runes n = p # rs" "p \<in> {38, 33, 35, 43}"
    "list_all (\<lambda>r. is_letter E r \<or> is_number E r) rs"
    by (auto simp: IsChannel_def split: list.splits)
  then obtain c cs where n: "n = c # cs" by (cases n) (simp_all add: runes_def)
  have "CHR '' '' \<notin> set n"
  proof
    assume "CHR '' '' \<in> set n"
    then have "of_char (CHR '' '') \<in> set (runes n)" by (rule ascii_char_in_runes) simp
    then have "is_letter E 32 \<or> is_number E 32" using r by (auto simp: list_all_iff)
    then show False by (simp add: is_letter_def is_number_def)
  qed
  moreover have "of_char c = p" using r(1,2) runes_hd_ascii [of c cs p rs] n by auto
  then have "c \<noteq> CHR '':''" using r(2) by auto
  ultimately show ?thesis by (simp add: middle_ok_def n)
qed

lemma nickname_middle:
  assumes "IsNickname E n = Some True" "hd n \<noteq> CHR '':''"
  shows "middle_ok n"
proof -
  have "CHR '' '' \<notin> set n"
    using nickname_expr_char [OF IsNickname_True(3) [OF assms(1)], of "CHR '' ''"] by auto
  with IsNickname_True(2) [OF assms(1)] assms(2) show ?thesis by (simp add: middle_ok_def)
qed

section \<open>The handler\<close>

lemma client_str_note:
  "client_id_string (note_activity c cmd w) d = client_id_string w d"
  "w_out (note_activity c cmd w) = w_out w" "w_chans (note_activity c cmd w) = w_chans w"
  "srv_channels (note_activity c cmd w) = srv_channels w" "srv_nicks (note_activity c cmd w) = srv_nicks w"
  "c_modes (cl (note_activity c cmd w) d) = c_modes (cl w d)" "c_nick (cl (note_activity c cmd w) d) = c_nick (cl w d)"
  "c_hasQuit (cl (note_activity c cmd w) d) = c_hasQuit (cl w d)"
  "c_socket_closed (cl (note_activity c cmd w) d) = c_socket_closed (cl w d)"
  by (simp_all add: note_activity_def Touch_def Active_def client_id_string_def UserHost_def split: Command.split)

context go_env_laws begin

lemma reachable_names:
  assumes "reachable E w"
  shows "d < w_next_client w \<Longrightarrow> c_nick (cl w d) \<noteq> [] \<Longrightarrow> IsNickname E (c_nick (cl w d)) = Some True"
    and "get_channel E w n = Some ch \<Longrightarrow> IsChannel E (chan_str w ch)"
proof -
  have i: "inv E (\<lambda>_. UNIV) {} w" by (rule reachable_inv [OF assms])
  then show "d < w_next_client w \<Longrightarrow> c_nick (cl w d) \<noteq> [] \<Longrightarrow> IsNickname E (c_nick (cl w d)) = Some True"
    by (auto simp: inv_def client_ok_def)
  show "get_channel E w n = Some ch \<Longrightarrow> IsChannel E (chan_str w ch)"
    using i chan_inv_named [of E "{}" w n ch] by (simp add: inv_def)
qed

lemma privmsg_line:
  assumes "c_registered (cl w c)" "ParseCommand E line = (code, Inr (PrivMsgCommand target msg))"
  shows "\<exists>u. handle_line E c line w = Ret (HandleServer_PrivMsg E c target msg u) \<and> w_out u = w_out w \<and>
    w_chans u = w_chans w \<and> srv_channels u = srv_channels w \<and> srv_nicks u = srv_nicks w \<and>
    (\<forall>d. client_id_string u d = client_id_string w d \<and> c_modes (cl u d) = c_modes (cl w d) \<and>
      c_nick (cl u d) = c_nick (cl w d) \<and> c_hasQuit (cl u d) = c_hasQuit (cl w d) \<and>
      c_socket_closed (cl u d) = c_socket_closed (cl w d))"
proof -
  let ?u = "note_activity c (PrivMsgCommand target msg) (w\<lparr>w_commands := w_commands w + 1\<rparr>)"
  have "handle_line E c line w = Ret (HandleServer_PrivMsg E c target msg ?u)"
    using assms by (simp add: handle_line_def check_password_def processCommand_def HandleServer_def)
  then show ?thesis
    by (intro exI [of _ ?u]) (simp add: client_str_note, simp add: client_id_string_def UserHost_def)
qed

lemma channel_message_law:
  assumes r: "reachable E w" and c: "c_registered (cl w c)"
    and line: "ParseCommand E line = (code, Inr (PrivMsgCommand target msg))"
    and ch: "IsChannel E target" "get_channel E w target = Some ch" "channel_can_speak E w ch c"
  shows "\<exists>w' ds. handle_line E c line w = Ret w' \<and> distinct ds \<and> set ds = {d. is_member E w ch d \<and> d \<noteq> c} \<and>
    w_out w' = w_out w @ map (\<lambda>d. (d, RplPrivMsg (client_id_string w c) (chan_str w ch) msg)) ds \<and>
    (\<forall>d. c_socket_closed (cl w' d) = c_socket_closed (cl w d))"
proof -
  obtain u where u: "handle_line E c line w = Ret (HandleServer_PrivMsg E c target msg u)" "w_out u = w_out w"
    "w_chans u = w_chans w" "srv_channels u = srv_channels w" "srv_nicks u = srv_nicks w"
    "\<And>d. client_id_string u d = client_id_string w d" "\<And>d. c_modes (cl u d) = c_modes (cl w d)"
    "\<And>d. c_hasQuit (cl u d) = c_hasQuit (cl w d)" "\<And>d. c_socket_closed (cl u d) = c_socket_closed (cl w d)"
    using privmsg_line [OF c line] by blast
  let ?reply = "RplPrivMsg (client_id_string w c) (chan_str w ch) msg"
  have "channel_can_speak E u ch c"
    using ch(3) unfolding channel_can_speak_def ClientIsOperator_def by (simp only: u)
  moreover have "HandleServer_PrivMsg E c target msg u = channel_PrivMsg E ch c msg u"
    using ch(1,2) u(4) by (simp add: HandleServer_PrivMsg_def get_channel_def)
  ultimately obtain ds where ds: "distinct ds" "set ds = {d. is_member E w ch d \<and> d \<noteq> c \<and> \<not> c_hasQuit (cl w d)}"
    "w_out (HandleServer_PrivMsg E c target msg u) = w_out w @ map (\<lambda>d. (d, ?reply)) ds"
    using channel_message_delivery_law [of u ch c msg] by (auto simp: u)
  have i: "chan_inv E {} w" using reachable_inv [OF r] by (simp add: inv_def)
  have "ch < w_next_chan w" using chan_inv_named [OF i ch(2)] by simp
  then have "\<not> c_hasQuit (cl w d)" if "is_member E w ch d" for d
    using chan_inv_member [OF i _ that] by (simp add: alive_def)
  then have "set ds = {d. is_member E w ch d \<and> d \<noteq> c}" using ds(2) by auto
  moreover have "c_socket_closed (cl (HandleServer_PrivMsg E c target msg u) d) = c_socket_closed (cl w d)" for d
    unfolding core_clients [OF core_PrivMsg] by (rule u(9))
  ultimately show ?thesis using u(1) ds(1,3) by blast
qed

lemma privmsg_misread:
  assumes "CHR '' '' \<notin> set (client_id_string w c)" "hd tgt = CHR '':''" "tgt \<noteq> []"
  shows "snd (ParseLine E (RplPrivMsg (client_id_string w c) tgt msg)) = [tl tgt @ '' :'' @ msg]"
proof -
  obtain n where "tgt = CHR '':'' # n" using assms(2,3) by (cases tgt) simp_all
  with parse_line_law [of "client_id_string w c" "''PRIVMSG''" "[]" E "n @ '' :'' @ msg"] assms(1) show ?thesis
    by (simp add: RplPrivMsg_line middle_ok_def)
qed

lemma direct_message_law:
  assumes r: "reachable E w" and c: "c_registered (cl w c)" "\<not> c_hasQuit (cl w c)"
    and line: "ParseCommand E line = (code, Inr (PrivMsgCommand target msg))"
    and d: "\<not> IsChannel E target" "nick_get E w target = Some d" "client_can_speak E w c d"
  shows "\<exists>w' rest. handle_line E c line w = Ret w' \<and>
    w_out w' = w_out w @ (d, RplPrivMsg (client_id_string w c) (c_nick (cl w d)) msg) # rest \<and> fst ` set rest \<subseteq> {c}"
proof -
  obtain u where u: "handle_line E c line w = Ret (HandleServer_PrivMsg E c target msg u)" "w_out u = w_out w"
    "srv_nicks u = srv_nicks w" "\<And>d. client_id_string u d = client_id_string w d"
    "\<And>d. c_modes (cl u d) = c_modes (cl w d)" "\<And>d. c_nick (cl u d) = c_nick (cl w d)"
    "\<And>d. c_hasQuit (cl u d) = c_hasQuit (cl w d)"
    using privmsg_line [OF c(1) line] by blast
  have "nick_inv E w" using reachable_inv [OF r] by (simp add: inv_def)
  then have dd: "d < w_next_client w" "\<not> c_hasQuit (cl w d)" "c_nick (cl w d) \<noteq> []"
    using d(2) by (simp_all add: nick_inv_get alive_def)
  let ?reply = "RplPrivMsg (client_id_string w c) (c_nick (cl w d)) msg"
  define w1 where "w1 = Reply d ?reply (count_message u)"
  have "w_out w1 = w_out w @ [(d, ?reply)]" using dd(2) by (simp add: w1_def Reply_def count_message_def u)
  moreover have "HandleServer_PrivMsg E c target msg u = (if has_mode E w1 d Away then RplAway c d w1 else w1)"
    using d dd(3)
    by (simp add: HandleServer_PrivMsg_def nick_get_def client_can_speak_def u w1_def Let_def Nick_def HasNick_def)
  moreover have "\<exists>s. w_out (RplAway c d w1) = w_out w1 @ [(c, s)]"
    using c(2) by (simp add: RplAway_def NumericReply_def Reply_def w1_def u count_message_def)
  ultimately obtain rest where "w_out (HandleServer_PrivMsg E c target msg u) = w_out w @ (d, ?reply) # rest"
    "fst ` set rest \<subseteq> {c}"
    by (cases "has_mode E w1 d Away") fastforce+
  then show ?thesis using u(1) by blast
qed

text \<open>What the receivers read.\<close>

lemma channel_message_read:
  assumes "reachable E w" "get_channel E w target = Some ch" "CHR '' '' \<notin> set (client_id_string w c)"
  shows "ParseLine E (RplPrivMsg (client_id_string w c) (chan_str w ch) msg) =
    (NewName E (to_upper E ''PRIVMSG''), [chan_str w ch, msg])"
  by (rule relayed_privmsg_reads_back [OF assms(3) channel_middle [OF reachable_names(2) [OF assms(1,2)]]])

lemma direct_message_read:
  assumes r: "reachable E w" and d: "nick_get E w target = Some d" and src: "CHR '' '' \<notin> set (client_id_string w c)"
  shows "ParseLine E (RplPrivMsg (client_id_string w c) (c_nick (cl w d)) msg) =
      (NewName E (to_upper E ''PRIVMSG''), [c_nick (cl w d), msg]) \<longleftrightarrow> hd (c_nick (cl w d)) \<noteq> CHR '':''"
proof -
  have "nick_inv E w" using reachable_inv [OF r] by (simp add: inv_def)
  then have nick: "d < w_next_client w" "c_nick (cl w d) \<noteq> []" using d by (simp_all add: nick_inv_get alive_def)
  show ?thesis
  proof (cases "hd (c_nick (cl w d)) = CHR '':''")
    case True
    from privmsg_misread [OF src True nick(2)] True show ?thesis by (auto simp: prod_eq_iff)
  next
    case False
    from relayed_privmsg_reads_back [OF src nickname_middle [OF reachable_names(1) [OF r nick] False]] False
    show ?thesis by simp
  qed
qed

text \<open>The goroutine that handles the line waits for every other member.\<close>

lemma channel_message_waits_law:
  assumes "reachable E w" "c_registered (cl w c)" "ParseCommand E line = (code, Inr (PrivMsgCommand target msg))"
    and "IsChannel E target" "get_channel E w target = Some ch" "channel_can_speak E w ch c"
  shows "goroutine P (handle_line E c line) w =
    (if \<forall>d. is_member E w ch d \<and> d \<noteq> c \<longrightarrow> takes_lines P d then handle_line E c line w else Blocked)"
proof -
  obtain w' ds where w': "handle_line E c line w = Ret w'" "set ds = {d. is_member E w ch d \<and> d \<noteq> c}"
    "w_out w' = w_out w @ map (\<lambda>d. (d, RplPrivMsg (client_id_string w c) (chan_str w ch) msg)) ds"
    "\<And>d. c_socket_closed (cl w' d) = c_socket_closed (cl w d)"
    using channel_message_law [OF assms] by blast
  have "newly_closed w w' = []" by (simp add: newly_closed_def w'(4) filter_empty_conv)
  moreover have "set (sent_to w w') = {d. is_member E w ch d \<and> d \<noteq> c}"
    using w'(2) by (simp add: sent_to_def w'(3) comp_def)
  ultimately have "must_wait P w w' \<longleftrightarrow> \<not> (\<forall>d. is_member E w ch d \<and> d \<noteq> c \<longrightarrow> takes_lines P d)"
    by (auto simp: must_wait_def list_ex_iff)
  then show ?thesis by (simp add: goroutine_def w'(1))
qed

end

section \<open>The session\<close>


text \<open>C10: in every reachable state the nick of a client is a valid nick, without spaces, masks and prefixes,
  and what a name of a channel finds is called by a valid name of a channel, which can stand as an
  argument of a line.\<close>

theorem names_valid:
  assumes "go_env_laws E" "reachable E w"
  shows "(\<forall>d < w_next_client w. c_nick (cl w d) \<noteq> [] \<longrightarrow>
      IsNickname E (c_nick (cl w d)) = Some True \<and> CHR '' '' \<notin> set (c_nick (cl w d))) \<and>
    (\<forall>n ch. get_channel E w n = Some ch \<longrightarrow> IsChannel E (chan_str w ch) \<and> middle_ok (chan_str w ch))"
proof -
  have "CHR '' '' \<notin> set n" if "IsNickname E n = Some True" for n
    using nickname_expr_char [OF IsNickname_True(3) [OF that], of "CHR '' ''"] by auto
  with go_env_laws.reachable_names [OF assms] channel_middle show ?thesis by blast
qed



theorem names_valid_witness:
  "\<exists>w. reachable list_env w \<and> get_channel list_env w ''#c'' = Some 0 \<and> middle_ok (chan_str w 0)"
proof -
  obtain w where w: "reachable list_env w" "core w = core session_world" using session by blast
  have "get_channel list_env w ''#c'' = Some 0" using session_simps [OF w(2)] by (simp add: get_channel_def)
  with names_valid [OF list_env_laws w(1)] w(1) show ?thesis by blast
qed




end
