(* ===== verification/Connection.thy ===== *)
theory Connection
  imports Demo
begin

text \<open>
  The goroutines of one connection (client.go and socket.go): the read loop, the write loop, the
  goroutines that reply to the client, and those that end it, that is its own read loop, its quit
  timer, or the read loop of an operator that sends KILL. They share the flag \<open>hasQuit\<close>, the channel
  \<open>replies\<close>, which has no buffer, and the lock \<open>closedMutex\<close> of the socket. \<open>Read\<close> holds this lock for
  reading while it waits for its peer, and \<open>Close\<close> takes it for writing.

  A \<open>thread\<close> is what a goroutine does next, a \<open>turn\<close> lets one of them go on or lets the peer act. A
  thread that has to wait stays where it is.
\<close>

section \<open>Threads\<close>

text \<open>
  \<open>Rd\<close> is \<open>readloop\<close> with \<open>Socket.Read\<close>: it calls \<open>RLock\<close>, scans with the lock held, handles the
  line. \<open>Wr\<close> is \<open>writeloop\<close> with \<open>Socket.Write\<close>. \<open>Rep\<close> is \<open>Client.Reply\<close>. \<open>Quit\<close> is \<open>Client.Quit\<close> with the
  end of \<open>destroy\<close>: test and set the flag, close the channel, wait in \<open>Socket.Close\<close> for the lock, tell
  the friends; its argument says whether the goroutine is a read loop that goes on.
\<close>

datatype thread =
    Rd_call
  | Rd_scan
  | Rd_handle string
  | Wr_receive
  | Wr_call string
  | Wr_write string
  | Rep_test string
  | Rep_send string
  | Quit_begin bool
  | Quit_flag bool
  | Quit_close bool
  | Quit_call bool
  | Quit_lock bool
  | Quit_tell bool
  | Gone

text \<open>
  \<open>k_input\<close> holds the lines that have arrived, \<open>k_ended\<close> says that the peer has ended the connection,
  \<open>k_room\<close> how many more lines it takes before a write has to wait. \<open>k_told\<close> counts how often the
  friends were told.
\<close>

record conn =
  k_hasQuit :: bool
  k_replies_closed :: bool
  k_closed :: bool
  k_input :: "string list"
  k_ended :: bool
  k_room :: nat
  k_written :: "string list"
  k_told :: nat

definition holds_lock :: "thread \<Rightarrow> bool" where
  "holds_lock t \<longleftrightarrow> t = Rd_scan \<or> (case t of Wr_write _ \<Rightarrow> True | _ \<Rightarrow> False)"

text \<open>A goroutine that waits in \<open>Lock\<close> keeps others from \<open>RLock\<close> (the documentation of \<open>sync.RWMutex\<close>).\<close>

definition waits_lock :: "thread \<Rightarrow> bool" where
  "waits_lock t \<longleftrightarrow> t \<in> {Quit_lock False, Quit_lock True}"

definition after_quit :: "bool \<Rightarrow> thread" where
  "after_quit reads = (if reads then Rd_call else Gone)"

definition is_receiver :: "thread \<Rightarrow> bool" where
  "is_receiver t \<longleftrightarrow> t = Wr_receive"

text \<open>The first thread that receives from \<open>replies\<close>, if there is one.\<close>

fun receiver :: "thread list \<Rightarrow> nat option" where
  "receiver [] = None"
| "receiver (t # ts) = (if is_receiver t then Some 0 else map_option Suc (receiver ts))"

text \<open>One step of each kind of goroutine; thread \<open>i\<close> is the one whose turn it is. First \<open>Read\<close> in \<open>readloop\<close>,
  which goes on scanning, with the lock still held, after an empty line.\<close>

definition read_step ::
  "'z text_env_scheme \<Rightarrow> nat \<Rightarrow> thread list \<Rightarrow> conn \<Rightarrow> (thread list \<times> conn) outcome" where
  "read_step E i ts k =
     (case ts ! i of
        Rd_call \<Rightarrow>
          if list_ex waits_lock ts then Ret (ts, k)
          else Ret (ts[i := if k_closed k then Quit_begin False else Rd_scan], k)
      | Rd_scan \<Rightarrow>
          (case k_input k of
             l # ls \<Rightarrow> Ret (if l = [] then ts else ts[i := Rd_handle l], k\<lparr>k_input := ls\<rparr>)
           | [] \<Rightarrow> if k_ended k then Ret (ts[i := Quit_begin False], k) else Ret (ts, k))
      | Rd_handle line \<Rightarrow>
          Ret (ts[i := case ParseCommand E line of (_, Inr (QuitCommand _)) \<Rightarrow> Quit_begin True | _ \<Rightarrow> Rd_call], k)
      | _ \<Rightarrow> Ret (ts, k))"

text \<open>\<open>Write\<close> in \<open>writeloop\<close>, which ignores its errors.\<close>

definition write_step :: "nat \<Rightarrow> thread list \<Rightarrow> conn \<Rightarrow> (thread list \<times> conn) outcome" where
  "write_step i ts k =
     (case ts ! i of
        Wr_receive \<Rightarrow> Ret (if k_replies_closed k then ts[i := Gone] else ts, k)
      | Wr_call r \<Rightarrow>
          if list_ex waits_lock ts then Ret (ts, k)
          else Ret (ts[i := if k_closed k then Wr_receive else Wr_write r], k)
      | Wr_write r \<Rightarrow>
          if k_ended k then Ret (ts[i := Wr_receive], k)
          else if k_room k = 0 then Ret (ts, k)
          else Ret (ts[i := Wr_receive], k\<lparr>k_room := k_room k - 1, k_written := k_written k @ [r]\<rparr>)
      | _ \<Rightarrow> Ret (ts, k))"

text \<open>
  \<open>Client.Reply\<close>. The channel has no buffer, so a reply is handed over to the write loop or not at
  all; sending on a closed channel panics; an empty reply ends the write loop.
\<close>

definition reply_step :: "nat \<Rightarrow> thread list \<Rightarrow> conn \<Rightarrow> (thread list \<times> conn) outcome" where
  "reply_step i ts k =
     (case ts ! i of
        Rep_test r \<Rightarrow> Ret (ts[i := if k_hasQuit k then Gone else Rep_send r], k)
      | Rep_send r \<Rightarrow>
          if k_replies_closed k then Panic
          else (case receiver ts of
                  None \<Rightarrow> Ret (ts, k)
                | Some j \<Rightarrow> Ret (ts[i := Gone, j := if r = [] then Gone else Wr_call r], k))
      | _ \<Rightarrow> Ret (ts, k))"

text \<open>\<open>Socket.Close\<close>, from the call of \<open>Lock\<close> to its end; nothing can come between what it does with the lock.\<close>

definition close_step :: "bool \<Rightarrow> nat \<Rightarrow> thread list \<Rightarrow> conn \<Rightarrow> (thread list \<times> conn) outcome" where
  "close_step b i ts k =
     (if list_ex holds_lock ts then Ret (ts, k) else Ret (ts[i := Quit_tell b], k\<lparr>k_closed := True\<rparr>))"

text \<open>\<open>Client.Quit\<close>: the test and the setting of the flag, the end of \<open>destroy\<close>, and the telling of the friends.\<close>

definition quit_step :: "nat \<Rightarrow> thread list \<Rightarrow> conn \<Rightarrow> (thread list \<times> conn) outcome" where
  "quit_step i ts k =
     (case ts ! i of
        Quit_begin b \<Rightarrow> Ret (ts[i := if k_hasQuit k then after_quit b else Quit_flag b], k)
      | Quit_flag b \<Rightarrow> Ret (ts[i := Quit_close b], k\<lparr>k_hasQuit := True\<rparr>)
      | Quit_close b \<Rightarrow>
          if k_replies_closed k then Panic else Ret (ts[i := Quit_call b], k\<lparr>k_replies_closed := True\<rparr>)
      | Quit_call b \<Rightarrow> Ret (ts[i := Quit_lock b], k)
      | Quit_lock b \<Rightarrow> close_step b i ts k
      | Quit_tell b \<Rightarrow> Ret (ts[i := after_quit b], k\<lparr>k_told := k_told k + 1\<rparr>)
      | _ \<Rightarrow> Ret (ts, k))"

definition thread_step ::
  "'z text_env_scheme \<Rightarrow> nat \<Rightarrow> thread list \<Rightarrow> conn \<Rightarrow> (thread list \<times> conn) outcome" where
  "thread_step E i ts k =
     (case ts ! i of
        Rd_call \<Rightarrow> read_step E i ts k
      | Rd_scan \<Rightarrow> read_step E i ts k
      | Rd_handle _ \<Rightarrow> read_step E i ts k
      | Wr_receive \<Rightarrow> write_step i ts k
      | Wr_call _ \<Rightarrow> write_step i ts k
      | Wr_write _ \<Rightarrow> write_step i ts k
      | Rep_test _ \<Rightarrow> reply_step i ts k
      | Rep_send _ \<Rightarrow> reply_step i ts k
      | Gone \<Rightarrow> Ret (ts, k)
      | _ \<Rightarrow> quit_step i ts k)"

lemmas step_defs = thread_step_def read_step_def write_step_def reply_step_def quit_step_def close_step_def

datatype turn = Thread nat | Peer_sends string | Peer_ends | Peer_takes

fun take_turn :: "'z text_env_scheme \<Rightarrow> turn \<Rightarrow> thread list \<times> conn \<Rightarrow> (thread list \<times> conn) outcome" where
  "take_turn E (Thread i) (ts, k) = (if i < length ts then thread_step E i ts k else Ret (ts, k))"
| "take_turn E (Peer_sends l) (ts, k) = Ret (ts, k\<lparr>k_input := k_input k @ [l]\<rparr>)"
| "take_turn E Peer_ends (ts, k) = Ret (ts, k\<lparr>k_ended := True\<rparr>)"
| "take_turn E Peer_takes (ts, k) = Ret (ts, k\<lparr>k_room := k_room k + 1\<rparr>)"

definition take_turns :: "'z text_env_scheme \<Rightarrow> turn list \<Rightarrow> thread list \<times> conn \<Rightarrow> (thread list \<times> conn) outcome" where
  "take_turns E = iterate (take_turn E)"

lemma take_turns_simps [simp]:
  "take_turns E [] s = Ret s" "take_turns E (x # xs) s = and_then (take_turn E x s) (take_turns E xs)"
  by (simp_all add: take_turns_def)

lemma turns_append: "take_turns E (xs @ ys) s = and_then (take_turns E xs s) (take_turns E ys)"
proof (induction xs arbitrary: s)
  case (Cons x xs)
  then show ?case by (cases "take_turn E x s") simp_all
qed simp

lemma receiver_Some: "receiver ts = Some j \<Longrightarrow> j < length ts \<and> ts ! j = Wr_receive"
  by (induction ts arbitrary: j) (auto simp: is_receiver_def split: if_splits)

lemma set_update: "t \<in> set (ts[i := u]) \<Longrightarrow> t = u \<or> t \<in> set ts"
  using set_update_subset_insert by fastforce

section \<open>A peer that is silent\<close>

text \<open>While thread \<open>i\<close> waits for a line and none comes, or only empty ones, nobody gets the lock.\<close>

definition empty_lines :: "string list \<Rightarrow> bool" where
  "empty_lines ls \<longleftrightarrow> list_all (\<lambda>l. l = []) ls"

lemma empty_lines_simps [simp]:
  "empty_lines []" "empty_lines (l # ls) \<longleftrightarrow> l = [] \<and> empty_lines ls"
  "empty_lines (ls @ ms) \<longleftrightarrow> empty_lines ls \<and> empty_lines ms"
  by (simp_all add: empty_lines_def)

definition waiting :: "nat \<Rightarrow> nat \<Rightarrow> thread list \<times> conn \<Rightarrow> bool" where
  "waiting i n s \<longleftrightarrow> (case s of (ts, k) \<Rightarrow>
     i < length ts \<and> ts ! i = Rd_scan \<and> empty_lines (k_input k) \<and> \<not> k_ended k \<and> \<not> k_closed k \<and> k_told k = n \<and>
     Quit_tell False \<notin> set ts \<and> Quit_tell True \<notin> set ts)"

lemma waiting_other:
  assumes "waiting i n (ts, k)" "j \<noteq> i" "u \<notin> {Quit_tell False, Quit_tell True}"
    and "empty_lines (k_input k')" "k_ended k' = k_ended k" "k_closed k' = k_closed k" "k_told k' = k_told k"
  shows "waiting i n (ts[j := u], k')"
  using assms by (auto simp: waiting_def dest: set_update)

lemma waiting_step:
  assumes w: "waiting i n (ts, k)" and j: "j < length ts"
  shows "on_ret (waiting i n) (thread_step E j ts k)"
proof (cases "j = i")
  case True
  with w show ?thesis by (auto simp: step_defs waiting_def split: list.split)
next
  case other: False
  note upd = waiting_other [OF w other]
  have "Rd_scan \<in> set ts" using w by (auto simp: waiting_def in_set_conv_nth)
  then have no: "list_ex holds_lock ts" by (auto simp: list_ex_iff holds_lock_def)
  have closed: "\<not> k_closed k" "empty_lines (k_input k)" using w by (simp_all add: waiting_def)
  have send: "waiting i n (ts[j := Gone, m := u], k)" if "receiver ts = Some m" "u \<notin> {Quit_tell False, Quit_tell True}" for m u
  proof -
    have "m \<noteq> i" using receiver_Some [OF that(1)] w by (auto simp: waiting_def)
    from waiting_other [OF upd [of Gone k] this that(2)] closed(2) show ?thesis by simp
  qed
  have rest: "waiting i n (ts, k\<lparr>k_input := ls\<rparr>)" if "empty_lines ls" for ls
    using w that by (simp add: waiting_def)
  have "ts ! j \<in> set ts" using j by simp
  then have "ts ! j \<noteq> Quit_tell b" for b using w by (cases b) (auto simp: waiting_def)
  then show ?thesis
    using w upd send no closed rest
    by (cases "ts ! j")
      (auto simp: step_defs after_quit_def split: list.split option.split prod.split sum.split Command.split)
qed

lemma waiting_turns:
  assumes "waiting i n s" "\<forall>x \<in> set xs. x \<noteq> Peer_ends \<and> (\<forall>l. x = Peer_sends l \<longrightarrow> l = [])"
  shows "on_ret (waiting i n) (take_turns E xs s)"
  unfolding take_turns_def
proof (rule on_ret_iterate)
  show "waiting i n s" by (rule assms(1))
next
  fix x and s :: "thread list \<times> conn" assume x: "x \<in> set xs" and w: "waiting i n s"
  obtain ts k where s: "s = (ts, k)" by force
  show "on_ret (waiting i n) (take_turn E x s)"
    using w assms(2) x waiting_step [of i n ts k _ E] by (cases x) (auto simp: s waiting_def)
qed

text \<open>A line of the peer lets the goroutine that ends the connection go on.\<close>

lemma released_by_line:
  assumes i: "i < length ts" "ts ! i = Rd_scan" and q: "q < length ts" "ts ! q = Quit_lock b"
    and alone: "\<forall>j < length ts. holds_lock (ts ! j) \<longrightarrow> j = i" and empty: "k_input k = []" and l: "l \<noteq> []"
  shows "\<exists>ts' k'. take_turns E [Peer_sends l, Thread i, Thread q, Thread q] (ts, k) = Ret (ts', k') \<and>
    k_closed k' \<and> k_told k' = k_told k + 1"
proof -
  let ?ts = "ts[i := Rd_handle l]" and ?k = "k\<lparr>k_input := []\<rparr>"
  have iq: "i \<noteq> q" using i q by auto
  have line: "take_turns E [Peer_sends l, Thread i] (ts, k) = Ret (?ts, ?k)"
    using i empty l by (simp add: step_defs)
  have free: "\<not> list_ex holds_lock ?ts"
  proof
    assume "list_ex holds_lock ?ts"
    then obtain j where j: "j < length ?ts" "holds_lock (?ts ! j)" by (metis list_ex_iff in_set_conv_nth)
    then have "j = i" using alone by (cases "j = i") auto
    with j i show False by (simp add: holds_lock_def)
  qed
  have "take_turns E [Thread q, Thread q] (?ts, ?k) =
      Ret (?ts[q := Quit_tell b, q := after_quit b], ?k\<lparr>k_closed := True, k_told := k_told k + 1\<rparr>)"
    using q iq free by (simp add: step_defs)
  then have "take_turns E ([Peer_sends l, Thread i] @ [Thread q, Thread q]) (ts, k) =
      Ret (?ts[q := Quit_tell b, q := after_quit b], ?k\<lparr>k_closed := True, k_told := k_told k + 1\<rparr>)"
    unfolding turns_append line and_then.simps .
  then show ?thesis by (simp del: take_turns_simps)
qed

text \<open>C14: as long as the read loop of a client waits for a line and the peer sends nothing but empty lines
  and does not end the connection, no order of the other goroutines closes its socket or tells its
  friends, whoever ends it: a quit timer and a KILL wait in \<open>Socket.Close\<close> for the lock that
  \<open>Socket.Read\<close> holds. When nobody else holds it and no line is pending, the next line that is not empty
  lets the quit go through.\<close>

theorem quit_waits_for_peer:
  assumes "i < length ts" "ts ! i = Rd_scan" "empty_lines (k_input k)" "\<not> k_ended k" "\<not> k_closed k"
    and "Quit_tell False \<notin> set ts" "Quit_tell True \<notin> set ts"
  shows "(\<forall>turns ts' k'. (\<forall>x \<in> set turns. x \<noteq> Peer_ends \<and> (\<forall>l. x = Peer_sends l \<longrightarrow> l = [])) \<longrightarrow>
      take_turns E turns (ts, k) = Ret (ts', k') \<longrightarrow>
      ts' ! i = Rd_scan \<and> \<not> k_closed k' \<and> k_told k' = k_told k) \<and>
    (\<forall>q b l. q < length ts \<and> ts ! q = Quit_lock b \<and> (\<forall>j < length ts. holds_lock (ts ! j) \<longrightarrow> j = i) \<and>
        k_input k = [] \<and> l \<noteq> [] \<longrightarrow>
      (\<exists>ts' k'. take_turns E [Peer_sends l, Thread i, Thread q, Thread q] (ts, k) = Ret (ts', k') \<and>
        k_closed k' \<and> k_told k' = k_told k + 1))"
proof (intro conjI allI impI)
  fix turns ts' k'
  assume "\<forall>x \<in> set turns. x \<noteq> Peer_ends \<and> (\<forall>l. x = Peer_sends l \<longrightarrow> l = [])" "take_turns E turns (ts, k) = Ret (ts', k')"
  moreover have "waiting i (k_told k) (ts, k)" using assms by (simp add: waiting_def)
  ultimately have "waiting i (k_told k) (ts', k')" using waiting_turns [of i "k_told k" "(ts, k)" turns E] by simp
  then show "ts' ! i = Rd_scan" "\<not> k_closed k'" "k_told k' = k_told k" by (simp_all add: waiting_def)
next
  fix q b and l :: string
  assume "q < length ts \<and> ts ! q = Quit_lock b \<and> (\<forall>j < length ts. holds_lock (ts ! j) \<longrightarrow> j = i) \<and>
    k_input k = [] \<and> l \<noteq> []"
  with released_by_line [OF assms(1,2), of q b k l E]
  show "\<exists>ts' k'. take_turns E [Peer_sends l, Thread i, Thread q, Thread q] (ts, k) = Ret (ts', k') \<and>
      k_closed k' \<and> k_told k' = k_told k + 1" by simp
qed

section \<open>A peer that does not read\<close>

text \<open>
  Thread \<open>w\<close> is the write loop, in a write that the peer does not take, and thread \<open>s\<close> has a reply for
  it; nobody else receives replies.
\<close>

definition is_writer :: "thread \<Rightarrow> bool" where
  "is_writer t \<longleftrightarrow> (case t of Wr_receive \<Rightarrow> True | Wr_call _ \<Rightarrow> True | Wr_write _ \<Rightarrow> True | _ \<Rightarrow> False)"

definition clogged :: "nat \<Rightarrow> nat \<Rightarrow> string \<Rightarrow> string list \<Rightarrow> thread list \<times> conn \<Rightarrow> bool" where
  "clogged s w r sent st \<longleftrightarrow> (case st of (ts, k) \<Rightarrow>
     s < length ts \<and> w < length ts \<and> ts ! s = Rep_send r \<and> (\<exists>x. ts ! w = Wr_write x) \<and>
     k_room k = 0 \<and> \<not> k_ended k \<and> k_written k = sent \<and>
     (\<forall>j < length ts. j \<noteq> w \<longrightarrow> \<not> is_writer (ts ! j)))"

lemma clogged_upd:
  assumes "clogged s w r sent (ts, k)" "j \<noteq> s" "j \<noteq> w"
    and "\<not> is_writer u"
    and "k_room k' = k_room k" "k_ended k' = k_ended k" "k_written k' = k_written k"
  shows "clogged s w r sent (ts[j := u], k')"
  using assms by (cases "j < length ts") (auto simp: clogged_def nth_list_update)

lemma clogged_step:
  assumes c: "clogged s w r sent (ts, k)" and j: "j < length ts"
  shows "on_ret (clogged s w r sent) (thread_step E j ts k)"
proof -
  have full: "k_room k = 0" "\<not> k_ended k" using c by (simp_all add: clogged_def)
  have none: "receiver ts = None"
  proof (rule ccontr)
    assume "receiver ts \<noteq> None"
    then obtain m where "m < length ts" "ts ! m = Wr_receive" using receiver_Some by blast
    moreover from this have "m \<noteq> w" using c by (auto simp: clogged_def)
    ultimately show False using c by (force simp: clogged_def is_writer_def)
  qed
  show ?thesis
  proof (cases "j = s \<or> j = w")
    case True
    then show ?thesis using c full none by (auto simp: step_defs clogged_def)
  next
    case False
    note upd = clogged_upd [OF c, of j] and other = c [unfolded clogged_def]
    have "\<not> is_writer (ts ! j)"
      using other j False by simp
    moreover have "clogged s w r sent (ts, k\<lparr>k_input := ls\<rparr>)" for ls
      using c by (simp add: clogged_def)
    ultimately show ?thesis
      using c upd False none
      by (cases "ts ! j")
        (auto simp: step_defs after_quit_def is_writer_def split: list.split prod.split sum.split Command.split)
  qed
qed

lemma clogged_turns:
  assumes "clogged s w r sent st" "\<forall>x \<in> set xs. x \<noteq> Peer_ends \<and> x \<noteq> Peer_takes"
  shows "on_ret (clogged s w r sent) (take_turns E xs st)"
  unfolding take_turns_def
proof (rule on_ret_iterate)
  show "clogged s w r sent st" by (rule assms(1))
next
  fix x and st :: "thread list \<times> conn" assume x: "x \<in> set xs" and c: "clogged s w r sent st"
  obtain ts k where s: "st = (ts, k)" by force
  show "on_ret (clogged s w r sent) (take_turn E x st)"
    using c assms(2) x clogged_step [of s w r sent ts k _ E] by (cases x) (auto simp: s clogged_def)
qed

lemma step_not_blocked: "thread_step E i ts k \<noteq> Blocked"
  by (auto simp: step_defs split: thread.splits list.split option.split prod.split sum.split Command.split)

lemma turns_not_blocked: "take_turns E xs s \<noteq> Blocked"
proof (induction xs arbitrary: s)
  case (Cons x xs)
  obtain ts k where "s = (ts, k)" by force
  then have "take_turn E x s \<noteq> Blocked" by (cases x) (simp_all add: step_not_blocked)
  with Cons show ?case by (cases "take_turn E x s") simp_all
qed simp

text \<open>C25: the channel of replies has no buffer: while a client does not read what its write loop has
  written, a goroutine that replies to it (the read loop of another client that speaks in the same
  channel, or the main loop with a PING) does not get past \<open>Reply\<close>, in whatever order the goroutines go
  on: either it still stands there and nothing more is written, or the process has panicked. The
  latter happens if the client is ended in the meantime, by its quit timer or a KILL, for this closes
  the channel under the sender.\<close>

theorem slow_reader_blocks_senders:
  assumes "s < length ts" "w < length ts" "ts ! s = Rep_send r" "ts ! w = Wr_write x"
    and "k_room k = 0" "\<not> k_ended k"
    and "\<forall>j < length ts. j \<noteq> w \<longrightarrow> \<not> is_writer (ts ! j)"
    and "\<forall>y \<in> set turns. y \<noteq> Peer_ends \<and> y \<noteq> Peer_takes"
  shows "(case take_turns E turns (ts, k) of
        Ret (ts', k') \<Rightarrow> ts' ! s = Rep_send r \<and> k_written k' = k_written k
      | Panic \<Rightarrow> True
      | Blocked \<Rightarrow> False) \<and>
    (\<forall>q b. q < length ts \<and> ts ! q = Quit_begin b \<and> \<not> k_hasQuit k \<and> \<not> k_replies_closed k \<longrightarrow>
      take_turns E [Thread q, Thread q, Thread q, Thread s] (ts, k) = Panic)"
proof (intro conjI allI impI)
  have "clogged s w r (k_written k) (ts, k)" using assms(1-7) by (simp add: clogged_def)
  from clogged_turns [OF this assms(8), of E]
  show "case take_turns E turns (ts, k) of
        Ret (ts', k') \<Rightarrow> ts' ! s = Rep_send r \<and> k_written k' = k_written k
      | Panic \<Rightarrow> True
      | Blocked \<Rightarrow> False"
    using turns_not_blocked [of E turns "(ts, k)"]
    by (auto simp: clogged_def simp del: take_turns_simps split: outcome.split)
next
  fix q b
  assume q: "q < length ts \<and> ts ! q = Quit_begin b \<and> \<not> k_hasQuit k \<and> \<not> k_replies_closed k"
  then have "s \<noteq> q" using assms(3) by auto
  with q show "take_turns E [Thread q, Thread q, Thread q, Thread s] (ts, k) = Panic"
    using assms(1,3) by (simp add: step_defs)
qed

section \<open>A reply to a client that quits\<close>

text \<open>The threads that have tested \<open>hasQuit\<close> and act on what they have seen.\<close>

definition past_test :: "thread \<Rightarrow> bool" where
  "past_test t \<longleftrightarrow> (case t of Rep_send _ \<Rightarrow> True | Quit_flag _ \<Rightarrow> True | Quit_close _ \<Rightarrow> True | _ \<Rightarrow> False)"

definition flagged :: "thread list \<times> conn \<Rightarrow> bool" where
  "flagged s \<longleftrightarrow> (case s of (ts, k) \<Rightarrow> k_hasQuit k \<and> (\<forall>t \<in> set ts. \<not> past_test t))"

lemma flagged_upd: "flagged (ts, k) \<Longrightarrow> \<not> past_test u \<Longrightarrow> k_hasQuit k' = k_hasQuit k \<Longrightarrow> flagged (ts[j := u], k')"
  by (auto simp: flagged_def dest: set_update)

lemma flagged_step:
  assumes f: "flagged (ts, k)" and j: "j < length ts"
  shows "returns flagged (thread_step E j ts k)"
proof -
  have "\<not> past_test (ts ! j)" "k_hasQuit k" using f j by (auto simp: flagged_def)
  moreover have "flagged (ts, k')" if "k_hasQuit k' = k_hasQuit k" for k' using f that by (simp add: flagged_def)
  ultimately show ?thesis
    using flagged_upd [OF f]
    by (cases "ts ! j")
      (auto simp: step_defs past_test_def after_quit_def split: list.split prod.split sum.split Command.split)
qed

lemma flagged_turns: "flagged s \<Longrightarrow> returns flagged (take_turns E xs s)"
  unfolding take_turns_def
proof (rule returns_iterate)
  fix x and s :: "thread list \<times> conn" assume f: "flagged s"
  obtain ts k where s: "s = (ts, k)" by force
  show "returns flagged (take_turn E x s)"
    using f flagged_step [of ts k _ E] by (cases x) (auto simp: s flagged_def)
qed

text \<open>C24: a goroutine that replies to a client and one that ends it: when the first tests \<open>hasQuit\<close> before the
  second sets it and sends after the channel of replies is closed, the process panics. Once the flag
  is set and nobody acts on an older test, no order of the goroutines panics any more.\<close>

theorem reply_race:
  assumes "s < length ts" "ts ! s = Rep_test r" "q < length ts" "ts ! q = Quit_begin b"
    and "\<not> k_hasQuit k" "\<not> k_replies_closed k"
  shows "take_turns E [Thread s, Thread q, Thread q, Thread q, Thread s] (ts, k) = Panic \<and>
    (\<forall>us (v :: conn) turns. k_hasQuit v \<and> (\<forall>t \<in> set us. \<not> past_test t) \<longrightarrow> take_turns E turns (us, v) \<noteq> Panic)"
proof (intro conjI allI impI)
  have "s \<noteq> q" using assms(2,4) by auto
  then show "take_turns E [Thread s, Thread q, Thread q, Thread q, Thread s] (ts, k) = Panic"
    using assms by (simp add: step_defs)
next
  fix us turns and v :: conn
  assume "k_hasQuit v \<and> (\<forall>t \<in> set us. \<not> past_test t)"
  then have "flagged (us, v)" by (simp add: flagged_def)
  from flagged_turns [OF this, of E turns] show "take_turns E turns (us, v) \<noteq> Panic" by auto
qed

section \<open>One connection\<close>

text \<open>A connection whose client has timed out: its read loop waits, and so does its write loop.\<close>

definition quiet_conn :: conn where
  "quiet_conn = \<lparr>k_hasQuit = False, k_replies_closed = False, k_closed = False, k_input = [], k_ended = False,
     k_room = 1, k_written = [], k_told = 0\<rparr>"

theorem quit_waits_for_peer_witness:
  "\<exists>ts k. take_turns list_env [Thread 2, Thread 2, Thread 2, Thread 2, Thread 2, Thread 2, Peer_sends [], Thread 0] ([Rd_scan, Wr_receive, Quit_begin False], quiet_conn) = Ret (ts, k) \<and>
     k_hasQuit k \<and> \<not> k_closed k \<and> k_told k = 0 \<and>
     (\<exists>us v. take_turns list_env [Peer_sends ''PONG x'', Thread 0, Thread 2, Thread 2] (ts, k) = Ret (us, v) \<and> k_closed v)"
proof -
  let ?ts = "[Rd_scan, Wr_receive, Quit_begin False]" and ?us = "[Rd_scan, Wr_receive, Quit_lock False]"
  let ?k = "quiet_conn\<lparr>k_hasQuit := True, k_replies_closed := True\<rparr>"
  have run: "take_turns list_env [Thread 2, Thread 2, Thread 2, Thread 2, Thread 2, Thread 2, Peer_sends [], Thread 0] (?ts, quiet_conn) = Ret (?us, ?k)"
    by (simp add: step_defs quiet_conn_def holds_lock_def)
  have 1: "\<not> k_closed ?k \<and> k_told ?k = k_told quiet_conn"
    using quit_waits_for_peer [of 0 ?ts quiet_conn list_env, THEN conjunct1, rule_format, OF _ _ _ _ _ _ _ _ run]
    by (simp add: quiet_conn_def)
  have one: "\<forall>j < length ?us. holds_lock (?us ! j) \<longrightarrow> j = 0"
    by (auto simp: less_Suc_eq holds_lock_def)
  have 2: "\<exists>us v. take_turns list_env [Peer_sends ''PONG x'', Thread 0, Thread 2, Thread 2] (?us, ?k) = Ret (us, v) \<and> k_closed v"
    using quit_waits_for_peer [of 0 ?us ?k list_env, THEN conjunct2, rule_format, of 2 False "''PONG x''"] one
    by (simp add: quiet_conn_def del: take_turns_simps) blast
  show ?thesis
    by (rule exI [of _ ?us], rule exI [of _ ?k]) (use run 1 2 in \<open>simp add: quiet_conn_def del: take_turns_simps\<close>)
qed

theorem slow_reader_blocks_senders_witness:
  "\<exists>ts k. take_turns list_env [Thread 1, Thread 1, Thread 2, Thread 2, Thread 3, Thread 3, Thread 1, Thread 3]
     ([Rd_scan, Wr_call ''first'', Rep_test ''hello'', Rep_test ''ping''], quiet_conn\<lparr>k_room := 0\<rparr>) = Ret (ts, k) \<and>
     ts ! 3 = Rep_send ''ping'' \<and> k_written k = []"
proof -
  let ?ts = "[Rd_scan, Wr_write ''first'', Rep_send ''hello'', Rep_send ''ping'']" and ?k = "quiet_conn\<lparr>k_room := 0\<rparr>"
  have start: "take_turns list_env [Thread 1, Thread 1, Thread 2, Thread 2, Thread 3]
     ([Rd_scan, Wr_call ''first'', Rep_test ''hello'', Rep_test ''ping''], ?k) = Ret (?ts, ?k)"
    by (simp add: step_defs quiet_conn_def waits_lock_def is_receiver_def eval_nat_numeral)
  have rest: "take_turns list_env [Thread 3, Thread 1, Thread 3] (?ts, ?k) = Ret (?ts, ?k)"
    by (simp add: step_defs quiet_conn_def is_receiver_def eval_nat_numeral)
  have "?ts ! 3 = Rep_send ''ping'' \<and> k_written ?k = k_written ?k"
    using slow_reader_blocks_senders [of 3 ?ts 1 "''ping''" "''first''" ?k "[Thread 3, Thread 1, Thread 3]" list_env] rest
    by (simp add: quiet_conn_def less_Suc_eq eval_nat_numeral is_writer_def del: take_turns_simps)
  moreover have "take_turns list_env ([Thread 1, Thread 1, Thread 2, Thread 2, Thread 3] @ [Thread 3, Thread 1, Thread 3])
     ([Rd_scan, Wr_call ''first'', Rep_test ''hello'', Rep_test ''ping''], ?k) = Ret (?ts, ?k)"
    unfolding turns_append start and_then.simps by (rule rest)
  ultimately show ?thesis by (intro exI [of _ ?ts] exI [of _ ?k]) (simp add: quiet_conn_def del: take_turns_simps)
qed

theorem reply_race_witness:
  "take_turns list_env [Thread 2, Thread 3, Thread 3, Thread 3, Thread 2]
     ([Rd_scan, Wr_receive, Rep_test ''hello'', Quit_begin False], quiet_conn) = Panic"
  using reply_race [of 2 "[Rd_scan, Wr_receive, Rep_test ''hello'', Quit_begin False]" "''hello''" 3 False quiet_conn list_env]
  by (simp add: quiet_conn_def del: take_turns_simps)

end
