(* ===== verification/Spec2Isabelle.thy ===== *)
theory Spec2Isabelle
  imports Demo Startup Interleaving Privacy Authority Timers Delivery Connection
begin

text \<open>
  BlockIRC, a fork of the IRC server eris, in HOL: the model of the server of \<open>src/internal/\<close> and
  the theorems about it. This theory holds the properties that span components; its siblings hold
  the components.

  \<^bold>\<open>The program.\<close> \<open>NewServer\<close> reads a configuration, opens listeners over TCP, TLS, I2P and Tor for IRC
  and for a web page, and registers metrics. A client connects (\<open>acceptor\<close> and \<open>NewClient\<close>), its read
  loop cuts lines off the socket and turns each into a command (\<open>ParseCommand\<close>), checks a password
  where the command carries one, and calls \<open>processCommand\<close>, which dispatches on whether the client is
  registered. The handlers read and change shared state: the table of nicks (\<open>ClientLookupSet\<close>), the
  channels with their members, modes and mask lists, the client records, the ring of departed clients
  (\<open>WhoWasList\<close>), the operators and accounts. They answer by sending lines to clients.

  \<^bold>\<open>Theories and sources.\<close>
  \<^item> \<open>Prelude\<close>: outcomes (a value, a panic, or waiting forever), loops that can fail, Go strings as
    bytes and runes, formatting and parsing of numbers.
  \<^item> \<open>Go_Env\<close>: what the repository calls and does not define, as the fields of a record \<open>go_env\<close> with
    the laws that are used of it, as locales; \<open>list_env\<close> is an instance of all of them.
  \<^item> \<open>Names\<close> (strings.go, and \<open>IsHostname\<close> of net.go), \<open>Net\<close> (the rest of net.go), \<open>Modes\<close> (modes.go and the mode parsers and printers of
    command.go), \<open>Command\<close> (command.go), \<open>Masks\<close> (the user masks of client_lookup.go), \<open>Whowas\<close>
    (whowas.go), \<open>Password\<close> (password.go), \<open>Config_Types\<close> and \<open>Configuration\<close> (config.go),
    \<open>Metrics\<close> (metrics.go), \<open>Web\<close> (ww.go): the leaves.
  \<^item> \<open>State\<close>: the records of a client (client.go), a channel (channel.go), the SASL state (sasl.go) and
    the server (server.go) in one \<open>world\<close>, and the table of nicks (client_lookup.go). Clients and
    channels are numbers; a pointer comparison is a comparison of numbers.
  \<^item> \<open>Reply\<close> (reply.go, constant.go, version.go), \<open>Channel\<close> (channel.go, privacy.go), \<open>Session\<close> (the
    rest of client.go), \<open>Server\<close> and \<open>Dispatch\<close> (the handlers of server.go, nickname.go, modes.go and
    capability.go, the treatment of a line, the dispatch and the accepting of connections, with the hash of utils.go): the
    operations, each a function from worlds to worlds, or to an outcome where the code can panic or block.
  \<^item> \<open>Socket\<close> (socket.go) and \<open>Readloop\<close> (\<open>readloop\<close> of client.go): lines on a stream of bytes, and the
    life of a connection from its bytes.
  \<^item> \<open>Listeners\<close> and \<open>Startup\<close> (server.go): the listeners with the keys they keep on the disk, and
    \<open>NewServer\<close> with the main loop.
  \<^item> \<open>Invariant\<close> and \<open>Reachable\<close>: the invariant of the shared state, that every operation keeps it, the
    step relation of the server and the reachable worlds. \<open>Progress\<close>: when a command comes to an end.
    \<open>Waiting\<close>: for whom a goroutine has to wait, the sends on \<open>replies\<close> and the lock in \<open>Socket.Close\<close>.
    \<open>Privacy\<close>: what LIST and WHO tell of a channel. \<open>Authority\<close>: what a line can do to the other
    clients. \<open>Timers\<close>: the idle and the quit timer. \<open>Delivery\<close>: a message from the line that
    is typed to the line that is read. \<open>Demo\<close>: a concrete session of two clients.
  \<^item> \<open>Interleaving\<close>: NICK, JOIN and quitting (nickname.go, server.go, client.go, client_lookup.go)
    as steps that other goroutines can come between.
  \<^item> \<open>Connection\<close>: the goroutines of one connection (client.go, socket.go) with the flag, the channel
    of replies and the lock of the socket that they share.

  \<^bold>\<open>What is shown.\<close> About all reachable worlds: the table of nicks is exact, registered clients are
  authorized, channels and members agree, nicks and channels have valid names, capabilities are
  announced ones; operators, authorized
  clients and those logged into an account have sent what it takes, where an OPER with an unknown name
  is enough to be authorized; a line of a client that is no
  operator leaves the other clients alone, and the channels that it does not operate; every connected
  client has a timer that runs and in the end makes it quit; what a departure removes; a line
  does not panic unless it is one of a few, nor does a read loop without them, and both come to an end if
  no reader of the departed clients was left behind and nobody they write to keeps them waiting. The server that \<open>NewServer\<close> makes of a configuration is in a reachable state and
  listens where it should. About single operations: joining, parting, the rights that a mode change
  needs, user limits, who gets a message, when it reads back as it was sent and for whom its sender waits, what LIST keeps to itself. Round trips: lines, sockets, relayed messages, channel
  modes, I2P keys. The mask lists against the meaning of a mask, the ring of departed clients against
  a log that keeps the latest entries, the splitting of long replies against the length limit. Under
  any interleaving a bystander keeps its nick and looking up is sound. A part of the theorems states
  what goes wrong: a way around the server password, WHOIS after PART, user limits that anyone sets,
  a WHO that shows everybody, masks that match too much, a query that blocks the server, two clients
  with one nick, two channels with one name, a double quit and a late reply that end the process, a
  quit that waits for its silent client, a client that does not read and stops those who write to it
  or makes them panic when it is ended,
  a client thrown out for its PONG.

  \<^bold>\<open>Assumptions.\<close> Outside \<open>Interleaving\<close> and \<open>Connection\<close> a command runs to its end before the next one
  starts (the read loops are goroutines, so the code does not ensure it). An operation gives the state
  after its sends on \<open>replies\<close> were received and the locks it takes in \<open>Socket.Close\<close> were free; that it
  may have to wait for them is what \<open>Waiting\<close> adds, with a record \<open>peers\<close> that says which clients take lines and
  whose socket is locked while a goroutine runs, and the theorems that something comes to an end are
  about \<open>goroutine peers\<close>. The wait itself, step by step, is in \<open>Connection\<close>. A method of a type of the
  repository that is called on a nil pointer panics where it reads a field; what \<open>Has\<close> of a
  \<open>ChannelModeSet\<close> does on nil is the field \<open>nil_modes_has\<close>, and the theorem about WHOIS after PART names its
  hypothesis. \<open>log.Fatal\<close>, which ends the process, is a panic too. The types \<open>ClientSet\<close>, \<open>ChannelSet\<close>,
  \<open>MemberSet\<close>, \<open>UserModeSet\<close>, \<open>ChannelModeSet\<close> and the methods of \<open>ChannelNameMap\<close>, \<open>Counter\<close> and
  \<open>Identity\<close> are not declared in the repository: they are representations with operations in \<open>go_env\<close>,
  and a \<open>Range\<close> visits in any order. So are Unicode tables and normalisation, bcrypt, the bytes of a
  SHA-256 sum, the matching of ircmatch, dates, the reverse lookup of a host, YAML and the merging of configurations.
  \<open>prom_env\<close> is the Prometheus client, \<open>net_env\<close> the network with the libraries for I2P and Tor, and
  \<open>html_template\<close> what html/template makes of a template. What is sent to a client
  is appended to \<open>w_out\<close>. Time is an integer of nanoseconds.

  \<^bold>\<open>Bounds and fuel.\<close> Only the loop of \<open>WhoWasList.Each\<close> runs on fuel: it gets the length of the
  buffer, and a well-formed ring is walked within it. The read loop is recursive on the bytes that are
  left. A task of \<open>Interleaving\<close> that is not interrupted is over after ten steps. User limits are
  parsed as 64 bit numbers and the mode argument of USER as 8 bits, with the errors of \<open>strconv\<close> at
  the bounds; a line of input is at most the 64 KiB that \<open>bufio.Scanner\<close> takes.

  \<^bold>\<open>Not modelled.\<close> Interleavings inside the commands that \<open>Interleaving\<close> does not take apart, and the
  locks of the sets and maps (their types are not in the repository); write errors of a socket (the
  write loop ignores them); the second
  between a signal and \<open>Stop\<close>; the HTTP server and the page of the metrics; what
  goes to the log; types.go, a copy of strings.go; the tests and container files.
\<close>

section \<open>What holds in every reachable state\<close>

text \<open>C1: the table of nicks is exact in every reachable state: looking a name up finds a client if and
  only if that client is connected and has this nick, up to case; so no two connected clients
  share a nick.\<close>

theorem nick_table_exact:
  assumes "go_env_laws E" "reachable E w"
  shows "(nick_get E w n = Some c \<longleftrightarrow>
      alive w c \<and> c_nick (cl w c) \<noteq> [] \<and> to_lower E n = to_lower E (c_nick (cl w c))) \<and>
    (alive w c \<and> alive w d \<and> c_nick (cl w c) \<noteq> [] \<and> c_nick (cl w d) \<noteq> [] \<and>
     to_lower E (c_nick (cl w c)) = to_lower E (c_nick (cl w d)) \<longrightarrow> c = d)"
proof -
  have nick: "nick_inv E w"
    using go_env_laws.reachable_inv [OF assms] by (simp add: inv_def)
  have "c = d" if "alive w c" "alive w d" "c_nick (cl w c) \<noteq> []" "c_nick (cl w d) \<noteq> []"
    "to_lower E (c_nick (cl w c)) = to_lower E (c_nick (cl w d))"
  proof -
    have "nick_get E w (c_nick (cl w d)) = Some c" "nick_get E w (c_nick (cl w d)) = Some d"
      using that by (simp_all add: nick_inv_get [OF nick])
    then show ?thesis by simp
  qed
  then show ?thesis using nick_inv_get [OF nick] by blast
qed

text \<open>C9: in every reachable state a registered client has been authorized, and has a nick and a user
  name; a client that has not been authorized has neither.\<close>

theorem registered_is_authorized:
  assumes "go_env_laws E" "reachable E w" "c < w_next_client w"
  shows "(c_registered (cl w c) \<longrightarrow> c_authorized (cl w c) \<and> c_nick (cl w c) \<noteq> [] \<and> c_username (cl w c) \<noteq> []) \<and>
    (\<not> c_authorized (cl w c) \<longrightarrow> c_nick (cl w c) = [] \<and> c_username (cl w c) = [])"
proof -
  have "client_ok E (\<lambda>_. UNIV) c (cl w c)"
    using go_env_laws.reachable_inv [OF assms(1,2)] assms(3) by (simp add: inv_def)
  then show ?thesis by (auto simp: client_ok_def)
qed

text \<open>C4: in every reachable state a channel that can be found by name has a member, and a member of a
  channel is a connected client that lists the channel; the channel can be found by its name.\<close>

theorem channels_and_members:
  assumes "go_env_laws E" "reachable E w"
  shows "(get_channel E w n = Some ch \<longrightarrow> (\<exists>c. is_member E w ch c)) \<and>
    (ch < w_next_chan w \<and> is_member E w ch c \<longrightarrow>
       alive w c \<and> set_has (chan_sets E) (c_channels (cl w c)) ch \<and> get_channel E w (chan_str w ch) = Some ch)"
proof -
  have "chan_inv E {} w"
    using go_env_laws.reachable_inv [OF assms] by (simp add: inv_def)
  then show ?thesis using chan_inv_named chan_inv_member by blast
qed

text \<open>C2: the only way to become a server operator is to send OPER oneself, once registered, with a name
  the configuration knows and a password that its hash accepts.\<close>

theorem operator_needs_password:
  assumes "go_env_laws E" "reachable E w" "c < w_next_client w" "\<not> c_socket_closed (cl w c)"
    and "handle_line E c line w = Ret w'" "d < w_next_client w'" "has_mode E w' d Operator"
  shows "has_mode E w d Operator \<or>
    d = c \<and> c_registered (cl w c) \<and>
    (\<exists>code name hash0 pw err0 h. ParseCommand E line = (code, Inr (OperCommand name hash0 pw err0)) \<and>
      map_of (srv_operators w) name = Some h \<and> bcrypt_ok E h pw)"
  using go_env_laws.grant_of_line [OF assms(1-6), of Oper] assms(7) by (auto simp: granted_Oper)

text \<open>C7: a client is authorized by its own command only, and before it is registered: by PASS, when
  the server has no password or the one that was sent is right; by OPER with the name of an operator
  and its password; or by OPER with a name that no operator has, whatever the password. Nothing else
  authorizes, but the last of these is a way around the password of the server.\<close>

theorem authorized_by_own_command:
  assumes "go_env_laws E" "reachable E w" "c < w_next_client w" "\<not> c_socket_closed (cl w c)"
    and "handle_line E c line w = Ret w'" "d < w_next_client w'" "c_authorized (cl w' d)"
  shows "c_authorized (cl w d) \<or>
    d = c \<and> \<not> c_registered (cl w c) \<and>
    ((\<exists>code hash0 pw err0. ParseCommand E line = (code, Inr (PassCommand hash0 pw err0)) \<and>
        (case srv_password w of None \<Rightarrow> True | Some h \<Rightarrow> bcrypt_ok E h pw)) \<or>
     (\<exists>code name hash0 pw err0 h. ParseCommand E line = (code, Inr (OperCommand name hash0 pw err0)) \<and>
        map_of (srv_operators w) name = Some h \<and> bcrypt_ok E h pw) \<or>
     (\<exists>code name hash0 pw err0. ParseCommand E line = (code, Inr (OperCommand name hash0 pw err0)) \<and>
        map_of (srv_operators w) name = None))"
proof (cases "c_authorized (cl w d)")
  case False
  then obtain code cmd where "d = c" "ParseCommand E line = (code, Inr cmd)" "granted E w c (check_password E cmd w) Auth"
    using go_env_laws.grant_of_line [OF assms(1-6), of Auth] assms(7) by auto
  with granted_Auth [OF this(3)] show ?thesis by blast
qed simp

text \<open>C11: the mode of those who are logged into an account is set by the client's own AUTHENTICATE
  only, before registration, and when what the client has sent so far holds the name of an account
  and its password.\<close>

theorem account_needs_login:
  assumes "go_env_laws E" "reachable E w" "c < w_next_client w" "\<not> c_socket_closed (cl w c)"
    and "handle_line E c line w = Ret w'" "d < w_next_client w'" "has_mode E w' d Registered"
  shows "has_mode E w d Registered \<or>
    d = c \<and> \<not> c_registered (cl w c) \<and> c_authorized (cl w c) \<and>
    (\<exists>code arg blob user authzid pw. ParseCommand E line = (code, Inr (AuthenticateCommand arg)) \<and>
      b64_decode (sasl_buffer (c_sasl (cl w c)) @ (if arg = ''+'' then [] else arg)) = Some blob \<and>
      split_on (CHR 0x00) blob = [user, authzid, pw] \<and> authzid \<in> {[], user} \<and>
      store_Verify E (srv_accounts w) user pw)"
proof (cases "has_mode E w d Registered")
  case False
  then obtain code arg where "d = c" "\<not> c_registered (cl w c)" "logs_in E w c arg"
    "ParseCommand E line = (code, Inr (AuthenticateCommand arg))"
    using go_env_laws.grant_of_line [OF assms(1-6), of Account] assms(7) by (auto simp: granted_Account)
  then show ?thesis using logs_inD [of E w c arg] by blast
qed simp

text \<open>In every reachable state the capabilities of a client are among those the server
  announces.\<close>

theorem capabilities_supported:
  assumes "go_env_laws E" "reachable E w" "c < w_next_client w"
  shows "set (c_capabilities (cl w c)) \<subseteq> set SupportedCapabilities"
  using go_env_laws.reachable_inv [OF assms(1,2)] assms(3) by (simp add: inv_def client_ok_def)

section \<open>Coming to an end\<close>


section \<open>Leaving\<close>

context go_env_laws
begin

lemma quit_leaves_no_trace_law:
  assumes "reachable E w" "c < w_next_client w" "\<not> c_hasQuit (cl w c)"
    and "client_Quit E c msg w = Ret v"
  shows "(\<forall>ch < w_next_chan v. \<forall>e. is_member E v ch e \<longleftrightarrow> is_member E w ch e \<and> e \<noteq> c) \<and>
    (\<forall>n. nick_get E v n \<noteq> Some c) \<and>
    (\<forall>n ch. get_channel E v n = Some ch \<longrightarrow> (\<exists>e. is_member E v ch e))"
proof -
  have i: "inv E (\<lambda>_. UNIV) {} w" by (rule reachable_inv [OF assms(1)])
  have same: "same_state v (departed E c w)" using client_Quit_result [OF i assms(4)] assms(3) by simp
  have v: "inv E (\<lambda>_. UNIV) {} v" using inv_client_Quit [OF i assms(2)] assms(4) by (simp add: on_ret_iff)
  have "\<not> alive v c" using alive_same [OF same] by (simp add: departed_alive)
  then have "nick_get E v n \<noteq> Some c" for n
    using v nick_inv_get [of E v] by (simp add: inv_def)
  moreover have "is_member E v ch e \<longleftrightarrow> is_member E w ch e \<and> e \<noteq> c" if "ch < w_next_chan v" for ch e
    using departed_member [OF i assms(2), of ch e] same that by (simp add: same_state_def)
  moreover have "\<exists>e. is_member E v ch e" if "get_channel E v n = Some ch" for n ch
    using chan_inv_named [of E "{}" v n ch] v that by (simp add: inv_def)
  ultimately show ?thesis by blast
qed

end

text \<open>C8: when a client quits, every trace of it in the shared tables goes: it is a member of no
  channel, no name finds it, the other memberships stay, and each channel that can be found by name
  still has a member.\<close>

theorem quit_leaves_no_trace:
  assumes "go_env_laws E" "reachable E w" "c < w_next_client w" "\<not> c_hasQuit (cl w c)"
    and "client_Quit E c msg w = Ret v"
  shows "(\<forall>ch < w_next_chan v. \<forall>e. is_member E v ch e \<longleftrightarrow> is_member E w ch e \<and> e \<noteq> c) \<and>
    (\<forall>n. nick_get E v n \<noteq> Some c) \<and>
    (\<forall>n ch. get_channel E v n = Some ch \<longrightarrow> (\<exists>e. is_member E v ch e))"
  by (rule go_env_laws.quit_leaves_no_trace_law [OF assms])

text \<open>C12: the read loop over all that a client sends, line by line or with garbage between the lines. When
  it ends the server is in a reachable state, the client has quit, no name finds it and it is a member
  of no channel. It does end, without a panic, when none of the lines is WHOIS, WHOWAS, REHASH or an
  ONICK with an empty nick, no reader of the departed clients was left behind, and nobody that it
  writes to keeps it waiting; if somebody does, it still does not panic.\<close>

theorem readloop_ends_clean:
  assumes "go_env_laws E" "reachable E w" "c < w_next_client w"
  shows "(\<forall>v. readloop E P c data w = Ret v \<longrightarrow>
      reachable E v \<and> c_hasQuit (cl v c) \<and> (\<forall>n. nick_get E v n \<noteq> Some c) \<and>
      (\<forall>ch < w_next_chan v. \<not> is_member E v ch c)) \<and>
    (whowas_free (srv_whoWas w) \<and> (\<forall>line \<in> set (read_all data). tame_line E line) \<longrightarrow>
      readloop E P c data w \<noteq> Panic \<and> (attentive P \<longrightarrow> (\<exists>v. readloop E P c data w = Ret v)))"
  using go_env_laws.readloop_quits [OF assms] go_env_laws.quit_client_gone [OF assms(1)]
    go_env_laws.readloop_outcome [OF assms] by blast

context go_env_laws
begin

lemma quit_error_never_sent_law:
  assumes "client_Quit E c msg w = Ret v"
  shows "filter (\<lambda>(d, _). d = c) (w_out v) = filter (\<lambda>(d, _). d = c) (w_out w)"
proof (cases "c_hasQuit (cl w c)")
  case True
  with assms(1) show ?thesis by (simp add: client_Quit_def)
next
  case False
  define w2 where "w2 = Reply c (RplError ''quit'') (upd_client c (\<lambda>r. r\<lparr>c_hasQuit := True\<rparr>) w)"
  have out2: "w_out w2 = w_out w" by (simp add: w2_def Reply_def)
  obtain l where l: "append_whowas c w2 = Ret (w2\<lparr>srv_whoWas := l\<rparr>)"
    using False assms(1) append_whowas_Ret [of c w2]
    by (cases "append_whowas c w2") (auto simp: client_Quit_def w2_def Let_def)
  define w3 where "w3 = w2\<lparr>srv_whoWas := l\<rparr>"
  let ?friends = "set_remove (client_sets E) (Friends E w3 c) c"
  obtain w4 where w4: "destroy E c w3 = Ret w4"
    "v = (if set_count (client_sets E) ?friends > 0
          then reply_all (set_range (client_sets E) ?friends) (RplQuit w4 c msg) w4 else w4)"
    using False assms(1) l
    by (cases "destroy E c w3") (auto simp: client_Quit_def w2_def [symmetric] w3_def Let_def)
  have "c \<notin> set (set_range (client_sets E) ?friends)" by (simp add: cl.set_range_has cl.set_has_remove)
  then have "filter (\<lambda>(d, _). d = c) (w_out v) = filter (\<lambda>(d, _). d = c) (w_out w4)"
    by (auto simp: w4(2) reply_all_out filter_empty_conv)
  moreover have "w_out w4 = w_out w3" by (rule destroy_out [OF w4(1)])
  ultimately show ?thesis by (simp add: w3_def out2)
qed

end

text \<open>The client that quits gets nothing any more: the line with ERROR that \<open>Quit\<close> composes for it
  is never sent.\<close>

theorem quit_error_never_sent:
  assumes "go_env_laws E" "client_Quit E c msg w = Ret v"
  shows "filter (\<lambda>(d, _). d = c) (w_out v) = filter (\<lambda>(d, _). d = c) (w_out w)"
  by (rule go_env_laws.quit_error_never_sent_law [OF assms])

section \<open>What a PART leaves behind\<close>

context go_env_laws
begin

lemma whois_after_part_panics_law:
  assumes nil: "nil_receiver_panics E" and "reachable E w" "ch < w_next_chan w" "is_member E w ch d"
    and "\<not> has_flag E w ch Private" "\<not> has_flag E w ch Secret"
  shows "RplWhois E c d (channel_Part E ch d msg w) = Panic"
proof -
  let ?w = "channel_Part E ch d msg w"
  have "chan_inv E {} w" using reachable_inv [OF assms(2)] by (simp add: inv_def)
  then have listed: "set_has (chan_sets E) (c_channels (cl w d)) ch"
    using chan_inv_member assms(3,4) by blast
  note core = core_Part [OF assms(4), of msg]
  have "\<not> is_member E ?w ch d" unfolding core_chans [OF core] by (simp add: Quit_member)
  moreover have "c_channels (cl ?w d) = c_channels (cl w d)" unfolding core_clients [OF core] by simp
  moreover have "ch_flags (chn ?w ch) = ch_flags (chn w ch)"
    unfolding core_chans [OF core] by (simp add: channel_Quit_def set_members_def Let_def)
  ultimately show ?thesis
    using listed nil assms(5,6) by (intro whois_stale_panics [where ch = ch]) (simp_all add: CanSeeChannel_def)
qed

end


context go_env_laws
begin

lemma parted_client_keeps_friends_law:
  assumes "reachable E w" "ch < w_next_chan w"
    and "is_member E w ch d" "is_member E w ch e" "d \<noteq> e"
  shows "\<not> is_member E (channel_Part E ch d msg w) ch d \<and>
    set_has (client_sets E) (Friends E (channel_Part E ch d msg w) d) e"
proof -
  let ?w = "channel_Part E ch d msg w"
  have "chan_inv E {} w" using reachable_inv [OF assms(1)] by (simp add: inv_def)
  then have listed: "set_has (chan_sets E) (c_channels (cl w d)) ch"
    using chan_inv_member assms(2,3) by blast
  note core = core_Part [OF assms(3), of msg]
  have "\<not> is_member E ?w ch d" "is_member E ?w ch e"
    unfolding core_chans [OF core] using assms(4,5) by (auto simp: Quit_member)
  moreover have "c_channels (cl ?w d) = c_channels (cl w d)" unfolding core_clients [OF core] by simp
  ultimately show ?thesis using listed by (auto simp: Friends_has)
qed

end

text \<open>A client that has left a channel with PART still counts its members as friends: they go on
  learning its next nick and its leaving.\<close>

theorem parted_client_keeps_friends:
  assumes "go_env_laws E" "reachable E w" "ch < w_next_chan w"
    and "is_member E w ch d" "is_member E w ch e" "d \<noteq> e"
  shows "\<not> is_member E (channel_Part E ch d msg w) ch d \<and>
    set_has (client_sets E) (Friends E (channel_Part E ch d msg w) d) e"
  by (rule go_env_laws.parted_client_keeps_friends_law [OF assms])

context go_env_laws
begin

lemma whois_counts_hidden_channels_law:
  assumes "WhoisChannelsNames E w client target = Ret names"
  shows "length names = set_count (chan_sets E) (c_channels (cl w client))"
proof -
  let ?f = "\<lambda>ch chstrs. if \<not> CanSeeChannel E w target ch then Ret chstrs
      else and_then (whois_channel_name E w client ch) (\<lambda>s. Ret (chstrs @ [s]))"
  let ?chs = "set_range (chan_sets E) (c_channels (cl w client))"
  have shorter: "on_ret (\<lambda>r. length r \<le> length acc + length chs) (iterate ?f chs acc)" for chs acc
  proof (induction chs arbitrary: acc)
    case (Cons ch chs)
    show ?case
    proof (cases "CanSeeChannel E w target ch")
      case True
      show ?thesis
      proof (cases "whois_channel_name E w client ch")
        case (Ret s)
        with True Cons [of "acc @ [s]"] show ?thesis by simp
      qed (use True in simp_all)
    next
      case False
      with Cons [of acc] show ?thesis by (auto elim: on_ret_mono)
    qed
  qed simp
  obtain chstrs where c: "iterate ?f ?chs [] = Ret chstrs"
    "names = chstrs @ replicate (set_count (chan_sets E) (c_channels (cl w client)) - length chstrs) []"
    using assms(1) unfolding WhoisChannelsNames_def and_then_Ret_iff by auto
  have "length chstrs \<le> length ?chs" using shorter [of "[]" ?chs] c(1) by simp
  then show ?thesis by (simp add: c(2) cs.set_count_range)
qed

end

text \<open>A WHOIS answer has one name for every channel of the client, hidden channels included: those
  the asker may not see come as empty names, so their number can be read off.\<close>

theorem whois_counts_hidden_channels:
  assumes "go_env_laws E" "WhoisChannelsNames E w client target = Ret names"
  shows "length names = set_count (chan_sets E) (c_channels (cl w client))"
  by (rule go_env_laws.whois_counts_hidden_channels_law [OF assms])

section \<open>Passwords\<close>

text \<open>C16: on a server with a password, a client that has sent none and is not authorized becomes so by an
  OPER line with the name of no operator, whatever password the line carries: before registration
  \<open>OperCommand\<close> is handled by the method of the \<open>PassCommand\<close> it embeds, which finds no error because
  nothing was compared. The same password sent with PASS is refused and ends the client if it is wrong.\<close>

theorem oper_bypasses_server_password:
  assumes "srv_password w = Some hash" "\<not> c_authorized (cl w c)" "\<not> c_registered (cl w c)"
    and "map_of (srv_operators w) name = None"
    and "ParseCommand E line = (code, Inr (OperCommand name None pw False))"
  shows "(\<exists>w'. handle_line E c line w = Ret w' \<and> c_authorized (cl w' c)) \<and>
    (\<forall>code' pass. ParseCommand E pass = (code', Inr (PassCommand None pw False)) \<and> \<not> bcrypt_ok E hash pw \<longrightarrow>
      handle_line E c pass w = client_Quit E c ''bad password'' (ErrPasswdMismatch c w))"
  using assms
  by (simp add: handle_line_def processCommand_def check_password_def HandleRegServer_def HandleRegServer_Pass_def
      ComparePassword_def bad_password_def)

text \<open>A failed login leaves the data of the attempt behind, so the next attempt, however right its
  data is, is decoded together with the old data.\<close>

theorem sasl_retry_decodes_old_data:
  assumes "c_authorized (cl w c)" "sasl_started (c_sasl (cl w c))" "sasl_buffer (c_sasl (cl w c)) = []"
    and "length bad < 400" "bad \<noteq> ''*''" "bad \<noteq> ''+''" "b64_decode bad = Some blob"
    and "split_on (CHR 0x00) blob = [user, user, pw]" "\<not> store_Verify E (srv_accounts w) user pw"
    and "length good < 400" "good \<noteq> ''*''" "good \<noteq> ''+''"
  shows "\<exists>w1. HandleRegServer_Authenticate E c bad w = Ret w1 \<and>
    sasl_buffer (c_sasl (cl w1 c)) = bad \<and>
    HandleRegServer_Authenticate E c good w1 =
      (let w2 = upd_client c (\<lambda>r. r\<lparr>c_sasl := sasl_write good (c_sasl r)\<rparr>) w1
       in case b64_decode (bad @ good) of
            None \<Rightarrow> Ret (upd_client c (\<lambda>r. r\<lparr>c_sasl := sasl_reset (c_sasl r)\<rparr>)
                           (ErrSaslFail c ''Invalid base64 encoding'' w2))
          | Some blob \<Rightarrow> Ret (sasl_authenticate E c blob w2))"
proof -
  let ?w1 = "upd_client c (\<lambda>r. r\<lparr>c_sasl := sasl_write bad (c_sasl r)\<rparr>) w"
  let ?w2 = "ErrSaslFail c ''invalid authentication'' ?w1"
  have clients: "w_clients ?w2 = w_clients ?w1" by (rule core_fields(1)) (simp add: core_simps)
  have buf: "sasl_buffer (c_sasl (cl ?w1 c)) = bad" using assms(3) by (simp add: sasl_write_def)
  have "sasl_authenticate E c blob ?w1 = ?w2"
    using assms(8,9) by (simp add: sasl_authenticate_def)
  then have "HandleRegServer_Authenticate E c bad w = Ret ?w2"
    using assms(1,2,4-7) buf by (simp add: HandleRegServer_Authenticate_def)
  moreover have "sasl_buffer (c_sasl (cl ?w2 c)) = bad" using buf unfolding clients by simp
  moreover have "sasl_started (c_sasl (cl ?w2 c))" "c_authorized (cl ?w2 c)"
    unfolding clients using assms(1,2) by (simp_all add: sasl_write_def)
  moreover have "sasl_buffer (sasl_write good (c_sasl (cl ?w2 c))) = bad @ good"
    unfolding clients using buf by (simp add: sasl_write_def)
  ultimately show ?thesis
    using assms(10-12) by (intro exI [of _ ?w2]) (simp add: HandleRegServer_Authenticate_def Let_def)
qed

section \<open>The properties on the demo session\<close>

theorem nick_table_exact_witness:
  "\<exists>w. reachable list_env w \<and> nick_get list_env w ''bob'' = Some 1 \<and> nick_get list_env w ''ann'' \<noteq> Some 1 \<and>
     alive w 1 \<and> c_nick (cl w 1) = ''bob''"
proof -
  obtain w where w: "reachable list_env w" "core w = core session_world" using session by blast
  note s = session_simps [OF w(2)]
  have "alive w 1" using s by (simp add: alive_def)
  then have "nick_get list_env w ''bob'' = Some 1" "nick_get list_env w ''ann'' \<noteq> Some 1"
    using nick_table_exact [OF list_env.go_env_laws_axioms w(1)] s(2)
    by simp_all
  with \<open>alive w 1\<close> w(1) s(2) show ?thesis by auto
qed

theorem registered_is_authorized_witness:
  "\<exists>w. reachable list_env w \<and> c_registered (cl w 0) \<and> c_authorized (cl w 0) \<and> c_nick (cl w 0) \<noteq> []"
proof -
  obtain w where w: "reachable list_env w" "core w = core session_world" using session by blast
  note s = session_simps [OF w(2)]
  have "c_registered (cl w 0)" "0 < w_next_client w" by (simp_all add: s)
  with registered_is_authorized [OF list_env.go_env_laws_axioms w(1)] w(1) show ?thesis by blast
qed

theorem channels_and_members_witness:
  "\<exists>w. reachable list_env w \<and> is_member list_env w 0 1 \<and> alive w 1 \<and> get_channel list_env w ''#c'' = Some 0"
proof -
  obtain w where w: "reachable list_env w" "core w = core session_world" using session by blast
  note s = session_simps [OF w(2)]
  have "0 < w_next_chan w" "is_member list_env w 0 1" "chan_str w 0 = ''#c''" by (simp_all add: s)
  with channels_and_members [OF list_env.go_env_laws_axioms w(1)] w(1) show ?thesis by metis
qed

theorem operator_needs_password_witness:
  "\<exists>w w'. reachable list_env w \<and> handle_line list_env 1 ''OPER root key'' w = Ret w' \<and>
     \<not> has_mode list_env w 1 Operator \<and> has_mode list_env w' 1 Operator \<and>
     map_of (srv_operators w) ''root'' = Some ''key'' \<and> bcrypt_ok list_env ''key'' ''key''"
proof -
  obtain w where w: "reachable list_env w" "core w = core session_world" using session by blast
  note s = session_simps [OF w(2)]
  have c: "1 < w_next_client w" "\<not> c_socket_closed (cl w 1)" using s by simp_all
  obtain w' where w': "handle_line list_env 1 ''OPER root key'' w = Ret w'" "has_mode list_env w' 1 Operator"
    using session_oper [OF w(2)] by auto
  have no: "\<not> has_mode list_env w 1 Operator" using s by (simp add: user_mode_defs)
  from operator_needs_password [OF list_env.go_env_laws_axioms w(1) c w'(1) _ w'(2)] no
  show ?thesis using w w' s(8) by (auto simp: parse_oper)
qed

text \<open>The server with a password: its first client has sent nothing yet.\<close>

theorem oper_bypasses_server_password_witness:
  "reachable list_env guarded_server \<and> srv_password guarded_server = Some ''key'' \<and>
   \<not> c_authorized (cl guarded_server 0) \<and>
   (\<exists>w'. handle_line list_env 0 ''OPER nobody x'' guarded_server = Ret w' \<and> c_authorized (cl w' 0)) \<and>
   handle_line list_env 0 ''PASS x'' guarded_server =
     client_Quit list_env 0 ''bad password'' (ErrPasswdMismatch 0 guarded_server)"
proof -
  have h: "srv_password guarded_server = Some ''key''" "\<not> c_authorized (cl guarded_server 0)"
    "\<not> c_registered (cl guarded_server 0)" "map_of (srv_operators guarded_server) ''nobody'' = None"
    by simp_all
  have "\<not> bcrypt_ok list_env ''key'' ''x''" by simp
  with oper_bypasses_server_password [OF h parse_stranger(1)] parse_stranger(2) h(1,2) reachable_guarded
  show ?thesis by blast
qed


theorem parted_client_keeps_friends_witness:
  "\<exists>w. reachable list_env w \<and> is_member list_env w 0 1 \<and>
     \<not> is_member list_env (channel_Part list_env 0 1 ''bye'' w) 0 1 \<and>
     set_has (client_sets list_env) (Friends list_env (channel_Part list_env 0 1 ''bye'' w) 1) 0"
proof -
  obtain w where w: "reachable list_env w" "core w = core session_world" using session by blast
  note s = session_simps [OF w(2)]
  have h: "0 < w_next_chan w" "is_member list_env w 0 1" "is_member list_env w 0 0" "(1::nat) \<noteq> 0"
    by (simp_all add: s)
  show ?thesis
    using parted_client_keeps_friends [OF list_env.go_env_laws_axioms w(1) h] w(1) h(2) by blast
qed

theorem whois_counts_hidden_channels_witness:
  "WhoisChannelsNames list_env
     (two_clients\<lparr>w_clients := (w_clients two_clients)(1 := ann\<lparr>c_channels := RSet [0]\<rparr>),
        w_chans := (\<lambda>_. blank_channel\<lparr>ch_flags := RSet [Secret], ch_members := RMem [(1, RSet [])]\<rparr>)\<rparr>) 1 2 = Ret [[]] \<and>
   length ([[]] :: string list) = 1"
proof -
  let ?w = "two_clients\<lparr>w_clients := (w_clients two_clients)(1 := ann\<lparr>c_channels := RSet [0]\<rparr>),
        w_chans := (\<lambda>_. blank_channel\<lparr>ch_flags := RSet [Secret], ch_members := RMem [(1, RSet [])]\<rparr>)\<rparr>"
  have r: "WhoisChannelsNames list_env ?w 1 2 = Ret [[]]"
    by (simp add: WhoisChannelsNames_def CanSeeChannel_def chan_mode_defs user_mode_defs two_clients_def bob_def ann_def fresh_client_def)
  from whois_counts_hidden_channels [OF list_env.go_env_laws_axioms this] r show ?thesis by (simp)
qed

theorem quit_leaves_no_trace_witness:
  "\<exists>w v. reachable list_env w \<and> client_Quit list_env 1 ''bye'' w = Ret v \<and>
     is_member list_env w 0 1 \<and> 0 < w_next_chan v \<and> \<not> is_member list_env v 0 1 \<and> is_member list_env v 0 0 \<and>
     nick_get list_env v ''bob'' \<noteq> Some 1"
proof -
  obtain w where w: "reachable list_env w" "core w = core session_world" using session by blast
  note s = session_simps [OF w(2)]
  obtain v where v: "client_Quit list_env 1 ''bye'' w = Ret v" "w_next_chan v = 1" using session_quit [OF w(2)] by blast
  have h: "1 < w_next_client w" "\<not> c_hasQuit (cl w 1)" "is_member list_env w 0 1" "is_member list_env w 0 0"
    "0 < w_next_chan v"
    using s v(2) by simp_all
  note q = quit_leaves_no_trace [OF list_env.go_env_laws_axioms w(1) h(1,2) v(1)]
  have "\<not> is_member list_env v 0 1" "is_member list_env v 0 0" using q h by auto
  with q w(1) v(1) h(3,5) show ?thesis by blast
qed

theorem quit_error_never_sent_witness:
  "\<exists>w v. reachable list_env w \<and> client_Quit list_env 1 ''bye'' w = Ret v \<and> \<not> c_hasQuit (cl w 1) \<and>
     filter (\<lambda>(d, _). d = 1) (w_out v) = filter (\<lambda>(d, _). d = 1) (w_out w)"
proof -
  obtain w where w: "reachable list_env w" "core w = core session_world" using session by blast
  obtain v where v: "client_Quit list_env 1 ''bye'' w = Ret v" using session_quit [OF w(2)] by blast
  have "\<not> c_hasQuit (cl w 1)" using session_simps(2) [OF w(2)] by simp
  with w(1) v quit_error_never_sent [OF list_env.go_env_laws_axioms v] show ?thesis by blast
qed

text \<open>Three empty fields are no account; the good attempt that follows is decoded with the bad one.\<close>

theorem sasl_retry_decodes_old_data_witness:
  "\<exists>w1. HandleRegServer_Authenticate list_env 0 ''AAA=''
       (upd_client 0 (\<lambda>r. r\<lparr>c_sasl := NewSaslState\<lparr>sasl_started := True\<rparr>\<rparr>) two_clients) = Ret w1 \<and>
     sasl_buffer (c_sasl (cl w1 0)) = ''AAA=''"
proof -
  let ?w = "upd_client 0 (\<lambda>r. r\<lparr>c_sasl := NewSaslState\<lparr>sasl_started := True\<rparr>\<rparr>) two_clients"
  have dec: "b64_decode ''AAA='' = Some [CHR 0x00, CHR 0x00]" by code_simp
  have split: "split_on (CHR 0x00) [CHR 0x00, CHR 0x00] = [[], [], []]" by code_simp
  have no: "\<not> store_Verify list_env (srv_accounts ?w) [] []"
    by (simp add: store_Verify_def store_Get_def two_clients_def)
  have "c_authorized (cl ?w 0)" "sasl_started (c_sasl (cl ?w 0))" "sasl_buffer (c_sasl (cl ?w 0)) = []"
    by (simp_all add: two_clients_def fresh_client_def NewSaslState_def)
  from sasl_retry_decodes_old_data [OF this, of "''AAA=''", OF _ _ _ dec split no, of "''AAA=''"]
  show ?thesis by auto
qed

theorem authorized_by_own_command_witness:
  "\<exists>w w'. reachable list_env w \<and> \<not> c_authorized (cl w 0) \<and> srv_password w = Some ''key'' \<and>
     handle_line list_env 0 ''PASS key'' w = Ret w' \<and> c_authorized (cl w' 0) \<and> bcrypt_ok list_env ''key'' ''key''"
proof -
  have "c_authorized (cl passed 0)" "\<not> c_authorized (cl guarded_server 0)" by simp_all
  with authorized_by_own_command [OF list_env.go_env_laws_axioms reachable_guarded _ _ pass_line, of 0]
  have "bcrypt_ok list_env ''key'' ''key''" by (auto simp: parse_login)
  moreover have "srv_password guarded_server = Some ''key''" by simp
  ultimately show ?thesis using reachable_guarded pass_line \<open>c_authorized (cl passed 0)\<close>
      \<open>\<not> c_authorized (cl guarded_server 0)\<close> by blast
qed

theorem account_needs_login_witness:
  "\<exists>w w' blob user authzid pw. reachable list_env w \<and> \<not> has_mode list_env w 0 Registered \<and>
     handle_line list_env 0 ''AUTHENTICATE Ym9iAABrZXk='' w = Ret w' \<and> has_mode list_env w' 0 Registered \<and>
     b64_decode ''Ym9iAABrZXk='' = Some blob \<and> split_on (CHR 0x00) blob = [user, authzid, pw] \<and>
     store_Verify list_env (srv_accounts w) user pw"
proof -
  obtain w' where w': "handle_line list_env 0 ''AUTHENTICATE Ym9iAABrZXk='' challenged = Ret w'"
    "has_mode list_env w' 0 Registered" "w_next_client w' = 1"
    using login_line by blast
  have r: "reachable list_env challenged"
    by (rule reachable_line [OF reachable_passed _ _ plain_line]) simp_all
  have no: "\<not> has_mode list_env challenged 0 Registered" by simp
  have "0 < w_next_client w'"
    using w'(3) by simp
  from account_needs_login [OF list_env.go_env_laws_axioms r _ _ w'(1) this w'(2)] no
  obtain blob user authzid pw where "b64_decode ''Ym9iAABrZXk='' = Some blob"
    "split_on (CHR 0x00) blob = [user, authzid, pw]" "store_Verify list_env (srv_accounts challenged) user pw"
    by (auto simp: parse_login NewSaslState_def sasl_start_def)
  with r no w' show ?thesis by blast
qed

theorem capabilities_supported_witness:
  "\<exists>w. reachable list_env w \<and> c_capabilities (cl w 0) = [''sasl''] \<and> set [''sasl''] \<subseteq> set SupportedCapabilities"
proof -
  obtain w where w: "handle_line list_env 0 ''CAP REQ :sasl'' passed = Ret w" "c_capabilities (cl w 0) = [''sasl'']"
    "w_next_client w = 1"
    using request_line by blast
  have r: "reachable list_env w" by (rule reachable_line [OF reachable_passed _ _ w(1)]) simp_all
  show ?thesis using capabilities_supported [OF list_env.go_env_laws_axioms r, of 0] w r by auto
qed

theorem readloop_ends_clean_witness:
  "\<exists>v. readloop list_env everybody_reads 0 demo_input connected = Ret v \<and> c_hasQuit (cl v 0) \<and>
     nick_get list_env v ''ann'' \<noteq> Some 0"
proof -
  have h: "0 < w_next_client connected" "whowas_free (srv_whoWas connected)"
    by (simp_all add: whowas_free_def NewWhoWasList_def)
  note clean = readloop_ends_clean [OF list_env.go_env_laws_axioms reachable_connected h(1)]
  obtain v where v: "readloop list_env everybody_reads 0 demo_input connected = Ret v"
    using clean [of everybody_reads demo_input] h(2) nick_tame everybody_attentive by blast
  with clean show ?thesis by blast
qed


end
